theory Spec2Isabelle
  imports Complex_Main "HOL-Library.Sublist"
begin

section \<open>Python values, errors and strings\<close>

text \<open>
  The program (app.py) works on values loaded from JSON and on dict literals. They are
  modelled by one datatype. A dict is an association list read with \<open>map_of\<close>; a float
  is the real number its literal denotes (the program only stores and prints float
  literals, it never computes with them). A str is the list of its code points; the
  strings of the envelope and of the program's literals are taken over the code
  points below 256 (\<open>char\<close>, read as Latin-1), and \<open>lower\<close> and \<open>upper\<close> are Python's
  \<open>str.lower()\<close> and \<open>str.upper()\<close> on these. The string operations themselves
  (\<open>in\<close>, \<open>find\<close>, slicing) and \<open>near\<close> are defined for lists over any alphabet.
\<close>

datatype json =
    JNull
  | JBool bool
  | JInt int
  | JFloat real
  | JStr string
  | JArr "json list"
  | JObj "(string \<times> json) list"

datatype error = AttributeError | KeyError | TypeError

definition bindE :: "error + 'a \<Rightarrow> ('a \<Rightarrow> error + 'b) \<Rightarrow> error + 'b" where
  "bindE m f = (case m of Inl e \<Rightarrow> Inl e | Inr x \<Rightarrow> f x)"

text \<open>Truth value testing: \<open>None\<close>, \<open>False\<close>, zero and empty containers are false.\<close>

fun truthy :: "json \<Rightarrow> bool" where
  "truthy JNull = False"
| "truthy (JBool b) = b"
| "truthy (JInt n) = (n \<noteq> 0)"
| "truthy (JFloat r) = (r \<noteq> 0)"
| "truthy (JStr s) = (s \<noteq> [])"
| "truthy (JArr xs) = (xs \<noteq> [])"
| "truthy (JObj kvs) = (kvs \<noteq> [])"

text \<open>\<open>x or y\<close>\<close>

definition py_or :: "json \<Rightarrow> json \<Rightarrow> json" where
  "py_or x y = (if truthy x then x else y)"

text \<open>\<open>d.get(k, default)\<close>: only a dict has the method.\<close>

fun dict_get :: "json \<Rightarrow> string \<Rightarrow> json \<Rightarrow> error + json" where
  "dict_get (JObj kvs) k d = Inr (case map_of kvs k of Some v \<Rightarrow> v | None \<Rightarrow> d)"
| "dict_get _ k d = Inl AttributeError"

text \<open>\<open>d[k]\<close> with a string key: KeyError on a dict without the key, TypeError on a
  value that is not subscriptable by a string.\<close>

fun dict_index :: "json \<Rightarrow> string \<Rightarrow> error + json" where
  "dict_index (JObj kvs) k = (case map_of kvs k of Some v \<Rightarrow> Inr v | None \<Rightarrow> Inl KeyError)"
| "dict_index _ k = Inl TypeError"

text \<open>
  \<open>str.lower()\<close> on the code points below 256: the letters A-Z (65-90) and the Latin-1
  capitals 192-222 other than the multiplication sign 215 move up by 32; nothing else
  changes, and the result stays below 256.
\<close>

definition lower_char :: "char \<Rightarrow> char" where
  "lower_char c =
     (let n = (of_char c :: nat)
      in if (65 \<le> n \<and> n \<le> 90) \<or> (192 \<le> n \<and> n \<le> 222 \<and> n \<noteq> 215)
         then char_of (n + 32) else c)"

text \<open>
  \<open>str.upper()\<close> on the code points below 256. Its result can leave that range, so it
  is given as code points: a-z (97-122) and 224-254 other than the division sign 247 move
  down by 32; the micro sign 181 becomes U+039C, the sharp s 223 becomes "SS", and 255
  becomes U+0178; nothing else changes.
\<close>

definition upper_char :: "char \<Rightarrow> nat list" where
  "upper_char c =
     (let n = (of_char c :: nat)
      in if (97 \<le> n \<and> n \<le> 122) \<or> (224 \<le> n \<and> n \<le> 254 \<and> n \<noteq> 247) then [n - 32]
         else if n = 181 then [924]
         else if n = 223 then [83, 83]
         else if n = 255 then [376]
         else [n])"

definition lower :: "string \<Rightarrow> string" where
  "lower s = map lower_char s"

definition upper :: "string \<Rightarrow> nat list" where
  "upper s = concat (map upper_char s)"

definition code_points :: "string \<Rightarrow> nat list" where
  "code_points s = map of_char s"

text \<open>\<open>v.lower()\<close> and \<open>v.upper()\<close> on a loaded value: only a str has the methods.\<close>

fun py_lower :: "json \<Rightarrow> error + string" where
  "py_lower (JStr s) = Inr (lower s)"
| "py_lower _ = Inl AttributeError"

fun py_upper :: "json \<Rightarrow> error + nat list" where
  "py_upper (JStr s) = Inr (upper s)"
| "py_upper _ = Inl AttributeError"

text \<open>\<open>sub in s\<close> on strings.\<close>

fun contains :: "'a list \<Rightarrow> 'a list \<Rightarrow> bool" where
  "contains sub [] = (sub = [])"
| "contains sub (c # cs) = (prefix sub (c # cs) \<or> contains sub cs)"

text \<open>\<open>s.find(sub)\<close>: the lowest index where \<open>sub\<close> starts, \<open>-1\<close> when there is none.\<close>

fun find_from :: "'a list \<Rightarrow> 'a list \<Rightarrow> nat \<Rightarrow> int" where
  "find_from sub [] i = (if sub = [] then int i else - 1)"
| "find_from sub (c # cs) i = (if prefix sub (c # cs) then int i else find_from sub cs (Suc i))"

definition str_find :: "'a list \<Rightarrow> 'a list \<Rightarrow> int" where
  "str_find s sub = find_from sub s 0"

text \<open>\<open>s[i:j]\<close>: a negative bound counts from the end, and both bounds are clamped
  to the string.\<close>

definition slice_bound :: "nat \<Rightarrow> int \<Rightarrow> nat" where
  "slice_bound n i = (if i < 0 then nat (max 0 (int n + i)) else min n (nat i))"

definition slice :: "'a list \<Rightarrow> int \<Rightarrow> int \<Rightarrow> 'a list" where
  "slice s i j =
     (let lo = slice_bound (length s) i; hi = slice_bound (length s) j
      in take (hi - lo) (drop lo s))"

section \<open>Code catalog\<close>

text \<open>The entries of the two catalog dicts, named by their codes, and the dicts.\<close>

definition cpt_71045 :: json where
  "cpt_71045 = JObj [
     (''code'', JStr ''71045''),
     (''display'', JStr ''Radiologic examination, chest; single view''),
     (''system'', JStr ''http://www.ama-assn.org/go/cpt'')]"

definition cpt_71046 :: json where
  "cpt_71046 = JObj [
     (''code'', JStr ''71046''),
     (''display'', JStr ''Radiologic examination, chest; 2 views''),
     (''system'', JStr ''http://www.ama-assn.org/go/cpt'')]"

definition cpt_99213 :: json where
  "cpt_99213 = JObj [
     (''code'', JStr ''99213''),
     (''display'', JStr ''Office/outpatient visit, established patient, low MDM''),
     (''system'', JStr ''http://www.ama-assn.org/go/cpt'')]"

definition cpt_94640 :: json where
  "cpt_94640 = JObj [
     (''code'', JStr ''94640''),
     (''display'', JStr ''Pressurized or nonpressurized inhalation treatment for acute airway obstruction''),
     (''system'', JStr ''http://www.ama-assn.org/go/cpt'')]"

definition cpt_96372 :: json where
  "cpt_96372 = JObj [
     (''code'', JStr ''96372''),
     (''display'', JStr ''Therapeutic, prophylactic, or diagnostic injection; subcutaneous or intramuscular''),
     (''system'', JStr ''http://www.ama-assn.org/go/cpt'')]"

definition CPT_MAP :: json where
  "CPT_MAP = JObj [
     (''chest x-ray single view'', cpt_71045),
     (''chest x-ray two views'', cpt_71046),
     (''em_99213'', cpt_99213),
     (''nebulizer treatment'', cpt_94640),
     (''therapeutic injection'', cpt_96372)]"

definition hcpcs_J7613 :: json where
  "hcpcs_J7613 = JObj [
     (''code'', JStr ''J7613''),
     (''display'', JStr ''Albuterol, inhalation solution, FDA-approved final product, non-compounded, 1 mg''),
     (''system'', JStr ''https://www.cms.gov/mcd/hcpcs'')]"

definition hcpcs_J0696 :: json where
  "hcpcs_J0696 = JObj [
     (''code'', JStr ''J0696''),
     (''display'', JStr ''Injection, ceftriaxone sodium, per 250 mg''),
     (''system'', JStr ''https://www.cms.gov/mcd/hcpcs'')]"

definition hcpcs_J1100 :: json where
  "hcpcs_J1100 = JObj [
     (''code'', JStr ''J1100''),
     (''display'', JStr ''Injection, dexamethasone sodium phosphate, 1 mg''),
     (''system'', JStr ''https://www.cms.gov/mcd/hcpcs'')]"

definition HCPCS_MAP :: json where
  "HCPCS_MAP = JObj [
     (''albuterol neb'', hcpcs_J7613),
     (''ceftriaxone inj'', hcpcs_J0696),
     (''dexamethasone inj'', hcpcs_J1100)]"

definition PERFORMED_HINTS :: "string list" where
  "PERFORMED_HINTS = [''performed'', ''done'', ''completed'', ''administered'', ''given'',
     ''provided'', ''carried out'', ''obtained'', ''obtained in clinic'', ''obtained today'']"

section \<open>Rule engine\<close>

definition present :: "string \<Rightarrow> string list \<Rightarrow> bool" where
  "present text terms = (let low = lower text in list_all (\<lambda>t. contains t low) terms)"

text \<open>
  \<open>near\<close> is defined for strings over any alphabet, with \<open>str.lower()\<close> as its first
  argument \<open>lw\<close>: what is proved of it holds whatever lower-casing does to a string,
  also where it changes the length. The program's calls pass \<open>lower\<close>.
\<close>

definition near :: "('a list \<Rightarrow> 'a list) \<Rightarrow> 'a list \<Rightarrow> 'a list \<Rightarrow> 'a list \<Rightarrow> int \<Rightarrow> bool" where
  "near lw text a b window =
     (let low = lw text;
          a_idx = str_find low (lw a)
      in if a_idx = - 1 then False
         else let start = max 0 (a_idx - window);
                  end' = min (int (length low)) (a_idx + int (length a) + window)
              in contains (lw b) (slice low start end'))"

definition detect_performed_cxr :: "string \<Rightarrow> error + json" where
  "detect_performed_cxr note =
     (let low = lower note in
      if contains ''x-ray'' low \<or> contains ''xray'' low \<or> contains ''cxr'' low then
        if list_ex (\<lambda>h. near lower low ''x-ray'' h 40 \<or> near lower low ''xray'' h 40
                        \<or> near lower low ''cxr'' h 40)
             PERFORMED_HINTS then
          if contains ''two views'' low \<or> contains ''2 views'' low \<or> contains ''pa and lateral'' low
          then dict_index CPT_MAP ''chest x-ray two views''
          else dict_index CPT_MAP ''chest x-ray single view''
        else Inr JNull
      else Inr JNull)"

definition detect_nebulizer_and_drug :: "string \<Rightarrow> error + json \<times> json" where
  "detect_nebulizer_and_drug note =
     (let low = lower note;
          performed = list_ex (\<lambda>h. contains h low) PERFORMED_HINTS
      in if (contains ''nebulizer'' low \<or> contains ''neb'' low) \<and> performed then
           bindE (dict_index CPT_MAP ''nebulizer treatment'') (\<lambda>cpt.
           bindE (if contains ''albuterol'' low then dict_index HCPCS_MAP ''albuterol neb''
                  else Inr JNull) (\<lambda>hcpcs.
           Inr (cpt, hcpcs)))
         else Inr (JNull, JNull))"

definition detect_injection_and_drug :: "string \<Rightarrow> error + json \<times> json" where
  "detect_injection_and_drug note =
     (let low = lower note in
      if (contains ''intramuscular'' low \<or> contains ''im injection'' low
          \<or> contains ''injection given'' low \<or> contains ''shot given'' low)
         \<and> list_ex (\<lambda>h. contains h low) PERFORMED_HINTS then
        bindE (dict_index CPT_MAP ''therapeutic injection'') (\<lambda>cpt.
        if contains ''ceftriaxone'' low then
          bindE (dict_index HCPCS_MAP ''ceftriaxone inj'') (\<lambda>h. Inr (cpt, h))
        else if contains ''dexamethasone'' low then
          bindE (dict_index HCPCS_MAP ''dexamethasone inj'') (\<lambda>h. Inr (cpt, h))
        else Inr (cpt, JNull))
      else Inr (JNull, JNull))"

text \<open>The five diagnosis dict literals and the E/M literal of \<open>tiny_rules\<close>.\<close>

definition dx_J20_9 :: json where
  "dx_J20_9 = JObj [
     (''code'', JStr ''J20.9''),
     (''display'', JStr ''Acute bronchitis, unspecified organism''),
     (''system'', JStr ''http://hl7.org/fhir/sid/icd-10-cm''),
     (''rank'', JInt 1),
     (''confidence'', JFloat 0.72),
     (''rationale'', JStr ''Acute cough + fever/wheeze/SOB; outpatient; antibiotic prescribed.'')]"

definition dx_R06_2 :: json where
  "dx_R06_2 = JObj [
     (''code'', JStr ''R06.2''),
     (''display'', JStr ''Wheezing''),
     (''system'', JStr ''http://hl7.org/fhir/sid/icd-10-cm''),
     (''rank'', JInt 2),
     (''confidence'', JFloat 0.62),
     (''rationale'', JStr ''Documented wheezing.'')]"

definition dx_R06_02 :: json where
  "dx_R06_02 = JObj [
     (''code'', JStr ''R06.02''),
     (''display'', JStr ''Shortness of breath''),
     (''system'', JStr ''http://hl7.org/fhir/sid/icd-10-cm''),
     (''rank'', JInt 3),
     (''confidence'', JFloat 0.60),
     (''rationale'', JStr ''Documented SOB.'')]"

definition dx_R50_9 :: json where
  "dx_R50_9 = JObj [
     (''code'', JStr ''R50.9''),
     (''display'', JStr ''Fever, unspecified''),
     (''system'', JStr ''http://hl7.org/fhir/sid/icd-10-cm''),
     (''rank'', JInt 4),
     (''confidence'', JFloat 0.58),
     (''rationale'', JStr ''Documented fever.'')]"

definition dx_R05_9 :: json where
  "dx_R05_9 = JObj [
     (''code'', JStr ''R05.9''),
     (''display'', JStr ''Cough, unspecified''),
     (''system'', JStr ''http://hl7.org/fhir/sid/icd-10-cm''),
     (''rank'', JInt 5),
     (''confidence'', JFloat 0.56),
     (''rationale'', JStr ''Documented cough.'')]"

definition cpt_em_99213 :: json where
  "cpt_em_99213 = JObj [
     (''code'', JStr ''99213''),
     (''display'', JStr ''Office or other outpatient visit for an established patient, low MDM''),
     (''system'', JStr ''http://www.ama-assn.org/go/cpt''),
     (''assumed_patient_status'', JStr ''established''),
     (''confidence'', JFloat 0.58),
     (''rationale'', JStr ''Acute uncomplicated illness, outpatient management.'')]"

text \<open>The first two lines of \<open>tiny_rules\<close>: the note text of the envelope, which must be
  a str for \<open>note.lower()\<close>.\<close>

definition note_text :: "json \<Rightarrow> error + string" where
  "note_text envelope =
     bindE (dict_get envelope ''clinical_note'' JNull) (\<lambda>cn.
     bindE (dict_get (py_or cn (JObj [])) ''text_preview'' (JStr [])) (\<lambda>note.
     case note of JStr s \<Rightarrow> Inr s | _ \<Rightarrow> Inl AttributeError))"

text \<open>\<open>if x: xs.append(x)\<close>\<close>

definition append_if :: "json \<Rightarrow> json list" where
  "append_if x = (if truthy x then [x] else [])"

definition tiny_rules :: "json \<Rightarrow> error + json list \<times> json \<times> json list \<times> json list" where
  "tiny_rules envelope =
     bindE (note_text envelope) (\<lambda>note.
     let low = lower note;
         icd10 =
           (if present low [''cough'']
               \<and> (present low [''wheez''] \<or> present low [''shortness of breath''])
               \<and> (present low [''fever''] \<or> present low [''azithromycin''])
            then [dx_J20_9] else [])
           @ (if contains ''wheez'' low then [dx_R06_2] else [])
           @ (if contains ''shortness of breath'' low then [dx_R06_02] else [])
           @ (if contains ''fever'' low then [dx_R50_9] else [])
           @ (if contains ''cough'' low then [dx_R05_9] else []);
         cpt_em = cpt_em_99213
     in
     bindE (detect_performed_cxr note) (\<lambda>cxr.
     bindE (detect_nebulizer_and_drug note) (\<lambda>(neb_cpt, albut_hcpcs).
     bindE (detect_injection_and_drug note) (\<lambda>(inj_cpt, drug_hcpcs).
     Inr (icd10, cpt_em,
          append_if cxr @ append_if neb_cpt @ append_if inj_cpt,
          append_if albut_hcpcs @ append_if drug_hcpcs)))))"

text \<open>Lines 372-373 of the UI call \<open>tiny_rules\<close> and pass its four results on to
  \<open>build_fhir_bundle\<close>; \<open>run_coding_agent\<close> below is that composition.\<close>

section \<open>FHIR builders\<close>

text \<open>
  What the builder takes from outside the program is a parameter: the successive results
  of \<open>uuid.uuid4().hex[:8]\<close> and of \<open>datetime.utcnow().strftime(...)\<close>, numbered in
  call order, and Python's \<open>str()\<close> of a value that is not a str (used by \<open>str(...)\<close>
  and by the f-strings).
\<close>

record runtime =
  uuid_hex8 :: "nat \<Rightarrow> string"
  utcnow :: "nat \<Rightarrow> string"
  py_repr :: "json \<Rightarrow> string"

definition py_str :: "runtime \<Rightarrow> json \<Rightarrow> string" where
  "py_str rt v = (case v of JStr s \<Rightarrow> s | _ \<Rightarrow> py_repr rt v)"

definition fhir_ref :: "string \<Rightarrow> string \<Rightarrow> json" where
  "fhir_ref resource_type rid = JObj [(''reference'', JStr (resource_type @ ''/'' @ rid))]"

text \<open>Reading the built document: \<open>field k v\<close> is \<open>v[k]\<close> of a dict (\<open>JNull\<close> when there
  is none), \<open>elems v\<close> the elements of a list.\<close>

definition field :: "string \<Rightarrow> json \<Rightarrow> json" where
  "field k v = (case v of JObj kvs \<Rightarrow> (case map_of kvs k of Some x \<Rightarrow> x | None \<Rightarrow> JNull) | _ \<Rightarrow> JNull)"

definition elems :: "json \<Rightarrow> json list" where
  "elems v = (case v of JArr xs \<Rightarrow> xs | _ \<Rightarrow> [])"

text \<open>\<open>claim[k].append(x)\<close> on the claim dict, whose literal has every key the
  program appends to, and \<open>len(claim[k])\<close>.\<close>

fun list_append :: "json \<Rightarrow> json \<Rightarrow> json" where
  "list_append (JArr xs) x = JArr (xs @ [x])"
| "list_append v x = v"

fun dict_append :: "json \<Rightarrow> string \<Rightarrow> json \<Rightarrow> json" where
  "dict_append (JObj kvs) k x =
     JObj (map (\<lambda>(k', v). if k' = k then (k', list_append v x) else (k', v)) kvs)"
| "dict_append v k x = v"

definition len_at :: "json \<Rightarrow> string \<Rightarrow> nat" where
  "len_at claim k = length (elems (field k claim))"

text \<open>\<open>{...}.get(k, default)\<close> on a dict literal whose keys are strs, for a key \<open>k\<close> given
  by its code points.\<close>

definition lookup_points :: "(string \<times> json) list \<Rightarrow> nat list \<Rightarrow> json \<Rightarrow> json" where
  "lookup_points kvs k d =
     (case map_of (map (\<lambda>(k', v). (code_points k', v)) kvs) k of Some v \<Rightarrow> v | None \<Rightarrow> d)"

definition fhir_patient :: "string \<Rightarrow> json \<Rightarrow> error + json" where
  "fhir_patient pat_id patient =
     bindE (dict_get patient ''mrn'' (JStr [])) (\<lambda>mrn.
     bindE (dict_get patient ''last_name'' (JStr [])) (\<lambda>last_name.
     bindE (dict_get patient ''first_name'' (JStr [])) (\<lambda>first_name.
     bindE (dict_get patient ''sex'' (JStr [])) (\<lambda>sex.
     bindE (py_upper sex) (\<lambda>sex_upper.
     bindE (Inr (lookup_points [(''M'', JStr ''male''), (''F'', JStr ''female'')] sex_upper
              (JStr ''unknown''))) (\<lambda>gender.
     bindE (dict_get patient ''dob'' (JStr [])) (\<lambda>dob.
     Inr (JObj [
       (''resourceType'', JStr ''Patient''),
       (''id'', JStr pat_id),
       (''identifier'', JArr [JObj [(''system'', JStr ''urn:mrn''), (''value'', mrn)]]),
       (''name'', JArr [JObj [(''family'', last_name), (''given'', JArr [first_name])]]),
       (''gender'', gender),
       (''birthDate'', dob)]))))))))"

definition fhir_encounter :: "string \<Rightarrow> string \<Rightarrow> json \<Rightarrow> error + json" where
  "fhir_encounter pat_id enc_id encounter =
     bindE (dict_get encounter ''date'' JNull) (\<lambda>start.
     bindE (dict_get encounter ''date'' JNull) (\<lambda>end'.
     bindE (dict_get encounter ''location_npi'' (JStr [])) (\<lambda>location_npi.
     Inr (JObj [
       (''resourceType'', JStr ''Encounter''),
       (''id'', JStr enc_id),
       (''status'', JStr ''finished''),
       (''class'', JObj [
          (''system'', JStr ''http://terminology.hl7.org/CodeSystem/v3-ActCode''),
          (''code'', JStr ''AMB''),
          (''display'', JStr ''ambulatory'')]),
       (''subject'', fhir_ref ''Patient'' pat_id),
       (''period'', JObj [(''start'', start), (''end'', end')]),
       (''serviceProvider'', JObj [(''identifier'',
          JObj [(''system'', JStr ''urn:npi:location''), (''value'', location_npi)])])]))))"

text \<open>The Condition dict of one loop iteration over \<open>icd10\<close>.\<close>

definition condition :: "runtime \<Rightarrow> string \<Rightarrow> string \<Rightarrow> string \<Rightarrow> json \<Rightarrow> error + json" where
  "condition rt cond_id pat_id enc_id d =
     bindE (dict_get d ''system'' (JStr ''http://hl7.org/fhir/sid/icd-10-cm'')) (\<lambda>system.
     bindE (dict_index d ''code'') (\<lambda>code.
     bindE (dict_get d ''display'' (JStr [])) (\<lambda>display.
     bindE (dict_get d ''rank'' JNull) (\<lambda>rank.
     bindE (dict_get d ''confidence'' JNull) (\<lambda>confidence.
     bindE (dict_get d ''rationale'' (JStr [])) (\<lambda>rationale.
     Inr (JObj [
       (''resourceType'', JStr ''Condition''),
       (''id'', JStr cond_id),
       (''subject'', fhir_ref ''Patient'' pat_id),
       (''encounter'', fhir_ref ''Encounter'' enc_id),
       (''code'', JObj [
          (''coding'', JArr [JObj [(''system'', system), (''code'', code), (''display'', display)]]),
          (''text'', display)]),
       (''verificationStatus'', JObj [(''coding'', JArr [JObj [
          (''system'', JStr ''http://terminology.hl7.org/CodeSystem/condition-ver-status''),
          (''code'', JStr ''confirmed'')]])]),
       (''clinicalStatus'', JObj [(''coding'', JArr [JObj [
          (''system'', JStr ''http://terminology.hl7.org/CodeSystem/condition-clinical''),
          (''code'', JStr ''active'')]])]),
       (''note'', JArr [JObj [(''text'', JStr (''rank='' @ py_str rt rank
            @ '', confidence='' @ py_str rt confidence
            @ '', rationale='' @ py_str rt rationale))]])])))))))"

definition claim_diagnosis_entry :: "nat \<Rightarrow> string \<Rightarrow> json" where
  "claim_diagnosis_entry idx cond_id = JObj [
     (''sequence'', JInt (int idx)),
     (''diagnosisReference'', fhir_ref ''Condition'' cond_id),
     (''type'', JArr [JObj [(''coding'', JArr [JObj [
        (''system'', JStr ''http://terminology.hl7.org/CodeSystem/ex-diagnosistype''),
        (''code'', JStr (if idx = 1 then ''principal'' else ''additional''))]])]])]"

text \<open>The loop \<open>for idx, d in enumerate(icd10, start=1)\<close>. The three resource ids take
  the first three draws of the uuid source, so the Condition of index \<open>idx\<close> takes draw
  \<open>idx + 2\<close>. The state is the pair of lists the loop appends to.\<close>

fun conditions_loop ::
  "runtime \<Rightarrow> string \<Rightarrow> string \<Rightarrow> nat \<Rightarrow> json list \<Rightarrow> json list \<times> json list
     \<Rightarrow> error + json list \<times> json list" where
  "conditions_loop rt pat_id enc_id idx [] (condition_entries, claim_diagnosis) =
     Inr (condition_entries, claim_diagnosis)"
| "conditions_loop rt pat_id enc_id idx (d # ds) (condition_entries, claim_diagnosis) =
     (let cond_id = ''cond-'' @ uuid_hex8 rt (idx + 2) in
      bindE (condition rt cond_id pat_id enc_id d) (\<lambda>c.
      conditions_loop rt pat_id enc_id (Suc idx) ds
        (condition_entries @ [JObj [(''resource'', c)]],
         claim_diagnosis @ [claim_diagnosis_entry idx cond_id])))"

text \<open>The Claim dict literal, with its empty \<open>procedure\<close>, \<open>item\<close> and
  \<open>supportingInfo\<close> lists.\<close>

definition claim_literal ::
  "runtime \<Rightarrow> string \<Rightarrow> string \<Rightarrow> json \<Rightarrow> json \<Rightarrow> json \<Rightarrow> json \<Rightarrow> json list \<Rightarrow> error + json" where
  "claim_literal rt clm_id pat_id envelope patient encounter claim_id_input claim_diagnosis =
     bindE (dict_get encounter ''provider_npi'' (JStr [])) (\<lambda>provider_npi.
     bindE (dict_get patient ''payer_name'' (JStr [])) (\<lambda>payer_name.
     bindE (dict_get envelope ''meta'' (JObj [])) (\<lambda>meta.
     bindE (dict_get meta ''source'' (JStr [])) (\<lambda>source.
     Inr (JObj [
       (''resourceType'', JStr ''Claim''),
       (''id'', JStr clm_id),
       (''status'', JStr ''active''),
       (''type'', JObj [(''coding'', JArr [JObj [
          (''system'', JStr ''http://terminology.hl7.org/CodeSystem/claim-type''),
          (''code'', JStr ''professional'')]])]),
       (''use'', JStr ''claim''),
       (''patient'', fhir_ref ''Patient'' pat_id),
       (''created'', JStr (utcnow rt 0)),
       (''enterer'', JObj [(''identifier'',
          JObj [(''system'', JStr ''urn:npi:provider''), (''value'', provider_npi)])]),
       (''insurer'', JObj [(''display'', payer_name)]),
       (''priority'', JObj [(''coding'', JArr [JObj [
          (''system'', JStr ''http://terminology.hl7.org/CodeSystem/processpriority''),
          (''code'', JStr ''normal'')]])]),
       (''diagnosis'', JArr claim_diagnosis),
       (''procedure'', JArr []),
       (''item'', JArr []),
       (''supportingInfo'', JArr []),
       (''extension'', JArr [JObj [
          (''url'', JStr ''urn:gooclaim:meta''),
          (''extension'', JArr [
             JObj [(''url'', JStr ''claim_id_input''), (''valueString'', JStr (py_str rt claim_id_input))],
             JObj [(''url'', JStr ''source''), (''valueString'', JStr (py_str rt source))]])]])])))))"

text \<open>The dict appended to \<open>claim["item"]\<close>, the same literal in the three places that
  append one (for the E/M code, a procedure, a supply), up to the default system.\<close>

definition line_item :: "json \<Rightarrow> string \<Rightarrow> json \<Rightarrow> json \<Rightarrow> string \<Rightarrow> error + json" where
  "line_item claim default_system c encounter enc_id =
     bindE (dict_get c ''system'' (JStr default_system)) (\<lambda>system.
     bindE (dict_index c ''code'') (\<lambda>code.
     bindE (dict_get c ''display'' (JStr [])) (\<lambda>display.
     bindE (dict_get encounter ''date'' JNull) (\<lambda>date.
     Inr (JObj [
       (''sequence'', JInt (int (len_at claim ''item'') + 1)),
       (''productOrService'', JObj [
          (''coding'', JArr [JObj [(''system'', system), (''code'', code), (''display'', display)]]),
          (''text'', display)]),
       (''servicedDate'', date),
       (''encounter'', JArr [fhir_ref ''Encounter'' enc_id])])))))"

text \<open>\<open>if cpt_em and cpt_em.get("code"): ...\<close>\<close>

definition add_em_item :: "runtime \<Rightarrow> json \<Rightarrow> json \<Rightarrow> string \<Rightarrow> json \<Rightarrow> error + json" where
  "add_em_item rt cpt_em encounter enc_id claim =
     (if truthy cpt_em then
        bindE (dict_get cpt_em ''code'' JNull) (\<lambda>c.
        if truthy c then
          bindE (line_item claim ''http://www.ama-assn.org/go/cpt'' cpt_em encounter enc_id) (\<lambda>item.
          let claim1 = dict_append claim ''item'' item in
          bindE (dict_get cpt_em ''assumed_patient_status'' (JStr ''unknown'')) (\<lambda>status.
          bindE (dict_get cpt_em ''confidence'' JNull) (\<lambda>confidence.
          Inr (dict_append claim1 ''supportingInfo'' (JObj [
            (''sequence'', JInt (int (len_at claim1 ''supportingInfo'') + 1)),
            (''category'', JObj [(''coding'', JArr [JObj [
               (''system'', JStr ''http://terminology.hl7.org/CodeSystem/claiminformationcategory''),
               (''code'', JStr ''info'')]])]),
            (''valueString'', JStr (''E/M assumes patient status='' @ py_str rt status
               @ '' (confidence='' @ py_str rt confidence @ '')''))])))))
        else Inr claim)
      else Inr claim)"

definition procedure_entry :: "nat \<Rightarrow> json \<Rightarrow> json \<Rightarrow> error + json" where
  "procedure_entry i p encounter =
     bindE (dict_get encounter ''date'' JNull) (\<lambda>date.
     bindE (dict_get p ''system'' (JStr ''http://www.ama-assn.org/go/cpt'')) (\<lambda>system.
     bindE (dict_index p ''code'') (\<lambda>code.
     bindE (dict_get p ''display'' (JStr [])) (\<lambda>display.
     Inr (JObj [
       (''sequence'', JInt (int i)),
       (''date'', date),
       (''procedureCodeableConcept'', JObj [
          (''coding'', JArr [JObj [(''system'', system), (''code'', code), (''display'', display)]])])])))))"

text \<open>\<open>for i, p in enumerate(procedures, start=1)\<close>, with the claim as the state.\<close>

fun procedures_loop :: "json \<Rightarrow> string \<Rightarrow> nat \<Rightarrow> json list \<Rightarrow> json \<Rightarrow> error + json" where
  "procedures_loop encounter enc_id i [] claim = Inr claim"
| "procedures_loop encounter enc_id i (p # ps) claim =
     bindE (procedure_entry i p encounter) (\<lambda>pe.
     let claim1 = dict_append claim ''procedure'' pe in
     bindE (line_item claim1 ''http://www.ama-assn.org/go/cpt'' p encounter enc_id) (\<lambda>item.
     procedures_loop encounter enc_id (Suc i) ps (dict_append claim1 ''item'' item)))"

text \<open>\<open>for h in hcpcs\<close>\<close>

fun hcpcs_loop :: "json \<Rightarrow> string \<Rightarrow> json list \<Rightarrow> json \<Rightarrow> error + json" where
  "hcpcs_loop encounter enc_id [] claim = Inr claim"
| "hcpcs_loop encounter enc_id (h # hs) claim =
     bindE (line_item claim ''https://www.cms.gov/mcd/hcpcs'' h encounter enc_id) (\<lambda>item.
     hcpcs_loop encounter enc_id hs (dict_append claim ''item'' item))"

definition build_fhir_bundle ::
  "runtime \<Rightarrow> json \<Rightarrow> json list \<Rightarrow> json \<Rightarrow> json list \<Rightarrow> json list \<Rightarrow> error + json" where
  "build_fhir_bundle rt envelope icd10 cpt_em procedures hcpcs =
     (let pat_id = ''pat-'' @ uuid_hex8 rt 0;
          enc_id = ''enc-'' @ uuid_hex8 rt 1;
          clm_id = ''clm-'' @ uuid_hex8 rt 2
      in
      bindE (dict_get envelope ''patient'' (JObj [])) (\<lambda>patient.
      bindE (dict_get envelope ''encounter'' (JObj [])) (\<lambda>encounter.
      bindE (dict_get envelope ''claim_id'' JNull) (\<lambda>claim_id.
      let claim_id_input = py_or claim_id (JStr clm_id) in
      bindE (fhir_patient pat_id patient) (\<lambda>fhir_patient'.
      bindE (fhir_encounter pat_id enc_id encounter) (\<lambda>fhir_encounter'.
      bindE (conditions_loop rt pat_id enc_id 1 icd10 ([], [])) (\<lambda>(condition_entries, claim_diagnosis).
      bindE (claim_literal rt clm_id pat_id envelope patient encounter claim_id_input claim_diagnosis)
        (\<lambda>claim0.
      bindE (add_em_item rt cpt_em encounter enc_id claim0) (\<lambda>claim1.
      bindE (procedures_loop encounter enc_id 1 procedures claim1) (\<lambda>claim2.
      bindE (hcpcs_loop encounter enc_id hcpcs claim2) (\<lambda>claim.
      Inr (JObj [
        (''resourceType'', JStr ''Bundle''),
        (''type'', JStr ''collection''),
        (''id'', JStr (''bundle-'' @ uuid_hex8 rt (3 + length icd10))),
        (''timestamp'', JStr (utcnow rt 1)),
        (''entry'', JArr ([JObj [(''resource'', fhir_patient')],
                          JObj [(''resource'', fhir_encounter')],
                          JObj [(''resource'', claim)]] @ condition_entries))]))))))))))))"

definition run_coding_agent :: "runtime \<Rightarrow> json \<Rightarrow> error + json" where
  "run_coding_agent rt envelope =
     bindE (tiny_rules envelope) (\<lambda>(icd10, cpt_em, procedures, hcpcs).
     build_fhir_bundle rt envelope icd10 cpt_em procedures hcpcs)"

section \<open>Notions used to state the properties\<close>

text \<open>\<open>occurs_at sub s k\<close>: the string \<open>sub\<close> stands in \<open>s\<close> at index \<open>k\<close>.\<close>

definition occurs_at :: "'a list \<Rightarrow> 'a list \<Rightarrow> nat \<Rightarrow> bool" where
  "occurs_at sub s k = (k \<le> length s \<and> prefix sub (drop k s))"

text \<open>\<open>first_occurrence sub s k\<close>: the first place where \<open>sub\<close> stands in \<open>s\<close> is \<open>k\<close>.\<close>

definition first_occurrence :: "'a list \<Rightarrow> 'a list \<Rightarrow> nat \<Rightarrow> bool" where
  "first_occurrence sub s k = (occurs_at sub s k \<and> (\<forall>k'<k. \<not> occurs_at sub s k'))"

text \<open>\<open>within_window s a b w\<close>: \<open>a\<close> occurs in \<open>s\<close>, and an occurrence of \<open>b\<close> lies between
  \<open>w\<close> characters before the start and \<open>w\<close> characters after the end of the first
  occurrence of \<open>a\<close>.\<close>

definition within_window :: "'a list \<Rightarrow> 'a list \<Rightarrow> 'a list \<Rightarrow> int \<Rightarrow> bool" where
  "within_window s a b w =
     (\<exists>k j. first_occurrence a s k \<and> occurs_at b s j \<and> int k - w \<le> int j
            \<and> int j + int (length b) \<le> int k + int (length a) + w)"

text \<open>An envelope that carries only a note text.\<close>

definition note_envelope :: "string \<Rightarrow> json" where
  "note_envelope t = JObj [(''clinical_note'', JObj [(''text_preview'', JStr t)])]"

definition is_imaging :: "json \<Rightarrow> bool" where
  "is_imaging p = (field ''code'' p = JStr ''71045'' \<or> field ''code'' p = JStr ''71046'')"

definition is_injection_drug :: "json \<Rightarrow> bool" where
  "is_injection_drug h = (field ''code'' h = JStr ''J0696'' \<or> field ''code'' h = JStr ''J1100'')"

definition rank_of :: "json \<Rightarrow> int" where
  "rank_of d = (case field ''rank'' d of JInt n \<Rightarrow> n | _ \<Rightarrow> 0)"

definition confidence_of :: "json \<Rightarrow> real" where
  "confidence_of d = (case field ''confidence'' d of JFloat r \<Rightarrow> r | _ \<Rightarrow> 0)"

subsection \<open>Envelopes\<close>

text \<open>
  The envelopes of the input contract: the envelope is a dict; \<open>patient\<close>, \<open>encounter\<close>,
  \<open>clinical_note\<close> and \<open>meta\<close> are dicts when they are present; \<open>patient.sex\<close> and
  \<open>clinical_note.text_preview\<close> are strs when they are present. Every field may be
  absent, and the other fields may hold any value.
\<close>

fun is_str :: "json \<Rightarrow> bool" where
  "is_str (JStr s) = True"
| "is_str _ = False"

definition absent_or :: "(json \<Rightarrow> bool) \<Rightarrow> (string \<times> json) list \<Rightarrow> string \<Rightarrow> bool" where
  "absent_or P kvs k = (case map_of kvs k of None \<Rightarrow> True | Some v \<Rightarrow> P v)"

fun dict_with :: "string list \<Rightarrow> json \<Rightarrow> bool" where
  "dict_with strs (JObj sub) = list_all (absent_or is_str sub) strs"
| "dict_with strs _ = False"

fun envelope_shape :: "json \<Rightarrow> bool" where
  "envelope_shape (JObj kvs) =
     (absent_or (dict_with [''sex'']) kvs ''patient''
      \<and> absent_or (dict_with []) kvs ''encounter''
      \<and> absent_or (dict_with [''text_preview'']) kvs ''clinical_note''
      \<and> absent_or (dict_with []) kvs ''meta'')"
| "envelope_shape _ = False"

text \<open>\<open>envelope_field env section k\<close>: the field \<open>k\<close> of the section, \<open>None\<close> when the
  section or the field is absent.\<close>

definition envelope_field :: "json \<Rightarrow> string \<Rightarrow> string \<Rightarrow> json option" where
  "envelope_field env section k =
     (case env of
        JObj kvs \<Rightarrow> (case map_of kvs section of Some (JObj sub) \<Rightarrow> map_of sub k | _ \<Rightarrow> None)
      | _ \<Rightarrow> None)"

definition envelope_top :: "json \<Rightarrow> string \<Rightarrow> json option" where
  "envelope_top env k = (case env of JObj kvs \<Rightarrow> map_of kvs k | _ \<Rightarrow> None)"

text \<open>A code entry as the builder needs it: a dict with a \<open>code\<close> key.\<close>

fun code_entry :: "json \<Rightarrow> bool" where
  "code_entry (JObj kvs) = (map_of kvs ''code'' \<noteq> None)"
| "code_entry _ = False"

subsection \<open>Reading a bundle\<close>

definition bundle_resources :: "json \<Rightarrow> json list" where
  "bundle_resources b = map (field ''resource'') (elems (field ''entry'' b))"

definition resources_of_type :: "string \<Rightarrow> json \<Rightarrow> json list" where
  "resources_of_type t b = filter (\<lambda>r. field ''resourceType'' r = JStr t) (bundle_resources b)"

text \<open>The resource of a type that the bundle holds once.\<close>

definition the_resource :: "string \<Rightarrow> json \<Rightarrow> json" where
  "the_resource t b = (case resources_of_type t b of [r] \<Rightarrow> r | _ \<Rightarrow> JNull)"

text \<open>What a reference to a resource looks like: its type, a slash, its id.\<close>

definition resource_key :: "json \<Rightarrow> json" where
  "resource_key r =
     (case (field ''resourceType'' r, field ''id'' r) of
        (JStr t, JStr i) \<Rightarrow> JStr (t @ ''/'' @ i)
      | _ \<Rightarrow> JNull)"

definition reference :: "json \<Rightarrow> json" where
  "reference x = field ''reference'' x"

text \<open>The references a resource holds: the Encounter's subject; the Claim's patient,
  the diagnosisReference of each diagnosis and the encounter references of each item; the
  subject and the encounter of a Condition.\<close>

definition claim_references :: "json \<Rightarrow> json list" where
  "claim_references r =
     [reference (field ''patient'' r)]
     @ map (\<lambda>d. reference (field ''diagnosisReference'' d)) (elems (field ''diagnosis'' r))
     @ concat (map (\<lambda>it. map reference (elems (field ''encounter'' it))) (elems (field ''item'' r)))"

definition resource_references :: "json \<Rightarrow> json list" where
  "resource_references r =
     (if field ''resourceType'' r = JStr ''Encounter'' then [reference (field ''subject'' r)]
      else if field ''resourceType'' r = JStr ''Claim'' then claim_references r
      else if field ''resourceType'' r = JStr ''Condition''
        then [reference (field ''subject'' r), reference (field ''encounter'' r)]
      else [])"

definition bundle_references :: "json \<Rightarrow> json list" where
  "bundle_references b = concat (map resource_references (bundle_resources b))"

text \<open>The first element of a list (\<open>JNull\<close> when there is none), and the value at the
  end of a path of keys.\<close>

definition first_elem :: "json \<Rightarrow> json" where
  "first_elem v = (case elems v of x # _ \<Rightarrow> x | [] \<Rightarrow> JNull)"

fun at_path :: "string list \<Rightarrow> json \<Rightarrow> json" where
  "at_path [] v = v"
| "at_path (k # ks) v = at_path ks (field k v)"

text \<open>The code of the first coding of a codeable concept, and of a line of
  \<open>Claim.item\<close> and of \<open>Claim.procedure\<close>.\<close>

definition coding_code :: "json \<Rightarrow> json" where
  "coding_code x = (case elems (field ''coding'' x) of c # _ \<Rightarrow> field ''code'' c | [] \<Rightarrow> JNull)"

definition item_code :: "json \<Rightarrow> json" where
  "item_code it = coding_code (field ''productOrService'' it)"

definition procedure_code :: "json \<Rightarrow> json" where
  "procedure_code p = coding_code (field ''procedureCodeableConcept'' p)"

text \<open>The sequence numbers \<open>1, ..., n\<close>.\<close>

definition sequence_run :: "nat \<Rightarrow> json list" where
  "sequence_run n = map (\<lambda>i. JInt (int i)) [1 ..< Suc n]"

text \<open>The bundle of a run, \<open>JNull\<close> when the run raised.\<close>

definition result_bundle :: "error + json \<Rightarrow> json" where
  "result_bundle r = (case r of Inr b \<Rightarrow> b | Inl e \<Rightarrow> JNull)"

subsection \<open>A sample run\<close>

text \<open>A runtime for the examples: eight hex digits that differ from draw to draw, a fixed
  clock, and \<open>str()\<close> of the ranks and confidences the rules produce.\<close>

definition sample_repr :: "json \<Rightarrow> string" where
  "sample_repr v =
     (if v = JNull then ''None''
      else if v = JInt 1 then ''1'' else if v = JInt 2 then ''2'' else if v = JInt 3 then ''3''
      else if v = JInt 4 then ''4'' else if v = JInt 5 then ''5''
      else if v = JFloat 0.72 then ''0.72'' else if v = JFloat 0.62 then ''0.62''
      else if v = JFloat 0.60 then ''0.6'' else if v = JFloat 0.58 then ''0.58''
      else if v = JFloat 0.56 then ''0.56'' else ''?'')"

definition sample_runtime :: runtime where
  "sample_runtime = \<lparr>uuid_hex8 = (\<lambda>k. ''9f3c2a1'' @ [char_of (48 + k mod 10)]),
      utcnow = (\<lambda>k. ''2024-05-01T10:00:00Z''), py_repr = sample_repr\<rparr>"

definition sample_envelope :: json where
  "sample_envelope = JObj [
     (''claim_id'', JStr ''CLM-1001''),
     (''patient'', JObj [(''mrn'', JStr ''MRN123''), (''first_name'', JStr ''Asha''),
        (''last_name'', JStr ''Rao''), (''sex'', JStr ''F''), (''dob'', JStr ''1980-02-03'')]),
     (''encounter'', JObj [(''date'', JStr ''2024-05-01''), (''provider_npi'', JStr ''1234567890'')]),
     (''clinical_note'', JObj [(''text_preview'',
        JStr ''Cough and wheezing. Chest X-ray performed, two views. IM injection given: ceftriaxone.'')])]"

(*DEFS-END*)

section \<open>Strings\<close>

lemma bindE_Inl [simp]: "bindE (Inl e) f = Inl e"
  by (simp add: bindE_def)

lemma bindE_Inr [simp]: "bindE (Inr x) f = f x"
  by (simp add: bindE_def)

lemma bindE_eq_Inr: "bindE m f = Inr y \<longleftrightarrow> (\<exists>x. m = Inr x \<and> f x = Inr y)"
  by (cases m) simp_all

lemma contains_sublist: "contains sub s = sublist sub s"
  by (induction s) (auto simp: sublist_Cons_right)

lemma lower_char_idem: "lower_char (lower_char c) = lower_char c"
proof -
  define n where "n = (of_char c :: nat)"
  define up where "up m \<longleftrightarrow> (65 \<le> m \<and> m \<le> 90) \<or> (192 \<le> m \<and> m \<le> 222 \<and> m \<noteq> 215)"
    for m :: nat
  have d: "lower_char x = (if up (of_char x) then char_of (of_char x + (32::nat)) else x)" for x
    by (simp add: lower_char_def Let_def up_def)
  show ?thesis
  proof (cases "up n")
    case True
    then have l: "lower_char c = char_of (n + 32)"
      by (simp add: d n_def)
    have "n + 32 < 256"
      using True by (auto simp: up_def)
    then have o: "(n + 32) mod 256 = n + 32"
      by simp
    have u: "\<not> up (n + 32)"
      using True by (auto simp: up_def)
    show ?thesis
      unfolding l by (simp add: d o u)
  next
    case False
    then show ?thesis
      by (simp add: d n_def)
  qed
qed

lemma lower_idem [simp]: "lower (lower s) = lower s"
  by (simp add: lower_def lower_char_idem)

lemma length_lower [simp]: "length (lower s) = length s"
  by (simp add: lower_def)

lemma occurs_at_Nil: "occurs_at sub [] k = (sub = [] \<and> k = 0)"
  by (auto simp: occurs_at_def)

lemma occurs_at_Cons_0: "occurs_at sub (c # cs) 0 = prefix sub (c # cs)"
  by (simp add: occurs_at_def)

lemma occurs_at_Cons_Suc: "occurs_at sub (c # cs) (Suc k) = occurs_at sub cs k"
  by (simp add: occurs_at_def)

lemma occurs_at_bound: "occurs_at sub s k \<Longrightarrow> k + length sub \<le> length s"
  by (auto simp: occurs_at_def dest!: prefix_length_le)

lemma contains_iff_occurs: "contains sub s \<longleftrightarrow> (\<exists>k. occurs_at sub s k)"
proof (induction s)
  case Nil
  show ?case by (simp add: occurs_at_Nil)
next
  case (Cons c cs)
  show ?case
  proof
    assume a: "contains sub (c # cs)"
    show "\<exists>k. occurs_at sub (c # cs) k"
    proof (cases "prefix sub (c # cs)")
      case True
      then have "occurs_at sub (c # cs) 0"
        by (simp add: occurs_at_Cons_0)
      then show ?thesis ..
    next
      case False
      with a have "contains sub cs"
        by simp
      then obtain k where "occurs_at sub cs k"
        unfolding Cons.IH ..
      then have "occurs_at sub (c # cs) (Suc k)"
        by (simp add: occurs_at_Cons_Suc)
      then show ?thesis ..
    qed
  next
    assume "\<exists>k. occurs_at sub (c # cs) k"
    then obtain k where k: "occurs_at sub (c # cs) k" ..
    show "contains sub (c # cs)"
    proof (cases k)
      case 0
      then show ?thesis using k by (simp add: occurs_at_Cons_0)
    next
      case (Suc m)
      then have "occurs_at sub cs m"
        using k by (simp add: occurs_at_Cons_Suc)
      then have "\<exists>k. occurs_at sub cs k" ..
      then have "contains sub cs"
        unfolding Cons.IH .
      then show ?thesis by simp
    qed
  qed
qed

lemma find_from_none: "\<not> contains sub s \<Longrightarrow> find_from sub s i = - 1"
  by (induction s arbitrary: i) auto

lemma find_from_first:
  "occurs_at sub s k \<Longrightarrow> (\<forall>k'<k. \<not> occurs_at sub s k') \<Longrightarrow> find_from sub s i = int (i + k)"
proof (induction s arbitrary: i k)
  case Nil
  then show ?case by (auto simp: occurs_at_Nil)
next
  case (Cons c cs)
  show ?case
  proof (cases k)
    case 0
    then show ?thesis using Cons.prems(1) by (simp add: occurs_at_Cons_0)
  next
    case (Suc m)
    have "\<not> occurs_at sub (c # cs) 0"
      using Cons.prems(2)[rule_format, of 0] Suc by simp
    then have np: "\<not> prefix sub (c # cs)"
      by (simp add: occurs_at_Cons_0)
    have om: "occurs_at sub cs m"
      using Cons.prems(1) Suc by (simp add: occurs_at_Cons_Suc)
    have "\<not> occurs_at sub cs k'" if "k' < m" for k'
    proof -
      have "\<not> occurs_at sub (c # cs) (Suc k')"
        using Cons.prems(2)[rule_format, of "Suc k'"] that Suc by simp
      then show ?thesis
        by (simp add: occurs_at_Cons_Suc)
    qed
    then have "\<forall>k'<m. \<not> occurs_at sub cs k'"
      by simp
    with om have "find_from sub cs (Suc i) = int (Suc i + m)"
      by (rule Cons.IH)
    with np Suc show ?thesis by simp
  qed
qed

text \<open>A term is in the cut \<open>s[lo:hi]\<close> exactly when one of its occurrences in \<open>s\<close> lies
  between the two bounds.\<close>

lemma sublist_window:
  assumes "lo \<le> hi" "hi \<le> length s"
  shows "sublist b (take (hi - lo) (drop lo s)) \<longleftrightarrow>
         (\<exists>j. lo \<le> j \<and> j + length b \<le> hi \<and> occurs_at b s j)"
proof
  assume "sublist b (take (hi - lo) (drop lo s))"
  then obtain ps ss where e: "take (hi - lo) (drop lo s) = ps @ b @ ss"
    by (auto simp: sublist_def)
  have len: "length (take (hi - lo) (drop lo s)) = hi - lo"
    using assms by simp
  have l2: "length ps + length b + length ss = hi - lo"
    using e len by (metis length_append add.assoc)
  define R where "R = drop (hi - lo) (drop lo s)"
  have d: "drop lo s = ps @ b @ ss @ R"
    unfolding R_def using e by (metis append_take_drop_id append.assoc)
  have "drop (lo + length ps) s = drop (length ps) (drop lo s)"
    by (simp add: add.commute)
  also have "\<dots> = b @ ss @ R"
    by (simp add: d)
  finally have "prefix b (drop (lo + length ps) s)"
    by simp
  moreover have "lo + length ps \<le> length s"
    using l2 assms by linarith
  ultimately have "occurs_at b s (lo + length ps)"
    by (simp add: occurs_at_def)
  moreover have "lo + length ps + length b \<le> hi"
    using l2 assms by linarith
  ultimately show "\<exists>j. lo \<le> j \<and> j + length b \<le> hi \<and> occurs_at b s j"
    by (intro exI[of _ "lo + length ps"]) simp
next
  assume "\<exists>j. lo \<le> j \<and> j + length b \<le> hi \<and> occurs_at b s j"
  then obtain j where j: "lo \<le> j" "j + length b \<le> hi" "occurs_at b s j"
    by blast
  then obtain r where r: "drop j s = b @ r"
    by (auto simp: occurs_at_def prefix_def)
  have jl: "j \<le> length s"
    using j(3) by (simp add: occurs_at_def)
  define D where "D = drop lo s"
  define P where "P = take (j - lo) D"
  have lP: "length P = j - lo"
    using jl j(1) by (simp add: P_def D_def)
  have "drop (j - lo) D = drop j s"
    using j(1) by (simp add: D_def)
  then have D: "D = P @ b @ r"
    using r by (metis P_def append_take_drop_id)
  have "take (hi - lo) D = P @ b @ take (hi - lo - (j - lo) - length b) r"
    using lP j by (simp add: D)
  then show "sublist b (take (hi - lo) (drop lo s))"
    unfolding D_def by (metis sublist_appendI)
qed

section \<open>The proximity test\<close>

lemma near_absent: "\<not> contains (lw a) (lw t) \<Longrightarrow> \<not> near lw t a b w"
  by (simp add: near_def str_find_def find_from_none Let_def)

lemma near_first:
  assumes w: "0 \<le> w" and k: "occurs_at (lw a) (lw t) k"
    and first: "\<forall>k'<k. \<not> occurs_at (lw a) (lw t) k'"
  shows "near lw t a b w =
    (\<exists>j. occurs_at (lw b) (lw t) j \<and> int k - w \<le> int j
         \<and> int j + int (length (lw b)) \<le> int k + int (length a) + w)"
proof -
  define low where "low = lw t"
  define n where "n = length low"
  have idx: "str_find low (lw a) = int k"
    using find_from_first[OF k first, of 0] by (simp add: str_find_def low_def)
  have kn: "k \<le> n"
    using k by (simp add: occurs_at_def n_def low_def)
  define start where "start = max 0 (int k - w)"
  define end' where "end' = min (int n) (int k + int (length a) + w)"
  define lo where "lo = nat start"
  define hi where "hi = nat end'"
  have s0: "0 \<le> start" "start \<le> int k"
    using w by (auto simp: start_def)
  have e0: "int k \<le> end'" "end' \<le> int n"
    using w kn by (auto simp: end'_def)
  have lohi: "lo \<le> hi" "hi \<le> n"
    using s0 e0 by (auto simp: lo_def hi_def)
  have sb: "slice_bound n start = lo" "slice_bound n end' = hi"
    using s0 e0 lohi by (auto simp: slice_bound_def lo_def hi_def)
  have sl: "slice low start end' = take (hi - lo) (drop lo low)"
    by (simp add: slice_def Let_def sb n_def[symmetric])
  have "near lw t a b w = contains (lw b) (slice low start end')"
    using idx by (simp add: near_def Let_def low_def[symmetric] start_def end'_def n_def)
  also have "\<dots> = (\<exists>j. lo \<le> j \<and> j + length (lw b) \<le> hi \<and> occurs_at (lw b) low j)"
    using sublist_window[of lo hi low "lw b"] lohi
    by (simp add: contains_sublist sl n_def)
  also have "\<dots> = (\<exists>j. occurs_at (lw b) low j \<and> int k - w \<le> int j
         \<and> int j + int (length (lw b)) \<le> int k + int (length a) + w)"
  proof -
    have "(lo \<le> j \<and> j + length (lw b) \<le> hi) =
        (int k - w \<le> int j \<and> int j + int (length (lw b)) \<le> int k + int (length a) + w)"
      if o: "occurs_at (lw b) low j" for j
    proof -
      have jb: "j + length (lw b) \<le> n"
        using occurs_at_bound[OF o] by (simp add: n_def)
      show ?thesis
        using jb s0 e0 by (auto simp: lo_def hi_def start_def end'_def)
    qed
    then show ?thesis by blast
  qed
  finally show ?thesis by (simp add: low_def)
qed

text \<open>
  Claim C6, as the code has it. \<open>near\<close> compares lower-cased strings, whatever
  lower-casing \<open>lw\<close> does. It is false when the lower-cased anchor does not occur in the
  lower-cased text. When it occurs, with its first occurrence at index \<open>k\<close>, and the window
  is not negative, \<open>near\<close> is true exactly when an occurrence of the lower-cased term lies
  between index \<open>k - window\<close> and index \<open>k + len(a) + window\<close> of the lower-cased text,
  where \<open>len(a)\<close> is the length of the anchor as it was passed: that is \<open>window\<close>
  characters before the start and \<open>window\<close> characters after the end of the first
  occurrence whenever lower-casing keeps the length of the anchor. Later occurrences of the
  anchor play no part.
\<close>

theorem near_first_occurrence_window:
  "(\<not> contains (lw a) (lw t) \<longrightarrow> \<not> near lw t a b window) \<and>
   (0 \<le> window \<and> occurs_at (lw a) (lw t) k
      \<and> (\<forall>k'<k. \<not> occurs_at (lw a) (lw t) k') \<longrightarrow>
    near lw t a b window =
      (\<exists>j. occurs_at (lw b) (lw t) j \<and> int k - window \<le> int j
           \<and> int j + int (length (lw b)) \<le> int k + int (length a) + window))"
  using near_absent near_first by blast

text \<open>In this note the first \<open>xray\<close> is at index 0 and \<open>done\<close> stands one character
  after the second \<open>xray\<close> (index 36): with a window of 5 the test is false.\<close>

theorem near_first_occurrence_window_witness:
  "occurs_at (lower ''xray'') (lower ''Xray ordered. Patient declined. Old xray done.'') 0
   \<and> occurs_at (lower ''xray'') (lower ''Xray ordered. Patient declined. Old xray done.'') 36
   \<and> occurs_at (lower ''done'') (lower ''Xray ordered. Patient declined. Old xray done.'') 41
   \<and> \<not> near lower ''Xray ordered. Patient declined. Old xray done.'' ''xray'' ''done'' 5
   \<and> \<not> (\<exists>j. occurs_at (lower ''done'') (lower ''Xray ordered. Patient declined. Old xray done.'') j
           \<and> int 0 - 5 \<le> int j
           \<and> int j + int (length (lower ''done'')) \<le> int 0 + int (length ''xray'') + 5)
   \<and> \<not> contains (lower ''xray'') (lower ''Cough for three days.'')
   \<and> \<not> near lower ''Cough for three days.'' ''xray'' ''done'' 5"
proof -
  let ?T = "''Xray ordered. Patient declined. Old xray done.''"
  have o0: "occurs_at (lower ''xray'') (lower ?T) 0"
    by code_simp
  have o36: "occurs_at (lower ''xray'') (lower ?T) 36"
    by code_simp
  have o41: "occurs_at (lower ''done'') (lower ?T) 41"
    by code_simp
  have n: "\<not> near lower ?T ''xray'' ''done'' 5"
    by code_simp
  have h: "(0::int) \<le> 5 \<and> occurs_at (lower ''xray'') (lower ?T) 0
      \<and> (\<forall>k'<0::nat. \<not> occurs_at (lower ''xray'') (lower ?T) k')"
    using o0 by simp
  have e: "near lower ?T ''xray'' ''done'' 5 =
      (\<exists>j. occurs_at (lower ''done'') (lower ?T) j \<and> int 0 - 5 \<le> int j
           \<and> int j + int (length (lower ''done'')) \<le> int 0 + int (length ''xray'') + 5)"
    using near_first_occurrence_window[of lower "''xray''" ?T "''done''" 5 0] h by blast
  have c: "\<not> contains (lower ''xray'') (lower ''Cough for three days.'')"
    by code_simp
  have a: "\<not> near lower ''Cough for three days.'' ''xray'' ''done'' 5"
    using near_first_occurrence_window[of lower "''xray''" "''Cough for three days.''" "''done''" 5 0] c
    by blast
  show ?thesis
    using o0 o36 o41 n e c a by blast
qed

text \<open>
  The claim as it was stated, for every window, fails at a negative one. With the window
  \<open>-3\<close> the cut runs from index 3 to the bound \<open>-1\<close>, which Python counts from the end of
  the text: \<open>near\<close> is true, although no term can lie within \<open>-3\<close> characters of the
  anchor (the stretch from \<open>k + 3\<close> to \<open>k + 2 - 3\<close> is empty).
\<close>

theorem near_negative_window_counterexample:
  "near lower ''abxxxxxxxxxxxxxxxxxxxx'' ''ab'' ''x'' (- 3)
   \<and> occurs_at (lower ''ab'') (lower ''abxxxxxxxxxxxxxxxxxxxx'') 0
   \<and> \<not> (\<exists>j. occurs_at (lower ''x'') (lower ''abxxxxxxxxxxxxxxxxxxxx'') j
           \<and> int 0 - (- 3) \<le> int j
           \<and> int j + int (length (lower ''x'')) \<le> int 0 + int (length ''ab'') + (- 3))"
proof -
  have 1: "near lower ''abxxxxxxxxxxxxxxxxxxxx'' ''ab'' ''x'' (- 3)"
    by code_simp
  have 2: "occurs_at (lower ''ab'') (lower ''abxxxxxxxxxxxxxxxxxxxx'') 0"
    by code_simp
  have 3: "\<not> (int j + int (length (lower ''x'')) \<le> int 0 + int (length ''ab'') + (- 3))" for j
    by simp
  show ?thesis
    using 1 2 3 by blast
qed

text \<open>
  The bound after the anchor is counted with the length of the anchor as passed. Where
  lower-casing lengthens the anchor (Python lower-cases U+0130 to the two code points
  U+0069 U+0307), the cut ends before \<open>window\<close> characters after the end of the
  occurrence: for any lower-casing that maps the three strings below as Python does,
  \<open>near\<close> is false at window 1 although the term starts right at the end of the occurrence.
\<close>

lemma near_anchor_length_example:
  assumes "lw [120, 304, 121] = [120, 105, 775, 121]" and "lw [304] = [105, 775]"
    and "lw [121] = [121::nat]"
  shows "\<not> near lw [120, 304, 121] [304] [121] 1"
    and "occurs_at (lw [304]) (lw [120, 304, 121]) 1"
    and "\<not> occurs_at (lw [304]) (lw [120, 304, 121]) 0"
    and "occurs_at (lw [121]) (lw [120, 304, 121]) 3"
    and "int 3 + int (length (lw [121])) \<le> int 1 + int (length (lw [304])) + 1"
  by (simp_all add: assms near_def str_find_def slice_def slice_bound_def occurs_at_def Let_def)

section \<open>The detectors\<close>

lemma lower_anchors: "lower ''x-ray'' = ''x-ray''" "lower ''xray'' = ''xray''" "lower ''cxr'' = ''cxr''"
  by code_simp+

lemma lower_hints: "map lower PERFORMED_HINTS = PERFORMED_HINTS"
  by code_simp

lemma cpt_lookups:
  "dict_index CPT_MAP ''chest x-ray single view'' = Inr cpt_71045"
  "dict_index CPT_MAP ''chest x-ray two views'' = Inr cpt_71046"
  "dict_index CPT_MAP ''nebulizer treatment'' = Inr cpt_94640"
  "dict_index CPT_MAP ''therapeutic injection'' = Inr cpt_96372"
  by (simp_all add: CPT_MAP_def)

lemma hcpcs_lookups:
  "dict_index HCPCS_MAP ''albuterol neb'' = Inr hcpcs_J7613"
  "dict_index HCPCS_MAP ''ceftriaxone inj'' = Inr hcpcs_J0696"
  "dict_index HCPCS_MAP ''dexamethasone inj'' = Inr hcpcs_J1100"
  by (simp_all add: HCPCS_MAP_def)

lemma truthy_entries:
  "truthy cpt_71045" "truthy cpt_71046" "truthy cpt_94640" "truthy cpt_96372"
  "truthy hcpcs_J7613" "truthy hcpcs_J0696" "truthy hcpcs_J1100"
  by (simp_all add: cpt_71045_def cpt_71046_def cpt_94640_def cpt_96372_def
      hcpcs_J7613_def hcpcs_J0696_def hcpcs_J1100_def)

lemma code_fields:
  "field ''code'' cpt_71045 = JStr ''71045''" "field ''code'' cpt_71046 = JStr ''71046''"
  "field ''code'' cpt_94640 = JStr ''94640''" "field ''code'' cpt_96372 = JStr ''96372''"
  "field ''code'' hcpcs_J7613 = JStr ''J7613''" "field ''code'' hcpcs_J0696 = JStr ''J0696''"
  "field ''code'' hcpcs_J1100 = JStr ''J1100''"
  by (simp_all add: field_def cpt_71045_def cpt_71046_def cpt_94640_def cpt_96372_def
      hcpcs_J7613_def hcpcs_J0696_def hcpcs_J1100_def)

lemma imaging_entries:
  "is_imaging cpt_71045" "is_imaging cpt_71046" "\<not> is_imaging cpt_94640" "\<not> is_imaging cpt_96372"
  "\<not> is_imaging JNull"
  by (simp_all add: is_imaging_def code_fields) (simp add: field_def)

lemma first_occurrence_exists:
  assumes "contains sub s" shows "\<exists>k. first_occurrence sub s k"
proof -
  from assms obtain k where k: "occurs_at sub s k"
    by (auto simp: contains_iff_occurs)
  have 1: "occurs_at sub s (LEAST k. occurs_at sub s k)"
    using k by (rule LeastI)
  have 2: "\<not> occurs_at sub s k'" if "k' < (LEAST k. occurs_at sub s k)" for k'
    using that by (rule not_less_Least)
  show ?thesis
    unfolding first_occurrence_def using 1 2 by blast
qed

lemma first_occurrence_unique:
  assumes "first_occurrence sub s k" "first_occurrence sub s k'" shows "k' = k"
proof (rule ccontr)
  assume "k' \<noteq> k"
  then consider "k' < k" | "k < k'" by linarith
  then show False
  proof cases
    case 1
    then show False using assms by (simp add: first_occurrence_def)
  next
    case 2
    then show False using assms by (simp add: first_occurrence_def)
  qed
qed

lemma near_within_window:
  assumes "0 \<le> w"
  shows "near lower text a b w = within_window (lower text) (lower a) (lower b) w"
proof (cases "contains (lower a) (lower text)")
  case False
  then have "\<not> within_window (lower text) (lower a) (lower b) w"
    by (auto simp: within_window_def first_occurrence_def contains_iff_occurs)
  with False show ?thesis using near_absent by blast
next
  case True
  then obtain k where k: "first_occurrence (lower a) (lower text) k"
    using first_occurrence_exists by blast
  have u: "k' = k" if "first_occurrence (lower a) (lower text) k'" for k'
    using first_occurrence_unique[OF k that] .
  have "near lower text a b w = (\<exists>j. occurs_at (lower b) (lower text) j \<and> int k - w \<le> int j
         \<and> int j + int (length b) \<le> int k + int (length a) + w)"
    using near_first[OF assms, of lower a "text" k b] k by (simp add: first_occurrence_def)
  also have "\<dots> = within_window (lower text) (lower a) (lower b) w"
  proof
    assume "\<exists>j. occurs_at (lower b) (lower text) j \<and> int k - w \<le> int j
         \<and> int j + int (length b) \<le> int k + int (length a) + w"
    then show "within_window (lower text) (lower a) (lower b) w"
      unfolding within_window_def using k by auto
  next
    assume "within_window (lower text) (lower a) (lower b) w"
    then obtain k' j where "first_occurrence (lower a) (lower text) k'"
      "occurs_at (lower b) (lower text) j" "int k' - w \<le> int j"
      "int j + int (length (lower b)) \<le> int k' + int (length (lower a)) + w"
      unfolding within_window_def by blast
    then show "\<exists>j. occurs_at (lower b) (lower text) j \<and> int k - w \<le> int j
         \<and> int j + int (length b) \<le> int k + int (length a) + w"
      using u[of k'] by auto
  qed
  finally show ?thesis .
qed

lemma detect_nebulizer_and_drug_result:
  "detect_nebulizer_and_drug note =
     Inr (if (contains ''nebulizer'' (lower note) \<or> contains ''neb'' (lower note))
             \<and> list_ex (\<lambda>h. contains h (lower note)) PERFORMED_HINTS
          then (cpt_94640, if contains ''albuterol'' (lower note) then hcpcs_J7613 else JNull)
          else (JNull, JNull))"
  by (simp add: detect_nebulizer_and_drug_def Let_def cpt_lookups hcpcs_lookups)

lemma detect_injection_and_drug_result:
  "detect_injection_and_drug note =
     Inr (if (contains ''intramuscular'' (lower note) \<or> contains ''im injection'' (lower note)
              \<or> contains ''injection given'' (lower note) \<or> contains ''shot given'' (lower note))
             \<and> list_ex (\<lambda>h. contains h (lower note)) PERFORMED_HINTS
          then (cpt_96372,
                if contains ''ceftriaxone'' (lower note) then hcpcs_J0696
                else if contains ''dexamethasone'' (lower note) then hcpcs_J1100 else JNull)
          else (JNull, JNull))"
  by (simp add: detect_injection_and_drug_def Let_def cpt_lookups hcpcs_lookups)

lemma detect_performed_cxr_result:
  "detect_performed_cxr note =
     Inr (if list_ex (\<lambda>h. near lower (lower note) ''x-ray'' h 40 \<or> near lower (lower note) ''xray'' h 40
                        \<or> near lower (lower note) ''cxr'' h 40) PERFORMED_HINTS
          then (if contains ''two views'' (lower note) \<or> contains ''2 views'' (lower note)
                   \<or> contains ''pa and lateral'' (lower note)
                then cpt_71046 else cpt_71045)
          else JNull)"
proof -
  have "\<not> near lower (lower note) a h 40" if "\<not> contains a (lower note)" "lower a = a" for a h
    using near_absent[of lower a "lower note" h 40] that by simp
  then have "\<not> list_ex (\<lambda>h. near lower (lower note) ''x-ray'' h 40 \<or> near lower (lower note) ''xray'' h 40
                        \<or> near lower (lower note) ''cxr'' h 40) PERFORMED_HINTS"
    if "\<not> (contains ''x-ray'' (lower note) \<or> contains ''xray'' (lower note) \<or> contains ''cxr'' (lower note))"
    using that lower_anchors by (auto simp: list_ex_iff)
  then show ?thesis
    by (auto simp: detect_performed_cxr_def Let_def cpt_lookups)
qed

lemma dx_fields:
  "field ''code'' dx_J20_9 = JStr ''J20.9''" "rank_of dx_J20_9 = 1" "confidence_of dx_J20_9 = 0.72"
  "field ''code'' dx_R06_2 = JStr ''R06.2''" "rank_of dx_R06_2 = 2" "confidence_of dx_R06_2 = 0.62"
  "field ''code'' dx_R06_02 = JStr ''R06.02''" "rank_of dx_R06_02 = 3" "confidence_of dx_R06_02 = 0.60"
  "field ''code'' dx_R50_9 = JStr ''R50.9''" "rank_of dx_R50_9 = 4" "confidence_of dx_R50_9 = 0.58"
  "field ''code'' dx_R05_9 = JStr ''R05.9''" "rank_of dx_R05_9 = 5" "confidence_of dx_R05_9 = 0.56"
  by (simp_all add: field_def rank_of_def confidence_of_def
      dx_J20_9_def dx_R06_2_def dx_R06_02_def dx_R50_9_def dx_R05_9_def)

lemma dx_distinct: "distinct [dx_J20_9, dx_R06_2, dx_R06_02, dx_R50_9, dx_R05_9]"
proof -
  have "distinct (map rank_of [dx_J20_9, dx_R06_2, dx_R06_02, dx_R50_9, dx_R05_9])"
    by (simp add: dx_fields)
  then show ?thesis by (rule distinct_map[THEN iffD1, THEN conjunct1])
qed

lemma cpt_em_fields:
  "field ''code'' cpt_em_99213 = JStr ''99213''"
  "field ''assumed_patient_status'' cpt_em_99213 = JStr ''established''"
  "field ''confidence'' cpt_em_99213 = JFloat 0.58"
  by (simp_all add: field_def cpt_em_99213_def)

lemma tiny_rules_unfold:
  assumes "note_text env = Inr note"
    and "detect_performed_cxr note = Inr cxr"
    and "detect_nebulizer_and_drug note = Inr (neb_cpt, albut_hcpcs)"
    and "detect_injection_and_drug note = Inr (inj_cpt, drug_hcpcs)"
  shows "tiny_rules env = Inr (
      (if contains ''cough'' (lower note)
          \<and> (contains ''wheez'' (lower note) \<or> contains ''shortness of breath'' (lower note))
          \<and> (contains ''fever'' (lower note) \<or> contains ''azithromycin'' (lower note))
       then [dx_J20_9] else [])
      @ (if contains ''wheez'' (lower note) then [dx_R06_2] else [])
      @ (if contains ''shortness of breath'' (lower note) then [dx_R06_02] else [])
      @ (if contains ''fever'' (lower note) then [dx_R50_9] else [])
      @ (if contains ''cough'' (lower note) then [dx_R05_9] else []),
      cpt_em_99213,
      append_if cxr @ append_if neb_cpt @ append_if inj_cpt,
      append_if albut_hcpcs @ append_if drug_hcpcs)"
  by (simp add: tiny_rules_def assms Let_def present_def)

lemma detectors_return:
  "\<exists>cxr neb_cpt albut_hcpcs inj_cpt drug_hcpcs.
     detect_performed_cxr note = Inr cxr
     \<and> detect_nebulizer_and_drug note = Inr (neb_cpt, albut_hcpcs)
     \<and> detect_injection_and_drug note = Inr (inj_cpt, drug_hcpcs)"
  by (simp add: detect_performed_cxr_result detect_nebulizer_and_drug_result
      detect_injection_and_drug_result)

text \<open>
  Claim C4. Whenever the note text of the envelope can be read, \<open>tiny_rules\<close> returns, and
  its diagnosis list holds the principal entry J20.9 (rank 1, confidence 0.72) once if the
  lower-cased text contains "cough", and "wheez" or "shortness of breath", and "fever" or
  "azithromycin", and not at all otherwise. Each of the four symptom entries (R06.2 rank 2
  confidence 0.62, R06.02 rank 3 confidence 0.60, R50.9 rank 4 confidence 0.58, R05.9
  rank 5 confidence 0.56) is in the list once if its own stem is in the text and not at
  all otherwise, whatever the principal rule did. The list holds nothing else.
\<close>

theorem diagnosis_rules:
  assumes "note_text env = Inr note"
  shows "\<exists>icd10 cpt_em procedures hcpcs.
     tiny_rules env = Inr (icd10, cpt_em, procedures, hcpcs)
     \<and> count_list icd10 dx_J20_9 =
         (if contains ''cough'' (lower note)
             \<and> (contains ''wheez'' (lower note) \<or> contains ''shortness of breath'' (lower note))
             \<and> (contains ''fever'' (lower note) \<or> contains ''azithromycin'' (lower note))
          then 1 else 0)
     \<and> count_list icd10 dx_R06_2 = (if contains ''wheez'' (lower note) then 1 else 0)
     \<and> count_list icd10 dx_R06_02 = (if contains ''shortness of breath'' (lower note) then 1 else 0)
     \<and> count_list icd10 dx_R50_9 = (if contains ''fever'' (lower note) then 1 else 0)
     \<and> count_list icd10 dx_R05_9 = (if contains ''cough'' (lower note) then 1 else 0)
     \<and> set icd10 \<subseteq> {dx_J20_9, dx_R06_2, dx_R06_02, dx_R50_9, dx_R05_9}
     \<and> field ''code'' dx_J20_9 = JStr ''J20.9'' \<and> rank_of dx_J20_9 = 1 \<and> confidence_of dx_J20_9 = 0.72
     \<and> field ''code'' dx_R06_2 = JStr ''R06.2'' \<and> rank_of dx_R06_2 = 2 \<and> confidence_of dx_R06_2 = 0.62
     \<and> field ''code'' dx_R06_02 = JStr ''R06.02'' \<and> rank_of dx_R06_02 = 3 \<and> confidence_of dx_R06_02 = 0.60
     \<and> field ''code'' dx_R50_9 = JStr ''R50.9'' \<and> rank_of dx_R50_9 = 4 \<and> confidence_of dx_R50_9 = 0.58
     \<and> field ''code'' dx_R05_9 = JStr ''R05.9'' \<and> rank_of dx_R05_9 = 5 \<and> confidence_of dx_R05_9 = 0.56"
proof -
  obtain cxr neb_cpt albut_hcpcs inj_cpt drug_hcpcs where
    d: "detect_performed_cxr note = Inr cxr"
       "detect_nebulizer_and_drug note = Inr (neb_cpt, albut_hcpcs)"
       "detect_injection_and_drug note = Inr (inj_cpt, drug_hcpcs)"
    using detectors_return by blast
  note t = tiny_rules_unfold[OF assms d]
  have ne: "dx_J20_9 \<noteq> dx_R06_2" "dx_J20_9 \<noteq> dx_R06_02" "dx_J20_9 \<noteq> dx_R50_9" "dx_J20_9 \<noteq> dx_R05_9"
    "dx_R06_2 \<noteq> dx_R06_02" "dx_R06_2 \<noteq> dx_R50_9" "dx_R06_2 \<noteq> dx_R05_9"
    "dx_R06_02 \<noteq> dx_R50_9" "dx_R06_02 \<noteq> dx_R05_9" "dx_R50_9 \<noteq> dx_R05_9"
    using dx_distinct by simp_all
  show ?thesis
    unfolding t using ne by (simp add: dx_fields) 
qed

lemma note_text_note_envelope: "note_text (note_envelope t) = Inr t"
  by (simp add: note_text_def note_envelope_def py_or_def)

text \<open>
  Claim C8. Whenever the note text of the envelope can be read, \<open>tiny_rules\<close> returns with
  the visit code 99213, assumed patient status "established" and confidence 0.58, also
  when no diagnosis rule matches; then the diagnosis list is empty.
\<close>

theorem visit_code_unconditional:
  assumes "note_text env = Inr note"
  shows "\<exists>icd10 procedures hcpcs.
     tiny_rules env = Inr (icd10, cpt_em_99213, procedures, hcpcs)
     \<and> field ''code'' cpt_em_99213 = JStr ''99213''
     \<and> field ''assumed_patient_status'' cpt_em_99213 = JStr ''established''
     \<and> field ''confidence'' cpt_em_99213 = JFloat 0.58
     \<and> (\<not> contains ''cough'' (lower note) \<and> \<not> contains ''wheez'' (lower note)
          \<and> \<not> contains ''shortness of breath'' (lower note) \<and> \<not> contains ''fever'' (lower note)
        \<longrightarrow> icd10 = [])"
proof -
  obtain cxr neb_cpt albut_hcpcs inj_cpt drug_hcpcs where
    d: "detect_performed_cxr note = Inr cxr"
       "detect_nebulizer_and_drug note = Inr (neb_cpt, albut_hcpcs)"
       "detect_injection_and_drug note = Inr (inj_cpt, drug_hcpcs)"
    using detectors_return by blast
  show ?thesis
    unfolding tiny_rules_unfold[OF assms d] by (simp add: cpt_em_fields)
qed

lemma subseq_opt: "subseq xs ys \<Longrightarrow> subseq ((if a then [x] else []) @ xs) (x # ys)"
  by (cases a) (simp_all add: subseq_Cons2 list_emb_Cons)

lemma subseq_opt_last: "subseq (if a then [x] else []) [x]"
  by simp

lemma sorted_wrt_opt:
  "sorted_wrt P xs \<Longrightarrow> (\<forall>y\<in>set xs. P x y) \<Longrightarrow> sorted_wrt P ((if a then [x] else []) @ xs)"
  by simp

text \<open>
  Claim C10. The diagnosis list returned by \<open>tiny_rules\<close> has strictly increasing ranks
  and strictly decreasing confidences, it is a subsequence of the fixed rule order J20.9,
  R06.2, R06.02, R50.9, R05.9 with no entry twice, and when J20.9 is in it the list starts
  with J20.9 and ends with R05.9.
\<close>

theorem diagnoses_ordered:
  assumes "note_text env = Inr note"
  shows "\<exists>icd10 cpt_em procedures hcpcs.
     tiny_rules env = Inr (icd10, cpt_em, procedures, hcpcs)
     \<and> sorted_wrt (<) (map rank_of icd10)
     \<and> sorted_wrt (>) (map confidence_of icd10)
     \<and> subseq icd10 [dx_J20_9, dx_R06_2, dx_R06_02, dx_R50_9, dx_R05_9]
     \<and> distinct icd10
     \<and> (dx_J20_9 \<in> set icd10 \<longrightarrow> (\<exists>mid. icd10 = dx_J20_9 # mid @ [dx_R05_9]))"
proof -
  obtain cxr neb_cpt albut_hcpcs inj_cpt drug_hcpcs where
    d: "detect_performed_cxr note = Inr cxr"
       "detect_nebulizer_and_drug note = Inr (neb_cpt, albut_hcpcs)"
       "detect_injection_and_drug note = Inr (inj_cpt, drug_hcpcs)"
    using detectors_return by blast
  define A where "A = (contains ''cough'' (lower note)
          \<and> (contains ''wheez'' (lower note) \<or> contains ''shortness of breath'' (lower note))
          \<and> (contains ''fever'' (lower note) \<or> contains ''azithromycin'' (lower note)))"
  define W where "W = contains ''wheez'' (lower note)"
  define S where "S = contains ''shortness of breath'' (lower note)"
  define F where "F = contains ''fever'' (lower note)"
  define C where "C = contains ''cough'' (lower note)"
  define icd10 where "icd10 = (if A then [dx_J20_9] else []) @ (if W then [dx_R06_2] else [])
      @ (if S then [dx_R06_02] else []) @ (if F then [dx_R50_9] else [])
      @ (if C then [dx_R05_9] else [])"
  have t: "tiny_rules env = Inr (icd10, cpt_em_99213,
      append_if cxr @ append_if neb_cpt @ append_if inj_cpt,
      append_if albut_hcpcs @ append_if drug_hcpcs)"
    unfolding icd10_def A_def W_def S_def F_def C_def by (rule tiny_rules_unfold[OF assms d])
  have AC: "A \<Longrightarrow> C" by (simp add: A_def C_def)
  have sub: "subseq icd10 [dx_J20_9, dx_R06_2, dx_R06_02, dx_R50_9, dx_R05_9]"
    unfolding icd10_def by (intro subseq_opt subseq_opt_last)
  have r: "sorted_wrt (<) (map rank_of icd10)"
    unfolding icd10_def by (simp add: dx_fields sorted_wrt_append)
  have "distinct (map rank_of icd10)"
    using r strict_sorted_iff by blast
  then have dist: "distinct icd10"
    by (simp add: distinct_map)
  have c: "sorted_wrt (>) (map confidence_of icd10)"
    unfolding icd10_def by (simp add: dx_fields sorted_wrt_append)
  have l: "\<exists>mid. icd10 = dx_J20_9 # mid @ [dx_R05_9]" if "dx_J20_9 \<in> set icd10"
  proof -
    have "A" 
    proof (rule ccontr)
      assume "\<not> A"
      then have "set icd10 \<subseteq> {dx_R06_2, dx_R06_02, dx_R50_9, dx_R05_9}"
        by (auto simp: icd10_def split: if_splits)
      with that dx_distinct show False by auto
    qed
    then have "icd10 = dx_J20_9 # ((if W then [dx_R06_2] else [])
      @ (if S then [dx_R06_02] else []) @ (if F then [dx_R50_9] else [])) @ [dx_R05_9]"
      using AC by (simp add: icd10_def)
    then show ?thesis by blast
  qed
  show ?thesis using t sub dist r c l by blast
qed

lemma append_if_simps:
  "append_if JNull = []" "append_if cpt_71045 = [cpt_71045]" "append_if cpt_71046 = [cpt_71046]"
  "append_if cpt_94640 = [cpt_94640]" "append_if cpt_96372 = [cpt_96372]"
  "append_if hcpcs_J7613 = [hcpcs_J7613]" "append_if hcpcs_J0696 = [hcpcs_J0696]"
  "append_if hcpcs_J1100 = [hcpcs_J1100]"
  by (simp_all add: append_if_def truthy_entries)

lemma injection_drug_entries:
  "is_injection_drug hcpcs_J0696" "is_injection_drug hcpcs_J1100" "\<not> is_injection_drug hcpcs_J7613"
  "\<not> is_injection_drug JNull"
  by (simp_all add: is_injection_drug_def code_fields) (simp add: field_def)

lemma cpt_96372_neq:
  "cpt_71045 \<noteq> cpt_96372" "cpt_71046 \<noteq> cpt_96372" "cpt_94640 \<noteq> cpt_96372"
  by (simp_all add: cpt_71045_def cpt_71046_def cpt_94640_def cpt_96372_def)

text \<open>
  Claim C7. When an injection anchor ("intramuscular", "im injection", "injection given",
  "shot given") and some performed-hint occur in the lower-cased note, the procedures
  returned by \<open>tiny_rules\<close> hold the code 96372 once, and the supplies hold at most one
  injection drug: J0696 when "ceftriaxone" is in the text (also when "dexamethasone" is),
  else J1100 when "dexamethasone" is, else none.
\<close>

theorem injection_rule:
  assumes "note_text env = Inr note"
    and "contains ''intramuscular'' (lower note) \<or> contains ''im injection'' (lower note)
         \<or> contains ''injection given'' (lower note) \<or> contains ''shot given'' (lower note)"
    and "\<exists>h\<in>set PERFORMED_HINTS. contains h (lower note)"
  shows "\<exists>icd10 cpt_em procedures hcpcs.
     tiny_rules env = Inr (icd10, cpt_em, procedures, hcpcs)
     \<and> count_list procedures cpt_96372 = 1
     \<and> field ''code'' cpt_96372 = JStr ''96372''
     \<and> filter is_injection_drug hcpcs =
         (if contains ''ceftriaxone'' (lower note) then [hcpcs_J0696]
          else if contains ''dexamethasone'' (lower note) then [hcpcs_J1100] else [])
     \<and> field ''code'' hcpcs_J0696 = JStr ''J0696''
     \<and> field ''code'' hcpcs_J1100 = JStr ''J1100''"
proof -
  have h: "list_ex (\<lambda>h. contains h (lower note)) PERFORMED_HINTS"
    using assms(3) by (simp add: list_ex_iff)
  note d = detect_performed_cxr_result[of "note"] detect_nebulizer_and_drug_result[of "note"]
    detect_injection_and_drug_result[of "note"]
  obtain cxr neb_cpt albut_hcpcs inj_cpt drug_hcpcs where
    r: "detect_performed_cxr note = Inr cxr"
       "detect_nebulizer_and_drug note = Inr (neb_cpt, albut_hcpcs)"
       "detect_injection_and_drug note = Inr (inj_cpt, drug_hcpcs)"
    using detectors_return by blast
  have cxr: "cxr = JNull \<or> cxr = cpt_71045 \<or> cxr = cpt_71046"
    using r(1) d(1) by (auto split: if_splits)
  have neb: "(neb_cpt, albut_hcpcs) = (JNull, JNull) \<or> (neb_cpt, albut_hcpcs) = (cpt_94640, JNull)
      \<or> (neb_cpt, albut_hcpcs) = (cpt_94640, hcpcs_J7613)"
    using r(2) d(2) by (auto split: if_splits)
  have inj: "inj_cpt = cpt_96372"
    "drug_hcpcs = (if contains ''ceftriaxone'' (lower note) then hcpcs_J0696
          else if contains ''dexamethasone'' (lower note) then hcpcs_J1100 else JNull)"
    using r(3) d(3) assms(2) h by (auto split: if_splits)
  have p: "count_list (append_if cxr @ append_if neb_cpt @ append_if inj_cpt) cpt_96372 = 1"
    using cxr neb inj(1) by (auto simp: append_if_simps cpt_96372_neq)
  have s: "filter is_injection_drug (append_if albut_hcpcs @ append_if drug_hcpcs) =
         (if contains ''ceftriaxone'' (lower note) then [hcpcs_J0696]
          else if contains ''dexamethasone'' (lower note) then [hcpcs_J1100] else [])"
    using neb inj(2) by (auto simp: append_if_simps injection_drug_entries)
  show ?thesis
    using tiny_rules_unfold[OF assms(1) r] p s code_fields by blast
qed

theorem diagnosis_rules_witness:
  "note_text (note_envelope ''Cough with wheezing and fever for three days.'')
     = Inr ''Cough with wheezing and fever for three days.''
   \<and> tiny_rules (note_envelope ''Cough with wheezing and fever for three days.'')
     = Inr ([dx_J20_9, dx_R06_2, dx_R50_9, dx_R05_9], cpt_em_99213, [], [])
   \<and> count_list [dx_J20_9, dx_R06_2, dx_R50_9, dx_R05_9] dx_J20_9 = 1
   \<and> count_list [dx_J20_9, dx_R06_2, dx_R50_9, dx_R05_9] dx_R06_2 = 1
   \<and> count_list [dx_J20_9, dx_R06_2, dx_R50_9, dx_R05_9] dx_R06_02 = 0
   \<and> count_list [dx_J20_9, dx_R06_2, dx_R50_9, dx_R05_9] dx_R50_9 = 1
   \<and> count_list [dx_J20_9, dx_R06_2, dx_R50_9, dx_R05_9] dx_R05_9 = 1"
proof -
  let ?T = "''Cough with wheezing and fever for three days.''"
  have h: "note_text (note_envelope ?T) = Inr ?T"
    by (rule note_text_note_envelope)
  have e: "tiny_rules (note_envelope ?T)
     = Inr ([dx_J20_9, dx_R06_2, dx_R50_9, dx_R05_9], cpt_em_99213, [], [])"
    by code_simp
  have c: "contains ''cough'' (lower ?T)" "contains ''wheez'' (lower ?T)"
    "\<not> contains ''shortness of breath'' (lower ?T)" "contains ''fever'' (lower ?T)"
    by code_simp+
  from diagnosis_rules[OF h] obtain icd10 cpt_em procedures hcpcs where
    t: "tiny_rules (note_envelope ?T) = Inr (icd10, cpt_em, procedures, hcpcs)"
    and n: "count_list icd10 dx_J20_9 = 1" "count_list icd10 dx_R06_2 = 1"
      "count_list icd10 dx_R06_02 = 0" "count_list icd10 dx_R50_9 = 1"
      "count_list icd10 dx_R05_9 = 1"
    using c by auto
  from t e have "icd10 = [dx_J20_9, dx_R06_2, dx_R50_9, dx_R05_9]"
    by simp
  with n h e show ?thesis
    by simp
qed

theorem visit_code_unconditional_witness:
  "note_text (note_envelope ''Routine follow-up visit, no complaints.'')
     = Inr ''Routine follow-up visit, no complaints.''
   \<and> tiny_rules (note_envelope ''Routine follow-up visit, no complaints.'')
     = Inr ([], cpt_em_99213, [], [])
   \<and> tiny_rules (JObj []) = Inr ([], cpt_em_99213, [], [])
   \<and> field ''code'' cpt_em_99213 = JStr ''99213''
   \<and> field ''assumed_patient_status'' cpt_em_99213 = JStr ''established''
   \<and> field ''confidence'' cpt_em_99213 = JFloat 0.58"
proof -
  let ?T = "''Routine follow-up visit, no complaints.''"
  have h: "note_text (note_envelope ?T) = Inr ?T"
    by (rule note_text_note_envelope)
  have c: "\<not> contains ''cough'' (lower ?T)" "\<not> contains ''wheez'' (lower ?T)"
    "\<not> contains ''shortness of breath'' (lower ?T)" "\<not> contains ''fever'' (lower ?T)"
    by code_simp+
  have e: "tiny_rules (note_envelope ?T) = Inr ([], cpt_em_99213, [], [])"
    by code_simp
  have e0: "tiny_rules (JObj []) = Inr ([], cpt_em_99213, [], [])"
    by code_simp
  from visit_code_unconditional[OF h] c
  have "field ''code'' cpt_em_99213 = JStr ''99213''
     \<and> field ''assumed_patient_status'' cpt_em_99213 = JStr ''established''
     \<and> field ''confidence'' cpt_em_99213 = JFloat 0.58"
    by blast
  with h e e0 show ?thesis
    by simp
qed

theorem diagnoses_ordered_witness:
  "note_text (note_envelope ''Cough, fever and shortness of breath; started azithromycin.'')
     = Inr ''Cough, fever and shortness of breath; started azithromycin.''
   \<and> tiny_rules (note_envelope ''Cough, fever and shortness of breath; started azithromycin.'')
     = Inr ([dx_J20_9, dx_R06_02, dx_R50_9, dx_R05_9], cpt_em_99213, [], [])
   \<and> sorted_wrt (<) (map rank_of [dx_J20_9, dx_R06_02, dx_R50_9, dx_R05_9])
   \<and> sorted_wrt (>) (map confidence_of [dx_J20_9, dx_R06_02, dx_R50_9, dx_R05_9])
   \<and> subseq [dx_J20_9, dx_R06_02, dx_R50_9, dx_R05_9]
        [dx_J20_9, dx_R06_2, dx_R06_02, dx_R50_9, dx_R05_9]
   \<and> distinct [dx_J20_9, dx_R06_02, dx_R50_9, dx_R05_9]
   \<and> (\<exists>mid. [dx_J20_9, dx_R06_02, dx_R50_9, dx_R05_9] = dx_J20_9 # mid @ [dx_R05_9])"
proof -
  let ?T = "''Cough, fever and shortness of breath; started azithromycin.''"
  have h: "note_text (note_envelope ?T) = Inr ?T"
    by (rule note_text_note_envelope)
  have e: "tiny_rules (note_envelope ?T)
     = Inr ([dx_J20_9, dx_R06_02, dx_R50_9, dx_R05_9], cpt_em_99213, [], [])"
    by code_simp
  from diagnoses_ordered[OF h] obtain icd10 cpt_em procedures hcpcs where
    t: "tiny_rules (note_envelope ?T) = Inr (icd10, cpt_em, procedures, hcpcs)"
    and p: "sorted_wrt (<) (map rank_of icd10)" "sorted_wrt (>) (map confidence_of icd10)"
      "subseq icd10 [dx_J20_9, dx_R06_2, dx_R06_02, dx_R50_9, dx_R05_9]" "distinct icd10"
    and l: "dx_J20_9 \<in> set icd10 \<longrightarrow> (\<exists>mid. icd10 = dx_J20_9 # mid @ [dx_R05_9])"
    by blast
  from t e have i: "icd10 = [dx_J20_9, dx_R06_02, dx_R50_9, dx_R05_9]"
    by simp
  have m: "\<exists>mid. [dx_J20_9, dx_R06_02, dx_R50_9, dx_R05_9] = dx_J20_9 # mid @ [dx_R05_9]"
    using l unfolding i by simp
  show ?thesis
    using h e p m unfolding i by blast
qed

theorem injection_rule_witness:
  "note_text (note_envelope ''IM injection given: ceftriaxone, then dexamethasone.'')
     = Inr ''IM injection given: ceftriaxone, then dexamethasone.''
   \<and> contains ''im injection'' (lower ''IM injection given: ceftriaxone, then dexamethasone.'')
   \<and> contains ''given'' (lower ''IM injection given: ceftriaxone, then dexamethasone.'')
   \<and> contains ''ceftriaxone'' (lower ''IM injection given: ceftriaxone, then dexamethasone.'')
   \<and> contains ''dexamethasone'' (lower ''IM injection given: ceftriaxone, then dexamethasone.'')
   \<and> tiny_rules (note_envelope ''IM injection given: ceftriaxone, then dexamethasone.'')
     = Inr ([], cpt_em_99213, [cpt_96372], [hcpcs_J0696])
   \<and> count_list [cpt_96372] cpt_96372 = 1
   \<and> filter is_injection_drug [hcpcs_J0696] = [hcpcs_J0696]"
proof -
  let ?T = "''IM injection given: ceftriaxone, then dexamethasone.''"
  have h: "note_text (note_envelope ?T) = Inr ?T"
    by (rule note_text_note_envelope)
  have c: "contains ''im injection'' (lower ?T)" "contains ''given'' (lower ?T)"
    "contains ''ceftriaxone'' (lower ?T)" "contains ''dexamethasone'' (lower ?T)"
    by code_simp+
  have g: "''given'' \<in> set PERFORMED_HINTS"
    by (simp add: PERFORMED_HINTS_def)
  have a: "contains ''intramuscular'' (lower ?T) \<or> contains ''im injection'' (lower ?T)
         \<or> contains ''injection given'' (lower ?T) \<or> contains ''shot given'' (lower ?T)"
    using c(1) by simp
  have b: "\<exists>h\<in>set PERFORMED_HINTS. contains h (lower ?T)"
    using g c(2) by blast
  have e: "tiny_rules (note_envelope ?T) = Inr ([], cpt_em_99213, [cpt_96372], [hcpcs_J0696])"
    by code_simp
  from injection_rule[OF h a b] obtain icd10 cpt_em procedures hcpcs where
    t: "tiny_rules (note_envelope ?T) = Inr (icd10, cpt_em, procedures, hcpcs)"
    and p: "count_list procedures cpt_96372 = 1"
    and s: "filter is_injection_drug hcpcs = [hcpcs_J0696]"
    using c(3) by auto
  from t e have "procedures = [cpt_96372]" "hcpcs = [hcpcs_J0696]"
    by simp_all
  with p s h c e show ?thesis
    by simp
qed

lemma lower_hint: "h \<in> set PERFORMED_HINTS \<Longrightarrow> lower h = h"
proof -
  assume h: "h \<in> set PERFORMED_HINTS"
  have "\<forall>x\<in>set PERFORMED_HINTS. lower x = x"
    using lower_hints by (simp only: map_idI[symmetric] list.map_ident map_eq_conv[symmetric]) 
  then show ?thesis using h by blast
qed

lemma near_hint_window:
  assumes "lower a = a" "h \<in> set PERFORMED_HINTS"
  shows "near lower (lower note) a h 40 = within_window (lower note) a h 40"
  using near_within_window[of 40 "lower note" a h] assms lower_hint by simp

text \<open>
  Claim C5. The procedures returned by \<open>tiny_rules\<close> hold at most one imaging code (71045
  or 71046). They hold one exactly when, for one of the anchors "x-ray", "xray", "cxr" and
  one of the performed-hints, the hint lies within 40 characters of the first occurrence of
  that anchor in the lower-cased note. The code is then 71046 if the text contains "two
  views", "2 views" or "pa and lateral", and 71045 otherwise. The note "Chest X-ray
  performed, two views, clear." yields exactly the 71046 entry.
\<close>

theorem imaging_rule:
  assumes "note_text env = Inr note"
  shows "\<exists>icd10 cpt_em procedures hcpcs.
     tiny_rules env = Inr (icd10, cpt_em, procedures, hcpcs)
     \<and> length (filter is_imaging procedures) \<le> 1
     \<and> ((\<exists>p\<in>set procedures. is_imaging p) \<longleftrightarrow>
          (\<exists>a\<in>set [''x-ray'', ''xray'', ''cxr'']. \<exists>h\<in>set PERFORMED_HINTS.
             within_window (lower note) a h 40))
     \<and> ((\<exists>p\<in>set procedures. is_imaging p) \<longrightarrow>
          filter is_imaging procedures =
            [if contains ''two views'' (lower note) \<or> contains ''2 views'' (lower note)
                \<or> contains ''pa and lateral'' (lower note)
             then cpt_71046 else cpt_71045])
     \<and> field ''code'' cpt_71046 = JStr ''71046'' \<and> field ''code'' cpt_71045 = JStr ''71045''
     \<and> tiny_rules (note_envelope ''Chest X-ray performed, two views, clear.'')
         = Inr ([], cpt_em_99213, [cpt_71046], [])"
proof -
  define fires where "fires = list_ex (\<lambda>h. near lower (lower note) ''x-ray'' h 40
      \<or> near lower (lower note) ''xray'' h 40 \<or> near lower (lower note) ''cxr'' h 40) PERFORMED_HINTS"
  define code where "code = (if contains ''two views'' (lower note) \<or> contains ''2 views'' (lower note)
                \<or> contains ''pa and lateral'' (lower note) then cpt_71046 else cpt_71045)"
  obtain cxr neb_cpt albut_hcpcs inj_cpt drug_hcpcs where
    r: "detect_performed_cxr note = Inr cxr"
       "detect_nebulizer_and_drug note = Inr (neb_cpt, albut_hcpcs)"
       "detect_injection_and_drug note = Inr (inj_cpt, drug_hcpcs)"
    using detectors_return by blast
  define procedures where "procedures = append_if cxr @ append_if neb_cpt @ append_if inj_cpt"
  have "detect_performed_cxr note = Inr (if fires then code else JNull)"
    unfolding fires_def code_def by (rule detect_performed_cxr_result)
  with r(1) have cxr: "cxr = (if fires then code else JNull)"
    by simp
  have neb: "neb_cpt = JNull \<or> neb_cpt = cpt_94640"
    using r(2) detect_nebulizer_and_drug_result[of "note"] by (auto split: if_splits)
  have inj: "inj_cpt = JNull \<or> inj_cpt = cpt_96372"
    using r(3) detect_injection_and_drug_result[of "note"] by (auto split: if_splits)
  have ic: "is_imaging code" "append_if code = [code]"
    by (simp_all add: code_def imaging_entries append_if_simps)
  have fn: "filter is_imaging (append_if neb_cpt) = []" "filter is_imaging (append_if inj_cpt) = []"
    using neb inj by (auto simp: append_if_simps imaging_entries)
  have f: "filter is_imaging procedures = (if fires then [code] else [])"
    by (simp add: procedures_def fn cxr ic append_if_simps)
  have w: "fires \<longleftrightarrow> (\<exists>a\<in>set [''x-ray'', ''xray'', ''cxr'']. \<exists>h\<in>set PERFORMED_HINTS.
             within_window (lower note) a h 40)"
  proof
    assume fires
    then obtain h where h: "h \<in> set PERFORMED_HINTS"
      and n: "near lower (lower note) ''x-ray'' h 40 \<or> near lower (lower note) ''xray'' h 40
        \<or> near lower (lower note) ''cxr'' h 40"
      unfolding fires_def list_ex_iff by blast
    from n consider "near lower (lower note) ''x-ray'' h 40" | "near lower (lower note) ''xray'' h 40"
      | "near lower (lower note) ''cxr'' h 40" by blast
    then show "\<exists>a\<in>set [''x-ray'', ''xray'', ''cxr'']. \<exists>h\<in>set PERFORMED_HINTS.
             within_window (lower note) a h 40"
    proof cases
      case 1
      then have "within_window (lower note) ''x-ray'' h 40"
        using near_hint_window[OF lower_anchors(1) h] by simp
      then show ?thesis using h by (intro bexI[of _ "''x-ray''"] bexI[of _ h]) simp_all
    next
      case 2
      then have "within_window (lower note) ''xray'' h 40"
        using near_hint_window[OF lower_anchors(2) h] by simp
      then show ?thesis using h by (intro bexI[of _ "''xray''"] bexI[of _ h]) simp_all
    next
      case 3
      then have "within_window (lower note) ''cxr'' h 40"
        using near_hint_window[OF lower_anchors(3) h] by simp
      then show ?thesis using h by (intro bexI[of _ "''cxr''"] bexI[of _ h]) simp_all
    qed
  next
    assume "\<exists>a\<in>set [''x-ray'', ''xray'', ''cxr'']. \<exists>h\<in>set PERFORMED_HINTS.
             within_window (lower note) a h 40"
    then obtain a h where a: "a = ''x-ray'' \<or> a = ''xray'' \<or> a = ''cxr''"
      and h: "h \<in> set PERFORMED_HINTS" and ww: "within_window (lower note) a h 40"
      by auto
    have la: "lower a = a"
      using a lower_anchors by blast
    have "near lower (lower note) a h 40"
      using near_hint_window[OF la h] ww by simp
    then have "near lower (lower note) ''x-ray'' h 40 \<or> near lower (lower note) ''xray'' h 40
        \<or> near lower (lower note) ''cxr'' h 40"
      using a by blast
    then show fires
      unfolding fires_def list_ex_iff using h by blast
  qed
  have ex: "(\<exists>p\<in>set procedures. is_imaging p) = fires"
  proof -
    have "(\<exists>p\<in>set procedures. is_imaging p) = (filter is_imaging procedures \<noteq> [])"
      by (simp only: filter_empty_conv) blast
    then show ?thesis by (simp add: f)
  qed
  define icd10 where "icd10 = (if contains ''cough'' (lower note)
          \<and> (contains ''wheez'' (lower note) \<or> contains ''shortness of breath'' (lower note))
          \<and> (contains ''fever'' (lower note) \<or> contains ''azithromycin'' (lower note))
       then [dx_J20_9] else [])
      @ (if contains ''wheez'' (lower note) then [dx_R06_2] else [])
      @ (if contains ''shortness of breath'' (lower note) then [dx_R06_02] else [])
      @ (if contains ''fever'' (lower note) then [dx_R50_9] else [])
      @ (if contains ''cough'' (lower note) then [dx_R05_9] else [])"
  define hcpcs where "hcpcs = append_if albut_hcpcs @ append_if drug_hcpcs"
  have t: "tiny_rules env = Inr (icd10, cpt_em_99213, procedures, hcpcs)"
    unfolding procedures_def icd10_def hcpcs_def by (rule tiny_rules_unfold[OF assms r])
  have l: "length (filter is_imaging procedures) \<le> 1"
    by (simp add: f)
  have i: "(\<exists>p\<in>set procedures. is_imaging p) \<longrightarrow> filter is_imaging procedures = [code]"
    by (simp add: ex f)
  have c: "tiny_rules (note_envelope ''Chest X-ray performed, two views, clear.'')
         = Inr ([], cpt_em_99213, [cpt_71046], [])"
    by code_simp
  have all: "tiny_rules env = Inr (icd10, cpt_em_99213, procedures, hcpcs)
     \<and> length (filter is_imaging procedures) \<le> 1
     \<and> ((\<exists>p\<in>set procedures. is_imaging p) \<longleftrightarrow> fires)
     \<and> ((\<exists>p\<in>set procedures. is_imaging p) \<longrightarrow> filter is_imaging procedures = [code])
     \<and> field ''code'' cpt_71046 = JStr ''71046'' \<and> field ''code'' cpt_71045 = JStr ''71045''
     \<and> tiny_rules (note_envelope ''Chest X-ray performed, two views, clear.'')
         = Inr ([], cpt_em_99213, [cpt_71046], [])"
    using t l ex i c code_fields(1,2) by simp
  show ?thesis
    unfolding code_def[symmetric] w[symmetric] by (intro exI) (rule all)
qed

theorem imaging_rule_witness:
  "note_text (note_envelope ''Chest X-ray performed, two views, clear.'')
     = Inr ''Chest X-ray performed, two views, clear.''
   \<and> tiny_rules (note_envelope ''Chest X-ray performed, two views, clear.'')
     = Inr ([], cpt_em_99213, [cpt_71046], [])
   \<and> length (filter is_imaging [cpt_71046]) \<le> 1
   \<and> (\<exists>p\<in>set [cpt_71046]. is_imaging p)
   \<and> (\<exists>a\<in>set [''x-ray'', ''xray'', ''cxr'']. \<exists>h\<in>set PERFORMED_HINTS.
         within_window (lower ''Chest X-ray performed, two views, clear.'') a h 40)
   \<and> contains ''two views'' (lower ''Chest X-ray performed, two views, clear.'')
   \<and> filter is_imaging [cpt_71046] = [cpt_71046]
   \<and> tiny_rules (note_envelope ''Recommend chest X-ray and prescribe azithromycin.'')
     = Inr ([], cpt_em_99213, [], [])"
proof -
  let ?T = "''Chest X-ray performed, two views, clear.''"
  have h: "note_text (note_envelope ?T) = Inr ?T"
    by (rule note_text_note_envelope)
  have c: "contains ''two views'' (lower ?T)"
    by code_simp
  have r: "tiny_rules (note_envelope ''Recommend chest X-ray and prescribe azithromycin.'')
     = Inr ([], cpt_em_99213, [], [])"
    by code_simp
  from imaging_rule[OF h] obtain icd10 cpt_em procedures hcpcs where
    t: "tiny_rules (note_envelope ?T) = Inr (icd10, cpt_em, procedures, hcpcs)"
    and l: "length (filter is_imaging procedures) \<le> 1"
    and w: "(\<exists>p\<in>set procedures. is_imaging p) \<longleftrightarrow>
          (\<exists>a\<in>set [''x-ray'', ''xray'', ''cxr'']. \<exists>h\<in>set PERFORMED_HINTS.
             within_window (lower ?T) a h 40)"
    and f: "(\<exists>p\<in>set procedures. is_imaging p) \<longrightarrow>
          filter is_imaging procedures =
            [if contains ''two views'' (lower ?T) \<or> contains ''2 views'' (lower ?T)
                \<or> contains ''pa and lateral'' (lower ?T)
             then cpt_71046 else cpt_71045]"
    and e: "tiny_rules (note_envelope ?T) = Inr ([], cpt_em_99213, [cpt_71046], [])"
    by blast
  from t e have p: "procedures = [cpt_71046]"
    by simp
  have i: "\<exists>p\<in>set [cpt_71046]. is_imaging p"
    by (simp add: imaging_entries)
  have ww: "\<exists>a\<in>set [''x-ray'', ''xray'', ''cxr'']. \<exists>h\<in>set PERFORMED_HINTS.
             within_window (lower ?T) a h 40"
    using w i unfolding p by blast
  have ff: "filter is_imaging [cpt_71046] = [cpt_71046]"
    using f i c unfolding p by simp
  show ?thesis
    using h e l[unfolded p] i ww c ff r by blast
qed

section \<open>The document assembler\<close>

lemma map_of_map_upd:
  "map_of (map (\<lambda>(k', v). if k' = k then (k', f v) else (k', v)) kvs) k'' =
     (if k'' = k then map_option f (map_of kvs k) else map_of kvs k'')"
  by (induction kvs) auto

lemma field_dict_append:
  "field k (dict_append c k' x) = (if k = k' then list_append (field k c) x else field k c)"
  by (cases c) (auto simp: field_def map_of_map_upd split: option.splits)

lemma field_dict_append_same:
  "field k c = JArr xs \<Longrightarrow> field k (dict_append c k x) = JArr (xs @ [x])"
  by (simp add: field_dict_append)

lemma field_dict_append_other:
  "k \<noteq> k' \<Longrightarrow> field k (dict_append c k' x) = field k c"
  by (simp add: field_dict_append)

lemma len_at_field: "field k c = JArr xs \<Longrightarrow> len_at c k = length xs"
  by (simp add: len_at_def elems_def)

lemma dict_index_field: "dict_index c k = Inr v \<Longrightarrow> field k c = v"
  by (cases c) (auto simp: field_def split: option.splits)

lemma field_Cons [simp]:
  "field k (JObj ((k', v) # kvs)) = (if k = k' then v else field k (JObj kvs))"
  by (simp add: field_def)

lemma elems_JArr [simp]: "elems (JArr xs) = xs"
  by (simp add: elems_def)

lemma reference_fhir_ref [simp]: "reference (fhir_ref t i) = JStr (t @ ''/'' @ i)"
  by (simp add: reference_def fhir_ref_def)

lemma line_item_props:
  assumes "line_item claim sys c enc eid = Inr it"
  shows "field ''sequence'' it = JInt (int (len_at claim ''item'') + 1)"
    and "item_code it = field ''code'' c"
    and "map reference (elems (field ''encounter'' it)) = [JStr (''Encounter/'' @ eid)]"
proof -
  from assms obtain system code display date where
    c: "dict_index c ''code'' = Inr code"
    and it: "it = JObj [
       (''sequence'', JInt (int (len_at claim ''item'') + 1)),
       (''productOrService'', JObj [
          (''coding'', JArr [JObj [(''system'', system), (''code'', code), (''display'', display)]]),
          (''text'', display)]),
       (''servicedDate'', date),
       (''encounter'', JArr [fhir_ref ''Encounter'' eid])]"
    unfolding line_item_def bindE_eq_Inr by auto
  show "field ''sequence'' it = JInt (int (len_at claim ''item'') + 1)"
    by (simp add: it)
  show "item_code it = field ''code'' c"
    using dict_index_field[OF c] by (simp add: it item_code_def coding_code_def)
  show "map reference (elems (field ''encounter'' it)) = [JStr (''Encounter/'' @ eid)]"
    by (simp add: it)
qed

lemma procedure_entry_props:
  assumes "procedure_entry i p enc = Inr pe"
  shows "field ''sequence'' pe = JInt (int i)"
    and "procedure_code pe = field ''code'' p"
proof -
  from assms obtain system code display date where
    c: "dict_index p ''code'' = Inr code"
    and pe: "pe = JObj [
       (''sequence'', JInt (int i)),
       (''date'', date),
       (''procedureCodeableConcept'', JObj [
          (''coding'', JArr [JObj [(''system'', system), (''code'', code), (''display'', display)]])])]"
    unfolding procedure_entry_def bindE_eq_Inr by auto
  show "field ''sequence'' pe = JInt (int i)"
    by (simp add: pe)
  show "procedure_code pe = field ''code'' p"
    using dict_index_field[OF c] by (simp add: pe procedure_code_def coding_code_def)
qed

lemma upt_shift: "a # [Suc a ..< Suc a + n] = [a ..< a + Suc n]"
  by (simp add: upt_conv_Cons)

lemma hcpcs_loop_props:
  assumes "hcpcs_loop enc eid hs claim = Inr claim'" "field ''item'' claim = JArr its"
  shows "\<exists>nits. field ''item'' claim' = JArr (its @ nits)
     \<and> map item_code nits = map (field ''code'') hs
     \<and> map (field ''sequence'') nits
         = map (\<lambda>j. JInt (int j)) [Suc (length its) ..< Suc (length its) + length hs]
     \<and> concat (map (\<lambda>it. map reference (elems (field ''encounter'' it))) nits)
         = replicate (length hs) (JStr (''Encounter/'' @ eid))"
  using assms
proof (induction hs arbitrary: claim its)
  case Nil
  then show ?case by simp
next
  case (Cons h hs)
  from Cons.prems(1) obtain it where
    it: "line_item claim ''https://www.cms.gov/mcd/hcpcs'' h enc eid = Inr it"
    and rest: "hcpcs_loop enc eid hs (dict_append claim ''item'' it) = Inr claim'"
    by (auto simp: bindE_eq_Inr)
  have f: "field ''item'' (dict_append claim ''item'' it) = JArr (its @ [it])"
    using Cons.prems(2) by (rule field_dict_append_same)
  from Cons.IH[OF rest f] obtain nits where
    n: "field ''item'' claim' = JArr ((its @ [it]) @ nits)"
      "map item_code nits = map (field ''code'') hs"
      "map (field ''sequence'') nits
         = map (\<lambda>j. JInt (int j)) [Suc (length (its @ [it])) ..< Suc (length (its @ [it])) + length hs]"
      "concat (map (\<lambda>it. map reference (elems (field ''encounter'' it))) nits)
         = replicate (length hs) (JStr (''Encounter/'' @ eid))"
    by blast
  note p = line_item_props[OF it]
  have s: "field ''sequence'' it = JInt (int (Suc (length its)))"
    using p(1) len_at_field[OF Cons.prems(2)] by simp
  have "map (field ''sequence'') (it # nits)
      = map (\<lambda>j. JInt (int j)) (Suc (length its) # [Suc (Suc (length its)) ..< Suc (Suc (length its)) + length hs])"
    using s n(3) by simp
  also have "\<dots> = map (\<lambda>j. JInt (int j)) [Suc (length its) ..< Suc (length its) + length (h # hs)]"
    using upt_shift[of "Suc (length its)" "length hs"] by simp
  finally have sq: "map (field ''sequence'') (it # nits)
      = map (\<lambda>j. JInt (int j)) [Suc (length its) ..< Suc (length its) + length (h # hs)]" .
  have "field ''item'' claim' = JArr (its @ it # nits)"
    using n(1) by simp
  moreover have "map item_code (it # nits) = map (field ''code'') (h # hs)"
    using p(2) n(2) by simp
  moreover have "concat (map (\<lambda>it. map reference (elems (field ''encounter'' it))) (it # nits))
         = replicate (length (h # hs)) (JStr (''Encounter/'' @ eid))"
    using p(3) n(4) by simp
  ultimately show ?case using sq by blast
qed

lemma hcpcs_loop_other:
  assumes "hcpcs_loop enc eid hs claim = Inr claim'" "k \<noteq> ''item''"
  shows "field k claim' = field k claim"
  using assms
proof (induction hs arbitrary: claim)
  case Nil
  then show ?case by simp
next
  case (Cons h hs)
  from Cons.prems(1) obtain it where
    rest: "hcpcs_loop enc eid hs (dict_append claim ''item'' it) = Inr claim'"
    by (auto simp: bindE_eq_Inr)
  show ?case
    using Cons.IH[OF rest Cons.prems(2)] Cons.prems(2) by (simp add: field_dict_append_other)
qed

lemma procedures_loop_props:
  assumes "procedures_loop enc eid i ps claim = Inr claim'"
    and "field ''item'' claim = JArr its" and "field ''procedure'' claim = JArr prs"
  shows "\<exists>nits nprs. field ''item'' claim' = JArr (its @ nits)
     \<and> field ''procedure'' claim' = JArr (prs @ nprs)
     \<and> map item_code nits = map (field ''code'') ps
     \<and> map (field ''sequence'') nits
         = map (\<lambda>j. JInt (int j)) [Suc (length its) ..< Suc (length its) + length ps]
     \<and> concat (map (\<lambda>it. map reference (elems (field ''encounter'' it))) nits)
         = replicate (length ps) (JStr (''Encounter/'' @ eid))
     \<and> map procedure_code nprs = map (field ''code'') ps
     \<and> map (field ''sequence'') nprs = map (\<lambda>j. JInt (int j)) [i ..< i + length ps]"
  using assms
proof (induction ps arbitrary: i claim its prs)
  case Nil
  then show ?case by simp
next
  case (Cons p ps)
  from Cons.prems(1) obtain pe it where
    pe: "procedure_entry i p enc = Inr pe"
    and it: "line_item (dict_append claim ''procedure'' pe) ''http://www.ama-assn.org/go/cpt'' p enc eid = Inr it"
    and rest: "procedures_loop enc eid (Suc i) ps
        (dict_append (dict_append claim ''procedure'' pe) ''item'' it) = Inr claim'"
    by (auto simp: bindE_eq_Inr Let_def)
  define claim1 where "claim1 = dict_append claim ''procedure'' pe"
  have i1: "field ''item'' claim1 = JArr its"
    using Cons.prems(2) by (simp add: claim1_def field_dict_append_other)
  have p1: "field ''procedure'' claim1 = JArr (prs @ [pe])"
    unfolding claim1_def using Cons.prems(3) by (rule field_dict_append_same)
  have f: "field ''item'' (dict_append claim1 ''item'' it) = JArr (its @ [it])"
    using i1 by (rule field_dict_append_same)
  have g: "field ''procedure'' (dict_append claim1 ''item'' it) = JArr (prs @ [pe])"
    using p1 by (simp add: field_dict_append_other)
  from Cons.IH[OF rest[folded claim1_def] f g] obtain nits nprs where
    n: "field ''item'' claim' = JArr ((its @ [it]) @ nits)"
      "field ''procedure'' claim' = JArr ((prs @ [pe]) @ nprs)"
      "map item_code nits = map (field ''code'') ps"
      "map (field ''sequence'') nits
         = map (\<lambda>j. JInt (int j)) [Suc (length (its @ [it])) ..< Suc (length (its @ [it])) + length ps]"
      "concat (map (\<lambda>it. map reference (elems (field ''encounter'' it))) nits)
         = replicate (length ps) (JStr (''Encounter/'' @ eid))"
      "map procedure_code nprs = map (field ''code'') ps"
      "map (field ''sequence'') nprs = map (\<lambda>j. JInt (int j)) [Suc i ..< Suc i + length ps]"
    by blast
  note q = line_item_props[OF it[folded claim1_def]]
  note e = procedure_entry_props[OF pe]
  have s: "field ''sequence'' it = JInt (int (Suc (length its)))"
    using q(1) len_at_field[OF i1] by simp
  have "map (field ''sequence'') (it # nits)
      = map (\<lambda>j. JInt (int j)) (Suc (length its) # [Suc (Suc (length its)) ..< Suc (Suc (length its)) + length ps])"
    using s n(4) by simp
  also have "\<dots> = map (\<lambda>j. JInt (int j)) [Suc (length its) ..< Suc (length its) + length (p # ps)]"
    using upt_shift[of "Suc (length its)" "length ps"] by simp
  finally have sq: "map (field ''sequence'') (it # nits)
      = map (\<lambda>j. JInt (int j)) [Suc (length its) ..< Suc (length its) + length (p # ps)]" .
  have "map (field ''sequence'') (pe # nprs) = map (\<lambda>j. JInt (int j)) (i # [Suc i ..< Suc i + length ps])"
    using e(1) n(7) by simp
  also have "\<dots> = map (\<lambda>j. JInt (int j)) [i ..< i + length (p # ps)]"
    using upt_shift[of i "length ps"] by simp
  finally have pq: "map (field ''sequence'') (pe # nprs)
      = map (\<lambda>j. JInt (int j)) [i ..< i + length (p # ps)]" .
  have a: "field ''item'' claim' = JArr (its @ it # nits)"
    using n(1) by simp
  have b: "field ''procedure'' claim' = JArr (prs @ pe # nprs)"
    using n(2) by simp
  have c: "map item_code (it # nits) = map (field ''code'') (p # ps)"
    using q(2) n(3) by simp
  have d: "concat (map (\<lambda>it. map reference (elems (field ''encounter'' it))) (it # nits))
         = replicate (length (p # ps)) (JStr (''Encounter/'' @ eid))"
    using q(3) n(5) by simp
  have f: "map procedure_code (pe # nprs) = map (field ''code'') (p # ps)"
    using e(2) n(6) by simp
  show ?case
    using a b c d f sq pq by blast
qed

lemma procedures_loop_other:
  assumes "procedures_loop enc eid i ps claim = Inr claim'" "k \<noteq> ''item''" "k \<noteq> ''procedure''"
  shows "field k claim' = field k claim"
  using assms
proof (induction ps arbitrary: i claim)
  case Nil
  then show ?case by simp
next
  case (Cons p ps)
  from Cons.prems(1) obtain pe it where
    rest: "procedures_loop enc eid (Suc i) ps
        (dict_append (dict_append claim ''procedure'' pe) ''item'' it) = Inr claim'"
    by (auto simp: bindE_eq_Inr Let_def)
  show ?case
    using Cons.IH[OF rest Cons.prems(2,3)] Cons.prems(2,3) by (simp add: field_dict_append_other)
qed

lemma dict_get_field: "dict_get c k JNull = Inr v \<Longrightarrow> v = field k c"
  by (cases c) (auto simp: field_def split: option.splits)

lemma bindE_InrE:
  assumes "bindE m f = Inr y"
  obtains x where "m = Inr x" "f x = Inr y"
  using assms by (cases m) simp_all

lemma bindE_append2:
  "bindE m (\<lambda>x. Inr (dict_append (dict_append c k x) k' (h x))) = Inr y
   \<Longrightarrow> \<exists>x z. m = Inr x \<and> y = dict_append (dict_append c k x) k' z"
  by (cases m) auto

lemma add_em_item_props:
  assumes "add_em_item rt em enc eid claim = Inr claim'"
    and "truthy em" and "truthy (field ''code'' em)" and "field ''item'' claim = JArr its"
  shows "\<exists>it. field ''item'' claim' = JArr (its @ [it])
     \<and> item_code it = field ''code'' em
     \<and> field ''sequence'' it = JInt (int (Suc (length its)))
     \<and> map reference (elems (field ''encounter'' it)) = [JStr (''Encounter/'' @ eid)]"
proof -
  obtain kvs where em: "em = JObj kvs"
    using assms(3) by (cases em) (simp_all add: field_def)
  have t: "truthy (case map_of kvs ''code'' of None \<Rightarrow> JNull | Some v \<Rightarrow> v)"
    using assms(3) unfolding em field_def by (simp split: option.splits)
  have "bindE (line_item claim ''http://www.ama-assn.org/go/cpt'' em enc eid) (\<lambda>item.
          Inr (dict_append (dict_append claim ''item'' item) ''supportingInfo'' (JObj [
            (''sequence'', JInt (int (len_at (dict_append claim ''item'' item) ''supportingInfo'') + 1)),
            (''category'', JObj [(''coding'', JArr [JObj [
               (''system'', JStr ''http://terminology.hl7.org/CodeSystem/claiminformationcategory''),
               (''code'', JStr ''info'')]])]),
            (''valueString'', JStr (''E/M assumes patient status=''
               @ py_str rt (case map_of kvs ''assumed_patient_status'' of None \<Rightarrow> JStr ''unknown'' | Some v \<Rightarrow> v)
               @ '' (confidence='' @ py_str rt (case map_of kvs ''confidence'' of None \<Rightarrow> JNull | Some v \<Rightarrow> v)
               @ '')''))]))) = Inr claim'"
    using assms(1,2) t unfolding em add_em_item_def by (simp add: Let_def)
  from this[THEN bindE_append2] obtain it x where
    it: "line_item claim ''http://www.ama-assn.org/go/cpt'' em enc eid = Inr it"
    and cl: "claim' = dict_append (dict_append claim ''item'' it) ''supportingInfo'' x"
    by blast
  note p = line_item_props[OF it]
  have a: "field ''item'' claim' = JArr (its @ [it])"
    using assms(4) by (simp add: cl field_dict_append)
  have b: "field ''sequence'' it = JInt (int (Suc (length its)))"
    using p(1) len_at_field[OF assms(4)] by simp
  show ?thesis
    by (rule exI[of _ it]) (simp only: a b p(2,3) simp_thms)
qed

lemma add_em_item_other:
  assumes "add_em_item rt em enc eid claim = Inr claim'" "k \<noteq> ''item''" "k \<noteq> ''supportingInfo''"
  shows "field k claim' = field k claim"
  using assms
  by (auto simp: add_em_item_def bindE_eq_Inr Let_def field_dict_append split: if_splits)

lemma fhir_patient_props:
  assumes "fhir_patient pid patient = Inr P"
  shows "field ''resourceType'' P = JStr ''Patient''" and "field ''id'' P = JStr pid"
  using assms by (auto simp: fhir_patient_def bindE_eq_Inr)

lemma fhir_encounter_props:
  assumes "fhir_encounter pid eid encounter = Inr E"
  shows "field ''resourceType'' E = JStr ''Encounter''" and "field ''id'' E = JStr eid"
    and "reference (field ''subject'' E) = JStr (''Patient/'' @ pid)"
  using assms by (auto simp: fhir_encounter_def bindE_eq_Inr)

lemma condition_props:
  assumes "condition rt cid pid eid d = Inr c"
  shows "field ''resourceType'' c = JStr ''Condition''" and "field ''id'' c = JStr cid"
    and "reference (field ''subject'' c) = JStr (''Patient/'' @ pid)"
    and "reference (field ''encounter'' c) = JStr (''Encounter/'' @ eid)"
  using assms by (auto simp: condition_def bindE_eq_Inr)

lemma claim_literal_props:
  assumes "claim_literal rt clm pid env patient enc cid dgs = Inr c"
  shows "field ''resourceType'' c = JStr ''Claim''" and "field ''id'' c = JStr clm"
    and "reference (field ''patient'' c) = JStr (''Patient/'' @ pid)"
    and "field ''diagnosis'' c = JArr dgs" and "field ''procedure'' c = JArr []"
    and "field ''item'' c = JArr []" and "field ''supportingInfo'' c = JArr []"
  using assms by (auto simp: claim_literal_def bindE_eq_Inr)

lemma bindE_pair_InrE:
  assumes "bindE m (\<lambda>(a, b). f a b) = Inr y"
  obtains a b where "m = Inr (a, b)" "f a b = Inr y"
  using assms by (cases m) auto

lemma patient_resource:
  assumes "fhir_patient pid patient = Inr P"
  shows "resource_key P = JStr (''Patient/'' @ pid)" and "resource_references P = []"
  using fhir_patient_props[OF assms] by (simp_all add: resource_key_def resource_references_def)

lemma encounter_resource:
  assumes "fhir_encounter pid eid encounter = Inr E"
  shows "resource_key E = JStr (''Encounter/'' @ eid)"
    and "resource_references E = [JStr (''Patient/'' @ pid)]"
  using fhir_encounter_props[OF assms] by (simp_all add: resource_key_def resource_references_def)

lemma condition_resource:
  assumes "condition rt cid pid eid d = Inr c"
  shows "resource_key c = JStr (''Condition/'' @ cid)"
    and "resource_references c = [JStr (''Patient/'' @ pid), JStr (''Encounter/'' @ eid)]"
  using condition_props[OF assms] by (simp_all add: resource_key_def resource_references_def)

lemma diagnosis_entry_reference:
  "reference (field ''diagnosisReference'' (claim_diagnosis_entry idx cid)) = JStr (''Condition/'' @ cid)"
  by (simp add: claim_diagnosis_entry_def)

lemma conditions_loop_props:
  assumes "conditions_loop rt pid eid idx ds (ces, dgs) = Inr (ces', dgs')"
  shows "\<exists>ncs ndg. ces' = ces @ map (\<lambda>c. JObj [(''resource'', c)]) ncs \<and> dgs' = dgs @ ndg
     \<and> length ncs = length ds
     \<and> map (field ''resourceType'') ncs = replicate (length ds) (JStr ''Condition'')
     \<and> map resource_references ncs
         = replicate (length ds) [JStr (''Patient/'' @ pid), JStr (''Encounter/'' @ eid)]
     \<and> map (\<lambda>d. reference (field ''diagnosisReference'' d)) ndg = map resource_key ncs
     \<and> map resource_key ncs
         = map (\<lambda>j. JStr (''Condition/cond-'' @ uuid_hex8 rt (j + 2))) [idx ..< idx + length ds]"
  using assms
proof (induction ds arbitrary: idx ces dgs)
  case Nil
  then show ?case by simp
next
  case (Cons d ds)
  define cid where "cid = ''cond-'' @ uuid_hex8 rt (idx + 2)"
  from Cons.prems obtain c where
    c: "condition rt cid pid eid d = Inr c"
    and rest: "conditions_loop rt pid eid (Suc idx) ds
        (ces @ [JObj [(''resource'', c)]], dgs @ [claim_diagnosis_entry idx cid]) = Inr (ces', dgs')"
    unfolding cid_def by (auto simp: Let_def elim: bindE_InrE)
  from Cons.IH[OF rest] obtain ncs ndg where
    n: "ces' = (ces @ [JObj [(''resource'', c)]]) @ map (\<lambda>c. JObj [(''resource'', c)]) ncs"
      "dgs' = (dgs @ [claim_diagnosis_entry idx cid]) @ ndg"
      "length ncs = length ds"
      "map (field ''resourceType'') ncs = replicate (length ds) (JStr ''Condition'')"
      "map resource_references ncs
         = replicate (length ds) [JStr (''Patient/'' @ pid), JStr (''Encounter/'' @ eid)]"
      "map (\<lambda>d. reference (field ''diagnosisReference'' d)) ndg = map resource_key ncs"
      "map resource_key ncs
         = map (\<lambda>j. JStr (''Condition/cond-'' @ uuid_hex8 rt (j + 2))) [Suc idx ..< Suc idx + length ds]"
    by blast
  note p = condition_props[OF c]
  note q = condition_resource[OF c]
  have k: "map resource_key (c # ncs)
      = map (\<lambda>j. JStr (''Condition/cond-'' @ uuid_hex8 rt (j + 2))) (idx # [Suc idx ..< Suc idx + length ds])"
    using q(1) n(7) by (simp add: cid_def)
  have k': "map resource_key (c # ncs)
      = map (\<lambda>j. JStr (''Condition/cond-'' @ uuid_hex8 rt (j + 2))) [idx ..< idx + length (d # ds)]"
  proof -
    have "idx # [Suc idx ..< Suc idx + length ds] = [idx ..< idx + length (d # ds)]"
      using upt_shift[of idx "length ds"] by simp
    with k show ?thesis by (simp only:)
  qed
  have 1: "ces' = ces @ map (\<lambda>c. JObj [(''resource'', c)]) (c # ncs)"
    using n(1) by simp
  have 2: "dgs' = dgs @ (claim_diagnosis_entry idx cid # ndg)"
    using n(2) by simp
  have 3: "length (c # ncs) = length (d # ds)"
    using n(3) by simp
  have 4: "map (field ''resourceType'') (c # ncs) = replicate (length (d # ds)) (JStr ''Condition'')"
    using p(1) n(4) by simp
  have 5: "map resource_references (c # ncs)
         = replicate (length (d # ds)) [JStr (''Patient/'' @ pid), JStr (''Encounter/'' @ eid)]"
    using q(2) n(5) by simp
  have 6: "map (\<lambda>d. reference (field ''diagnosisReference'' d)) (claim_diagnosis_entry idx cid # ndg)
      = map resource_key (c # ncs)"
    using q(1) n(6) by (simp add: diagnosis_entry_reference)
  show ?case
    by (rule exI[of _ "c # ncs"], rule exI[of _ "claim_diagnosis_entry idx cid # ndg"])
       (simp only: 1 2 3 4 5 6 k' simp_thms)
qed

lemma build_fhir_bundle_parts:
  assumes "build_fhir_bundle rt env icd10 em procs hc = Inr b"
  obtains patient encounter cid P E ces dgs claim0 claim1 claim2 claim where
    "dict_get env ''patient'' (JObj []) = Inr patient"
    "dict_get env ''encounter'' (JObj []) = Inr encounter"
    "dict_get env ''claim_id'' JNull = Inr cid"
    "fhir_patient (''pat-'' @ uuid_hex8 rt 0) patient = Inr P"
    "fhir_encounter (''pat-'' @ uuid_hex8 rt 0) (''enc-'' @ uuid_hex8 rt 1) encounter = Inr E"
    "conditions_loop rt (''pat-'' @ uuid_hex8 rt 0) (''enc-'' @ uuid_hex8 rt 1) 1 icd10 ([], [])
       = Inr (ces, dgs)"
    "claim_literal rt (''clm-'' @ uuid_hex8 rt 2) (''pat-'' @ uuid_hex8 rt 0) env patient encounter
       (py_or cid (JStr (''clm-'' @ uuid_hex8 rt 2))) dgs = Inr claim0"
    "add_em_item rt em encounter (''enc-'' @ uuid_hex8 rt 1) claim0 = Inr claim1"
    "procedures_loop encounter (''enc-'' @ uuid_hex8 rt 1) 1 procs claim1 = Inr claim2"
    "hcpcs_loop encounter (''enc-'' @ uuid_hex8 rt 1) hc claim2 = Inr claim"
    "bundle_resources b = P # E # claim # map (field ''resource'') ces"
  using assms unfolding build_fhir_bundle_def Let_def
  apply (elim bindE_pair_InrE bindE_InrE)
  apply (rule that)
            apply assumption+
  apply (auto simp: bundle_resources_def)
  done

lemma sequence_run_split:
  "sequence_run (1 + p + h) =
     JInt 1 # map (\<lambda>j. JInt (int j)) [2 ..< 2 + p] @ map (\<lambda>j. JInt (int j)) [2 + p ..< 2 + p + h]"
proof -
  have a: "[1 ..< (2 + p) + h] = [1 ..< 2 + p] @ [2 + p ..< (2 + p) + h]"
    by (rule upt_add_eq_append) simp
  have "[1 ..< 2 + p] = 1 # [Suc 1 ..< 2 + p]"
    by (rule upt_conv_Cons) simp
  then have b: "[1 ..< 2 + p] = 1 # [2 ..< 2 + p]"
    by (simp only: Suc_1)
  have c: "Suc (1 + p + h) = (2 + p) + h"
    by simp
  show ?thesis
    unfolding sequence_run_def c a b by simp
qed

lemma claim_parts:
  assumes c0: "claim_literal rt clm pid env patient enc cid dgs = Inr claim0"
    and c1: "add_em_item rt em enc eid claim0 = Inr claim1"
    and c2: "procedures_loop enc eid 1 procs claim1 = Inr claim2"
    and c3: "hcpcs_loop enc eid hc claim2 = Inr claim"
    and t: "truthy em" "truthy (field ''code'' em)"
  shows "field ''resourceType'' claim = JStr ''Claim''"
    and "field ''id'' claim = JStr clm"
    and "reference (field ''patient'' claim) = JStr (''Patient/'' @ pid)"
    and "field ''diagnosis'' claim = JArr dgs"
    and "\<exists>items prs. field ''item'' claim = JArr items \<and> field ''procedure'' claim = JArr prs
      \<and> map item_code items = field ''code'' em # map (field ''code'') procs @ map (field ''code'') hc
      \<and> map (field ''sequence'') items = sequence_run (1 + length procs + length hc)
      \<and> concat (map (\<lambda>it. map reference (elems (field ''encounter'' it))) items)
          = replicate (1 + length procs + length hc) (JStr (''Encounter/'' @ eid))
      \<and> map procedure_code prs = map (field ''code'') procs
      \<and> map (field ''sequence'') prs = sequence_run (length procs)"
proof -
  note l = claim_literal_props[OF c0]
  have o: "field k claim = field k claim0"
    if "k \<noteq> ''item''" "k \<noteq> ''procedure''" "k \<noteq> ''supportingInfo''" for k
    using hcpcs_loop_other[OF c3 that(1)] procedures_loop_other[OF c2 that(1,2)]
      add_em_item_other[OF c1 that(1,3)] by simp
  show "field ''resourceType'' claim = JStr ''Claim''"
    using o[of "''resourceType''"] l(1) by simp
  show "field ''id'' claim = JStr clm"
    using o[of "''id''"] l(2) by simp
  show "reference (field ''patient'' claim) = JStr (''Patient/'' @ pid)"
    using o[of "''patient''"] l(3) by simp
  show "field ''diagnosis'' claim = JArr dgs"
    using o[of "''diagnosis''"] l(4) by simp
  from add_em_item_props[OF c1 t l(6)] obtain it0 where
    e: "field ''item'' claim1 = JArr ([] @ [it0])" "item_code it0 = field ''code'' em"
      "field ''sequence'' it0 = JInt (int (Suc (length ([]::json list))))"
      "map reference (elems (field ''encounter'' it0)) = [JStr (''Encounter/'' @ eid)]"
    by (elim exE conjE) (rule that)
  have p1: "field ''procedure'' claim1 = JArr []"
    using add_em_item_other[OF c1, of "''procedure''"] l(5) by simp
  have e1: "field ''item'' claim1 = JArr [it0]"
    using e(1) by simp
  from procedures_loop_props[OF c2 e1 p1] obtain nits nprs where
    n: "field ''item'' claim2 = JArr ([it0] @ nits)"
      "field ''procedure'' claim2 = JArr ([] @ nprs)"
      "map item_code nits = map (field ''code'') procs"
      "map (field ''sequence'') nits
         = map (\<lambda>j. JInt (int j)) [Suc (length [it0]) ..< Suc (length [it0]) + length procs]"
      "concat (map (\<lambda>it. map reference (elems (field ''encounter'' it))) nits)
         = replicate (length procs) (JStr (''Encounter/'' @ eid))"
      "map procedure_code nprs = map (field ''code'') procs"
      "map (field ''sequence'') nprs = map (\<lambda>j. JInt (int j)) [1 ..< 1 + length procs]"
    by (elim exE conjE) (rule that)
  have ln: "length nits = length procs"
    using n(3) by (rule map_eq_imp_length_eq)
  from hcpcs_loop_props[OF c3 n(1)] obtain hits where
    h: "field ''item'' claim = JArr (([it0] @ nits) @ hits)"
      "map item_code hits = map (field ''code'') hc"
      "map (field ''sequence'') hits
         = map (\<lambda>j. JInt (int j)) [Suc (length ([it0] @ nits)) ..< Suc (length ([it0] @ nits)) + length hc]"
      "concat (map (\<lambda>it. map reference (elems (field ''encounter'' it))) hits)
         = replicate (length hc) (JStr (''Encounter/'' @ eid))"
    by (elim exE conjE) (rule that)
  have pr: "field ''procedure'' claim = JArr nprs"
    using hcpcs_loop_other[OF c3, of "''procedure''"] n(2) by simp
  define items where "items = it0 # nits @ hits"
  have 1: "field ''item'' claim = JArr items"
    using h(1) by (simp add: items_def)
  have 2: "map item_code items = field ''code'' em # map (field ''code'') procs @ map (field ''code'') hc"
    by (simp add: items_def e(2) n(3) h(2))
  have 3: "map (field ''sequence'') items = sequence_run (1 + length procs + length hc)"
  proof -
    have e3: "field ''sequence'' it0 = JInt 1"
      using e(3) by simp
    have "Suc (length [it0]) = 2"
      by simp
    with n(4) have n4: "map (field ''sequence'') nits
        = map (\<lambda>j. JInt (int j)) [2 ..< 2 + length procs]"
      by (simp only:)
    have "Suc (length ([it0] @ nits)) = 2 + length procs"
      using ln by simp
    with h(3) have h3: "map (field ''sequence'') hits
        = map (\<lambda>j. JInt (int j)) [2 + length procs ..< 2 + length procs + length hc]"
      by (simp only:)
    show ?thesis
      unfolding sequence_run_split items_def by (simp only: list.map map_append e3 n4 h3)
  qed
  have 4: "concat (map (\<lambda>it. map reference (elems (field ''encounter'' it))) items)
          = replicate (1 + length procs + length hc) (JStr (''Encounter/'' @ eid))"
    by (simp add: items_def e(4) n(5) h(4) replicate_add[symmetric] del: replicate.simps)
       (simp add: replicate_add)
  have 5: "map (field ''sequence'') nprs = sequence_run (length procs)"
    using n(7) by (simp add: sequence_run_def)
  show "\<exists>items prs. field ''item'' claim = JArr items \<and> field ''procedure'' claim = JArr prs
      \<and> map item_code items = field ''code'' em # map (field ''code'') procs @ map (field ''code'') hc
      \<and> map (field ''sequence'') items = sequence_run (1 + length procs + length hc)
      \<and> concat (map (\<lambda>it. map reference (elems (field ''encounter'' it))) items)
          = replicate (1 + length procs + length hc) (JStr (''Encounter/'' @ eid))
      \<and> map procedure_code prs = map (field ''code'') procs
      \<and> map (field ''sequence'') prs = sequence_run (length procs)"
    by (rule exI[of _ items], rule exI[of _ nprs]) (simp only: 1 2 3 4 5 pr n(6) simp_thms)
qed

lemma map_resource_unwrap: "map (field ''resource'') (map (\<lambda>c. JObj [(''resource'', c)]) ncs) = ncs"
  by (induction ncs) simp_all

lemma bundle_layout:
  assumes b: "build_fhir_bundle rt env icd10 em procs hc = Inr b"
    and t: "truthy em" "truthy (field ''code'' em)"
  obtains P E claim ncs items prs where
    "bundle_resources b = P # E # claim # ncs"
    "field ''resourceType'' P = JStr ''Patient''"
    "field ''id'' P = JStr (''pat-'' @ uuid_hex8 rt 0)"
    "field ''resourceType'' E = JStr ''Encounter''"
    "field ''id'' E = JStr (''enc-'' @ uuid_hex8 rt 1)"
    "reference (field ''subject'' E) = JStr (''Patient/'' @ (''pat-'' @ uuid_hex8 rt 0))"
    "field ''resourceType'' claim = JStr ''Claim''"
    "field ''id'' claim = JStr (''clm-'' @ uuid_hex8 rt 2)"
    "reference (field ''patient'' claim) = JStr (''Patient/'' @ (''pat-'' @ uuid_hex8 rt 0))"
    "map (\<lambda>d. reference (field ''diagnosisReference'' d)) (elems (field ''diagnosis'' claim))
       = map resource_key ncs"
    "field ''item'' claim = JArr items"
    "field ''procedure'' claim = JArr prs"
    "map item_code items = field ''code'' em # map (field ''code'') procs @ map (field ''code'') hc"
    "map (field ''sequence'') items = sequence_run (1 + length procs + length hc)"
    "concat (map (\<lambda>it. map reference (elems (field ''encounter'' it))) items)
       = replicate (1 + length procs + length hc) (JStr (''Encounter/'' @ (''enc-'' @ uuid_hex8 rt 1)))"
    "map procedure_code prs = map (field ''code'') procs"
    "map (field ''sequence'') prs = sequence_run (length procs)"
    "length ncs = length icd10"
    "map (field ''resourceType'') ncs = replicate (length icd10) (JStr ''Condition'')"
    "map resource_references ncs = replicate (length icd10)
       [JStr (''Patient/'' @ (''pat-'' @ uuid_hex8 rt 0)), JStr (''Encounter/'' @ (''enc-'' @ uuid_hex8 rt 1))]"
    "map resource_key ncs
       = map (\<lambda>j. JStr (''Condition/cond-'' @ uuid_hex8 rt (j + 2))) [1 ..< 1 + length icd10]"
proof -
  define pid where "pid = ''pat-'' @ uuid_hex8 rt 0"
  define eid where "eid = ''enc-'' @ uuid_hex8 rt 1"
  define clm where "clm = ''clm-'' @ uuid_hex8 rt 2"
  obtain patient encounter cid P E ces dgs claim0 claim1 claim2 claim where
    p: "fhir_patient pid patient = Inr P"
    and e: "fhir_encounter pid eid encounter = Inr E"
    and c: "conditions_loop rt pid eid 1 icd10 ([], []) = Inr (ces, dgs)"
    and c0: "claim_literal rt clm pid env patient encounter (py_or cid (JStr clm)) dgs = Inr claim0"
    and c1: "add_em_item rt em encounter eid claim0 = Inr claim1"
    and c2: "procedures_loop encounter eid 1 procs claim1 = Inr claim2"
    and c3: "hcpcs_loop encounter eid hc claim2 = Inr claim"
    and r: "bundle_resources b = P # E # claim # map (field ''resource'') ces"
    unfolding pid_def eid_def clm_def by (rule build_fhir_bundle_parts[OF b])
  have "\<exists>ncs ndg. ces = [] @ map (\<lambda>c. JObj [(''resource'', c)]) ncs \<and> dgs = [] @ ndg
     \<and> length ncs = length icd10
     \<and> map (field ''resourceType'') ncs = replicate (length icd10) (JStr ''Condition'')
     \<and> map resource_references ncs
         = replicate (length icd10) [JStr (''Patient/'' @ pid), JStr (''Encounter/'' @ eid)]
     \<and> map (\<lambda>d. reference (field ''diagnosisReference'' d)) ndg = map resource_key ncs
     \<and> map resource_key ncs
         = map (\<lambda>j. JStr (''Condition/cond-'' @ uuid_hex8 rt (j + 2))) [1 ..< 1 + length icd10]"
    by (rule conditions_loop_props[OF c])
  then obtain ncs ndg where
    n: "ces = [] @ map (\<lambda>c. JObj [(''resource'', c)]) ncs" "dgs = [] @ ndg"
      "length ncs = length icd10"
      "map (field ''resourceType'') ncs = replicate (length icd10) (JStr ''Condition'')"
      "map resource_references ncs
         = replicate (length icd10) [JStr (''Patient/'' @ pid), JStr (''Encounter/'' @ eid)]"
      "map (\<lambda>d. reference (field ''diagnosisReference'' d)) ndg = map resource_key ncs"
      "map resource_key ncs
         = map (\<lambda>j. JStr (''Condition/cond-'' @ uuid_hex8 rt (j + 2))) [1 ..< 1 + length icd10]"
    by (elim exE conjE) (rule that)
  note cp = claim_parts[OF c0 c1 c2 c3 t]
  from cp(5) obtain items prs where
    i: "field ''item'' claim = JArr items" "field ''procedure'' claim = JArr prs"
      "map item_code items = field ''code'' em # map (field ''code'') procs @ map (field ''code'') hc"
      "map (field ''sequence'') items = sequence_run (1 + length procs + length hc)"
      "concat (map (\<lambda>it. map reference (elems (field ''encounter'' it))) items)
          = replicate (1 + length procs + length hc) (JStr (''Encounter/'' @ eid))"
      "map procedure_code prs = map (field ''code'') procs"
      "map (field ''sequence'') prs = sequence_run (length procs)"
    by (elim exE conjE) (rule that)
  have r': "bundle_resources b = P # E # claim # ncs"
  proof -
    have "ces = map (\<lambda>c. JObj [(''resource'', c)]) ncs"
      using n(1) by simp
    then have "map (field ''resource'') ces = ncs"
      by (simp only: map_resource_unwrap)
    with r show ?thesis by (simp only:)
  qed
  have d: "map (\<lambda>d. reference (field ''diagnosisReference'' d)) (elems (field ''diagnosis'' claim))
       = map resource_key ncs"
    using cp(4) n(2,6) by simp
  note pp = fhir_patient_props[OF p]
  note ep = fhir_encounter_props[OF e]
  show ?thesis
    by (rule that[OF r' pp[unfolded pid_def] ep[unfolded pid_def eid_def]
          cp(1) cp(2)[unfolded clm_def] cp(3)[unfolded pid_def] d i(1,2,3,4)
          i(5)[unfolded eid_def] i(6,7) n(3,4) n(5)[unfolded pid_def eid_def] n(7)])
qed

lemma length_concat_replicate: "length (concat (replicate n xs)) = n * length xs"
  by (induction n) simp_all

lemma set_concat_replicate: "set (concat (replicate n xs)) \<subseteq> set xs"
  by (induction n) auto

lemma filter_map_replicate_other:
  "map f xs = replicate n x \<Longrightarrow> x \<noteq> v \<Longrightarrow> filter (\<lambda>r. f r = v) xs = []"
proof (induction xs arbitrary: n)
  case Nil
  then show ?case by simp
next
  case (Cons a xs)
  then show ?case by (cases n) auto
qed

lemma filter_map_replicate_same:
  "map f xs = replicate n x \<Longrightarrow> filter (\<lambda>r. f r = x) xs = xs"
proof (induction xs arbitrary: n)
  case Nil
  then show ?case by simp
next
  case (Cons a xs)
  then show ?case by (cases n) auto
qed

lemma type_neq:
  "JStr ''Condition'' \<noteq> JStr ''Patient''" "JStr ''Condition'' \<noteq> JStr ''Encounter''"
  "JStr ''Condition'' \<noteq> JStr ''Claim''" "JStr ''Patient'' \<noteq> JStr ''Encounter''"
  "JStr ''Patient'' \<noteq> JStr ''Claim''" "JStr ''Patient'' \<noteq> JStr ''Condition''"
  "JStr ''Encounter'' \<noteq> JStr ''Patient''" "JStr ''Encounter'' \<noteq> JStr ''Claim''"
  "JStr ''Encounter'' \<noteq> JStr ''Condition''" "JStr ''Claim'' \<noteq> JStr ''Patient''"
  "JStr ''Claim'' \<noteq> JStr ''Encounter''" "JStr ''Claim'' \<noteq> JStr ''Condition''"
  by simp_all

lemma bundle_facts:
  assumes b: "build_fhir_bundle rt env icd10 em procs hc = Inr b"
    and t: "truthy em" "truthy (field ''code'' em)"
  shows "length (resources_of_type ''Patient'' b) = 1"
    and "length (resources_of_type ''Encounter'' b) = 1"
    and "length (resources_of_type ''Claim'' b) = 1"
    and "length (resources_of_type ''Condition'' b) = length icd10"
    and "length (bundle_resources b) = 3 + length icd10"
    and "set (bundle_references b) \<subseteq> set (map resource_key (bundle_resources b))"
    and "list_all is_str (bundle_references b)"
    and "length (bundle_references b) = 3 + 3 * length icd10 + length procs + length hc"
    and "map item_code (elems (field ''item'' (the_resource ''Claim'' b)))
          = field ''code'' em # map (field ''code'') procs @ map (field ''code'') hc"
    and "map (field ''sequence'') (elems (field ''item'' (the_resource ''Claim'' b)))
          = sequence_run (1 + length procs + length hc)"
    and "map procedure_code (elems (field ''procedure'' (the_resource ''Claim'' b)))
          = map (field ''code'') procs"
    and "map (field ''sequence'') (elems (field ''procedure'' (the_resource ''Claim'' b)))
          = sequence_run (length procs)"
proof -
  define pat where "pat = JStr (''Patient/'' @ (''pat-'' @ uuid_hex8 rt 0))"
  define enc where "enc = JStr (''Encounter/'' @ (''enc-'' @ uuid_hex8 rt 1))"
  define m where "m = 1 + length procs + length hc"
  obtain P E claim ncs items prs where
    r: "bundle_resources b = P # E # claim # ncs"
    and tP: "field ''resourceType'' P = JStr ''Patient''"
    and iP: "field ''id'' P = JStr (''pat-'' @ uuid_hex8 rt 0)"
    and tE: "field ''resourceType'' E = JStr ''Encounter''"
    and iE: "field ''id'' E = JStr (''enc-'' @ uuid_hex8 rt 1)"
    and sE: "reference (field ''subject'' E) = pat"
    and tC: "field ''resourceType'' claim = JStr ''Claim''"
    and iC: "field ''id'' claim = JStr (''clm-'' @ uuid_hex8 rt 2)"
    and pC: "reference (field ''patient'' claim) = pat"
    and dC: "map (\<lambda>d. reference (field ''diagnosisReference'' d)) (elems (field ''diagnosis'' claim))
       = map resource_key ncs"
    and it: "field ''item'' claim = JArr items"
    and pr: "field ''procedure'' claim = JArr prs"
    and ic: "map item_code items = field ''code'' em # map (field ''code'') procs @ map (field ''code'') hc"
    and sq: "map (field ''sequence'') items = sequence_run (1 + length procs + length hc)"
    and ir: "concat (map (\<lambda>it. map reference (elems (field ''encounter'' it))) items)
       = replicate m enc"
    and pc: "map procedure_code prs = map (field ''code'') procs"
    and ps: "map (field ''sequence'') prs = sequence_run (length procs)"
    and ln: "length ncs = length icd10"
    and tn: "map (field ''resourceType'') ncs = replicate (length icd10) (JStr ''Condition'')"
    and rn: "map resource_references ncs = replicate (length icd10) [pat, enc]"
    and kn: "map resource_key ncs
       = map (\<lambda>j. JStr (''Condition/cond-'' @ uuid_hex8 rt (j + 2))) [1 ..< 1 + length icd10]"
    unfolding pat_def enc_def m_def by (rule bundle_layout[OF b t])
  have fP: "resources_of_type ''Patient'' b = [P]"
    unfolding resources_of_type_def r
    by (simp add: tP tE tC filter_map_replicate_other[OF tn type_neq(1)])
  have fE: "resources_of_type ''Encounter'' b = [E]"
    unfolding resources_of_type_def r
    by (simp add: tP tE tC filter_map_replicate_other[OF tn type_neq(2)])
  have fC: "resources_of_type ''Claim'' b = [claim]"
    unfolding resources_of_type_def r
    by (simp add: tP tE tC filter_map_replicate_other[OF tn type_neq(3)])
  have fN: "resources_of_type ''Condition'' b = ncs"
    unfolding resources_of_type_def r
    by (simp add: tP tE tC filter_map_replicate_same[OF tn])
  show "length (resources_of_type ''Patient'' b) = 1"
    by (simp add: fP)
  show "length (resources_of_type ''Encounter'' b) = 1"
    by (simp add: fE)
  show "length (resources_of_type ''Claim'' b) = 1"
    by (simp add: fC)
  show "length (resources_of_type ''Condition'' b) = length icd10"
    by (simp add: fN ln)
  show "length (bundle_resources b) = 3 + length icd10"
    by (simp add: r ln)
  have cl: "the_resource ''Claim'' b = claim"
    by (simp add: the_resource_def fC)
  show "map item_code (elems (field ''item'' (the_resource ''Claim'' b)))
          = field ''code'' em # map (field ''code'') procs @ map (field ''code'') hc"
    by (simp add: cl it ic)
  show "map (field ''sequence'') (elems (field ''item'' (the_resource ''Claim'' b)))
          = sequence_run (1 + length procs + length hc)"
    by (simp add: cl it sq)
  show "map procedure_code (elems (field ''procedure'' (the_resource ''Claim'' b)))
          = map (field ''code'') procs"
    by (simp add: cl pr pc)
  show "map (field ''sequence'') (elems (field ''procedure'' (the_resource ''Claim'' b)))
          = sequence_run (length procs)"
    by (simp add: cl pr ps)
  have rP: "resource_references P = []"
    by (simp add: resource_references_def tP)
  have rE: "resource_references E = [pat]"
    by (simp add: resource_references_def tE sE)
  have rC: "resource_references claim = pat # map resource_key ncs @ replicate m enc"
    by (simp add: resource_references_def claim_references_def tC pC dC it ir)
  have refs: "bundle_references b
      = pat # pat # map resource_key ncs @ replicate m enc @ concat (replicate (length icd10) [pat, enc])"
    by (simp add: bundle_references_def r rP rE rC rn)
  have kP: "resource_key P = pat"
    by (simp add: resource_key_def tP iP pat_def)
  have kE: "resource_key E = enc"
    by (simp add: resource_key_def tE iE enc_def)
  have keys: "map resource_key (bundle_resources b)
      = pat # enc # resource_key claim # map resource_key ncs"
    by (simp add: r kP kE)
  have sc: "set (concat (replicate (length icd10) [pat, enc])) \<subseteq> {pat, enc}"
    using set_concat_replicate[of "length icd10" "[pat, enc]"] by simp
  have sr: "set (replicate m enc) \<subseteq> {enc}"
    by auto
  show "set (bundle_references b) \<subseteq> set (map resource_key (bundle_resources b))"
    unfolding refs keys using sc sr by auto
  have ks: "list_all is_str (map resource_key ncs)"
    unfolding kn by (simp add: list_all_iff)
  have "list_all is_str (concat (replicate (length icd10) [pat, enc]))"
    using sc by (auto simp: list_all_iff pat_def enc_def)
  moreover have "list_all is_str (replicate m enc)"
    by (simp add: list_all_iff enc_def)
  ultimately show "list_all is_str (bundle_references b)"
    unfolding refs using ks by (simp add: pat_def)
  have "length (map resource_key ncs) = length icd10"
    by (simp add: ln)
  then show "length (bundle_references b) = 3 + 3 * length icd10 + length procs + length hc"
    unfolding refs by (simp add: length_concat_replicate m_def del: length_map)
qed

lemma dict_with_JObj: "dict_with strs v \<Longrightarrow> \<exists>sub. v = JObj sub"
  by (cases v) simp_all

lemma code_entry_JObj: "code_entry c \<Longrightarrow> \<exists>kvs v. c = JObj kvs \<and> map_of kvs ''code'' = Some v"
  by (cases c) auto

lemma fhir_patient_total:
  assumes "dict_with [''sex''] patient"
  shows "\<exists>P. fhir_patient pid patient = Inr P"
proof -
  from assms obtain sub where p: "patient = JObj sub"
    using dict_with_JObj by blast
  have "is_str (case map_of sub ''sex'' of None \<Rightarrow> JStr [] | Some v \<Rightarrow> v)"
    using assms unfolding p by (simp add: absent_or_def split: option.splits)
  then obtain s where s: "(case map_of sub ''sex'' of None \<Rightarrow> JStr [] | Some v \<Rightarrow> v) = JStr s"
    by (cases "case map_of sub ''sex'' of None \<Rightarrow> JStr [] | Some v \<Rightarrow> v") simp_all
  show ?thesis
    unfolding p fhir_patient_def by (simp add: s)
qed

lemma fhir_encounter_total: "\<exists>E. fhir_encounter pid eid (JObj sub) = Inr E"
  unfolding fhir_encounter_def by simp

lemma condition_total:
  assumes "code_entry d"
  shows "\<exists>c. condition rt cid pid eid d = Inr c"
proof -
  from code_entry_JObj[OF assms] obtain kvs v where d: "d = JObj kvs" "map_of kvs ''code'' = Some v"
    by (elim exE conjE)
  show ?thesis
    unfolding d(1) condition_def by (simp add: d(2))
qed

lemma conditions_loop_total:
  assumes "list_all code_entry ds"
  shows "\<exists>r. conditions_loop rt pid eid idx ds (ces, dgs) = Inr r"
  using assms
proof (induction ds arbitrary: idx ces dgs)
  case Nil
  then show ?case by simp
next
  case (Cons d ds)
  from Cons.prems have d: "code_entry d" and ds: "list_all code_entry ds"
    by simp_all
  from condition_total[OF d] obtain c where
    c: "condition rt (''cond-'' @ uuid_hex8 rt (idx + 2)) pid eid d = Inr c" ..
  have "conditions_loop rt pid eid idx (d # ds) (ces, dgs)
      = conditions_loop rt pid eid (Suc idx) ds
          (ces @ [JObj [(''resource'', c)]],
           dgs @ [claim_diagnosis_entry idx (''cond-'' @ uuid_hex8 rt (idx + 2))])"
    by (simp only: conditions_loop.simps Let_def c bindE_Inr)
  then show ?case
    using Cons.IH[OF ds] by (simp only:)
qed

lemma line_item_total:
  assumes "code_entry c"
  shows "\<exists>it. line_item claim sys c (JObj enc) eid = Inr it"
proof -
  from code_entry_JObj[OF assms] obtain kvs v where d: "c = JObj kvs" "map_of kvs ''code'' = Some v"
    by (elim exE conjE)
  show ?thesis
    unfolding d(1) line_item_def by (simp add: d(2))
qed

lemma procedure_entry_total:
  assumes "code_entry p"
  shows "\<exists>pe. procedure_entry i p (JObj enc) = Inr pe"
proof -
  from code_entry_JObj[OF assms] obtain kvs v where d: "p = JObj kvs" "map_of kvs ''code'' = Some v"
    by (elim exE conjE)
  show ?thesis
    unfolding d(1) procedure_entry_def by (simp add: d(2))
qed

lemma procedures_loop_total:
  assumes "list_all code_entry ps"
  shows "\<exists>r. procedures_loop (JObj enc) eid i ps claim = Inr r"
  using assms
proof (induction ps arbitrary: i claim)
  case Nil
  then show ?case by simp
next
  case (Cons p ps)
  from Cons.prems have p: "code_entry p" and ps: "list_all code_entry ps"
    by simp_all
  from procedure_entry_total[OF p] obtain pe where
    pe: "procedure_entry i p (JObj enc) = Inr pe" ..
  from line_item_total[OF p] obtain it where
    it: "line_item (dict_append claim ''procedure'' pe) ''http://www.ama-assn.org/go/cpt'' p (JObj enc) eid = Inr it" ..
  show ?case
    using Cons.IH[OF ps] by (simp add: Let_def pe it)
qed

lemma hcpcs_loop_total:
  assumes "list_all code_entry hs"
  shows "\<exists>r. hcpcs_loop (JObj enc) eid hs claim = Inr r"
  using assms
proof (induction hs arbitrary: claim)
  case Nil
  then show ?case by simp
next
  case (Cons h hs)
  from Cons.prems have h: "code_entry h" and hs: "list_all code_entry hs"
    by simp_all
  from line_item_total[OF h] obtain it where
    it: "line_item claim ''https://www.cms.gov/mcd/hcpcs'' h (JObj enc) eid = Inr it" ..
  show ?case
    using Cons.IH[OF hs] by (simp add: it)
qed

lemma add_em_item_total:
  assumes "code_entry em"
  shows "\<exists>r. add_em_item rt em (JObj enc) eid claim = Inr r"
proof -
  from code_entry_JObj[OF assms] obtain kvs v where d: "em = JObj kvs" "map_of kvs ''code'' = Some v"
    by (elim exE conjE)
  from line_item_total[OF assms] obtain it where
    it: "line_item claim ''http://www.ama-assn.org/go/cpt'' (JObj kvs) (JObj enc) eid = Inr it"
    unfolding d(1) ..
  show ?thesis
    unfolding d(1) add_em_item_def by (simp add: d(2) it Let_def)
qed

lemma claim_literal_total:
  assumes "absent_or (dict_with []) kvs ''meta''"
  shows "\<exists>c. claim_literal rt clm pid (JObj kvs) (JObj pat) (JObj enc) cid dgs = Inr c"
proof -
  have "dict_with [] (case map_of kvs ''meta'' of None \<Rightarrow> JObj [] | Some v \<Rightarrow> v)"
    using assms by (simp add: absent_or_def split: option.splits)
  then obtain m where m: "(case map_of kvs ''meta'' of None \<Rightarrow> JObj [] | Some v \<Rightarrow> v) = JObj m"
    using dict_with_JObj by blast
  show ?thesis
    unfolding claim_literal_def by (simp add: m)
qed

lemma build_total:
  assumes s: "envelope_shape env" and i: "list_all code_entry icd10" and e: "code_entry em"
    and p: "list_all code_entry procs" and h: "list_all code_entry hc"
  shows "\<exists>b. build_fhir_bundle rt env icd10 em procs hc = Inr b"
proof -
  define pid where "pid = ''pat-'' @ uuid_hex8 rt 0"
  define eid where "eid = ''enc-'' @ uuid_hex8 rt 1"
  define clm where "clm = ''clm-'' @ uuid_hex8 rt 2"
  from s obtain kvs where env: "env = JObj kvs"
    by (cases env) simp_all
  from s have sh: "absent_or (dict_with [''sex'']) kvs ''patient''"
    "absent_or (dict_with []) kvs ''encounter''" "absent_or (dict_with []) kvs ''meta''"
    unfolding env by simp_all
  define patient where "patient = (case map_of kvs ''patient'' of None \<Rightarrow> JObj [] | Some v \<Rightarrow> v)"
  define encounter where "encounter = (case map_of kvs ''encounter'' of None \<Rightarrow> JObj [] | Some v \<Rightarrow> v)"
  define cid where "cid = (case map_of kvs ''claim_id'' of None \<Rightarrow> JNull | Some v \<Rightarrow> v)"
  have dp: "dict_with [''sex''] patient"
    using sh(1) by (simp add: patient_def absent_or_def split: option.splits)
  have "dict_with [] encounter"
    using sh(2) by (simp add: encounter_def absent_or_def split: option.splits)
  then obtain esub where en: "encounter = JObj esub"
    using dict_with_JObj by blast
  from dp obtain psub where pa: "patient = JObj psub"
    using dict_with_JObj by blast
  have 1: "dict_get env ''patient'' (JObj []) = Inr patient"
    by (simp add: env patient_def)
  have 2: "dict_get env ''encounter'' (JObj []) = Inr encounter"
    by (simp add: env encounter_def)
  have 3: "dict_get env ''claim_id'' JNull = Inr cid"
    by (simp add: env cid_def)
  from fhir_patient_total[OF dp] obtain P where P: "fhir_patient pid patient = Inr P" ..
  from fhir_encounter_total obtain E where E: "fhir_encounter pid eid encounter = Inr E"
    unfolding en ..
  from conditions_loop_total[OF i] obtain r where
    "conditions_loop rt pid eid 1 icd10 ([], []) = Inr r" ..
  then obtain ces dgs where C: "conditions_loop rt pid eid 1 icd10 ([], []) = Inr (ces, dgs)"
    by (cases r) simp
  from claim_literal_total[OF sh(3)] obtain c0 where
    c0: "claim_literal rt clm pid env patient encounter (py_or cid (JStr clm)) dgs = Inr c0"
    unfolding env pa en ..
  from add_em_item_total[OF e] obtain c1 where
    c1: "add_em_item rt em encounter eid c0 = Inr c1"
    unfolding en ..
  from procedures_loop_total[OF p] obtain c2 where
    c2: "procedures_loop encounter eid 1 procs c1 = Inr c2"
    unfolding en ..
  from hcpcs_loop_total[OF h] obtain c3 where
    c3: "hcpcs_loop encounter eid hc c2 = Inr c3"
    unfolding en ..
  show ?thesis
    unfolding build_fhir_bundle_def Let_def pid_def[symmetric] eid_def[symmetric] clm_def[symmetric]
    by (simp only: 1 2 3 P E C c0 c1 c2 c3 bindE_Inr prod.case) (rule exI, rule refl)
qed

lemma note_text_shape:
  assumes "envelope_shape env"
  shows "\<exists>note. note_text env = Inr note"
proof -
  from assms obtain kvs where env: "env = JObj kvs"
    by (cases env) simp_all
  from assms have sh: "absent_or (dict_with [''text_preview'']) kvs ''clinical_note''"
    unfolding env by simp
  show ?thesis
  proof (cases "map_of kvs ''clinical_note''")
    case None
    then show ?thesis
      by (simp add: env note_text_def py_or_def)
  next
    case (Some cn)
    with sh have "dict_with [''text_preview''] cn"
      by (simp add: absent_or_def)
    then obtain sub where cn: "cn = JObj sub" and tp: "absent_or is_str sub ''text_preview''"
      by (cases cn) simp_all
    have "is_str (case map_of sub ''text_preview'' of None \<Rightarrow> JStr [] | Some v \<Rightarrow> v)"
      using tp by (simp add: absent_or_def split: option.splits)
    then obtain t where t: "(case map_of sub ''text_preview'' of None \<Rightarrow> JStr [] | Some v \<Rightarrow> v) = JStr t"
      by (cases "case map_of sub ''text_preview'' of None \<Rightarrow> JStr [] | Some v \<Rightarrow> v") simp_all
    show ?thesis
    proof (cases "sub = []")
      case True
      then show ?thesis
        using Some by (simp add: env note_text_def py_or_def cn)
    next
      case False
      then show ?thesis
        using Some t by (simp add: env note_text_def py_or_def cn)
    qed
  qed
qed

section \<open>Detection followed by assembly\<close>

lemma code_entry_entries:
  "code_entry dx_J20_9" "code_entry dx_R06_2" "code_entry dx_R06_02" "code_entry dx_R50_9"
  "code_entry dx_R05_9" "code_entry cpt_71045" "code_entry cpt_71046" "code_entry cpt_94640"
  "code_entry cpt_96372" "code_entry hcpcs_J7613" "code_entry hcpcs_J0696" "code_entry hcpcs_J1100"
  by (simp_all add: dx_J20_9_def dx_R06_2_def dx_R06_02_def dx_R50_9_def dx_R05_9_def
      cpt_71045_def cpt_71046_def cpt_94640_def cpt_96372_def
      hcpcs_J7613_def hcpcs_J0696_def hcpcs_J1100_def)

lemma append_if_entry: "x = JNull \<or> code_entry x \<Longrightarrow> list_all code_entry (append_if x)"
  by (auto simp: append_if_def)

lemma tiny_rules_entries:
  assumes "note_text env = Inr nt"
  shows "\<exists>icd10 procs hc. tiny_rules env = Inr (icd10, cpt_em_99213, procs, hc)
     \<and> list_all code_entry icd10 \<and> list_all code_entry procs \<and> list_all code_entry hc"
proof -
  obtain cxr neb_cpt albut_hcpcs inj_cpt drug_hcpcs where
    r: "detect_performed_cxr nt = Inr cxr"
       "detect_nebulizer_and_drug nt = Inr (neb_cpt, albut_hcpcs)"
       "detect_injection_and_drug nt = Inr (inj_cpt, drug_hcpcs)"
    using detectors_return by blast
  have c: "cxr = JNull \<or> code_entry cxr"
    using r(1) unfolding detect_performed_cxr_result by (auto simp: code_entry_entries split: if_splits)
  have n: "neb_cpt = JNull \<or> code_entry neb_cpt" "albut_hcpcs = JNull \<or> code_entry albut_hcpcs"
    using r(2) unfolding detect_nebulizer_and_drug_result
    by (auto simp: code_entry_entries split: if_splits)
  have i: "inj_cpt = JNull \<or> code_entry inj_cpt" "drug_hcpcs = JNull \<or> code_entry drug_hcpcs"
    using r(3) unfolding detect_injection_and_drug_result
    by (auto simp: code_entry_entries split: if_splits)
  have p: "list_all code_entry (append_if cxr @ append_if neb_cpt @ append_if inj_cpt)"
    using append_if_entry[OF c] append_if_entry[OF n(1)] append_if_entry[OF i(1)] by simp
  have h: "list_all code_entry (append_if albut_hcpcs @ append_if drug_hcpcs)"
    using append_if_entry[OF n(2)] append_if_entry[OF i(2)] by simp
  define icd10 where "icd10 = (if contains ''cough'' (lower nt)
          \<and> (contains ''wheez'' (lower nt) \<or> contains ''shortness of breath'' (lower nt))
          \<and> (contains ''fever'' (lower nt) \<or> contains ''azithromycin'' (lower nt))
       then [dx_J20_9] else [])
      @ (if contains ''wheez'' (lower nt) then [dx_R06_2] else [])
      @ (if contains ''shortness of breath'' (lower nt) then [dx_R06_02] else [])
      @ (if contains ''fever'' (lower nt) then [dx_R50_9] else [])
      @ (if contains ''cough'' (lower nt) then [dx_R05_9] else [])"
  have d: "list_all code_entry icd10"
    by (simp add: icd10_def code_entry_entries)
  have t: "tiny_rules env = Inr (icd10, cpt_em_99213,
      append_if cxr @ append_if neb_cpt @ append_if inj_cpt,
      append_if albut_hcpcs @ append_if drug_hcpcs)"
    unfolding icd10_def by (rule tiny_rules_unfold[OF assms r])
  show ?thesis
    using t d p h by (intro exI conjI)
qed

lemma tiny_rules_visit_code:
  assumes "tiny_rules env = Inr (icd10, em, procs, hc)"
  shows "em = cpt_em_99213"
proof -
  from assms obtain nt where n: "note_text env = Inr nt"
    unfolding tiny_rules_def by (cases "note_text env") simp_all
  from tiny_rules_entries[OF n] obtain icd10' procs' hc' where
    "tiny_rules env = Inr (icd10', cpt_em_99213, procs', hc')"
    by (elim exE conjE)
  with assms show ?thesis
    by simp
qed

lemma cpt_em_entry: "code_entry cpt_em_99213" "truthy cpt_em_99213" "truthy (field ''code'' cpt_em_99213)"
  by (simp_all add: cpt_em_fields) (simp_all add: cpt_em_99213_def)

lemma run_returns:
  assumes "envelope_shape env"
  shows "\<exists>icd10 procs hc b. tiny_rules env = Inr (icd10, cpt_em_99213, procs, hc)
     \<and> build_fhir_bundle rt env icd10 cpt_em_99213 procs hc = Inr b
     \<and> run_coding_agent rt env = Inr b"
proof -
  from note_text_shape[OF assms] obtain nt where n: "note_text env = Inr nt" ..
  from tiny_rules_entries[OF n] obtain icd10 procs hc where
    t: "tiny_rules env = Inr (icd10, cpt_em_99213, procs, hc)"
    and e: "list_all code_entry icd10" "list_all code_entry procs" "list_all code_entry hc"
    by (elim exE conjE)
  from build_total[OF assms e(1) cpt_em_entry(1) e(2,3)] obtain b where
    b: "build_fhir_bundle rt env icd10 cpt_em_99213 procs hc = Inr b" ..
  have r: "run_coding_agent rt env = Inr b"
    by (simp add: run_coding_agent_def t b)
  show ?thesis
    using t b r by (intro exI conjI)
qed

text \<open>
  Claim C1. For an envelope of the input contract the run returns a bundle. Whenever
  \<open>build_fhir_bundle\<close> returns a bundle for an envelope and the detection result of that
  envelope, the bundle holds one Patient, one Encounter, one Claim and one Condition per
  diagnosis, and nothing else; and every reference in it (the Encounter's subject, the
  Claim's patient, each diagnosisReference, each item's encounter, each Condition's
  subject and encounter) is a string that is the type and id of a resource of the bundle.
\<close>

theorem bundle_resources_and_references:
  "(envelope_shape env \<longrightarrow> (\<exists>b. run_coding_agent rt env = Inr b))
   \<and> (tiny_rules env = Inr (icd10, cpt_em, procedures, hcpcs)
      \<and> build_fhir_bundle rt env icd10 cpt_em procedures hcpcs = Inr b \<longrightarrow>
        length (resources_of_type ''Patient'' b) = 1
      \<and> length (resources_of_type ''Encounter'' b) = 1
      \<and> length (resources_of_type ''Claim'' b) = 1
      \<and> length (resources_of_type ''Condition'' b) = length icd10
      \<and> length (bundle_resources b) = 3 + length icd10
      \<and> set (bundle_references b) \<subseteq> set (map resource_key (bundle_resources b))
      \<and> list_all is_str (bundle_references b)
      \<and> length (bundle_references b) = 3 + 3 * length icd10 + length procedures + length hcpcs)"
proof (rule conjI; rule impI)
  assume "envelope_shape env"
  from run_returns[OF this, of rt] obtain b' where "run_coding_agent rt env = Inr b'"
    by (elim exE conjE)
  then show "\<exists>b. run_coding_agent rt env = Inr b" ..
next
  assume a: "tiny_rules env = Inr (icd10, cpt_em, procedures, hcpcs)
      \<and> build_fhir_bundle rt env icd10 cpt_em procedures hcpcs = Inr b"
  then have em: "cpt_em = cpt_em_99213"
    using tiny_rules_visit_code by blast
  from a have b: "build_fhir_bundle rt env icd10 cpt_em_99213 procedures hcpcs = Inr b"
    unfolding em by simp
  note f = bundle_facts[OF b cpt_em_entry(2,3)]
  show "length (resources_of_type ''Patient'' b) = 1
      \<and> length (resources_of_type ''Encounter'' b) = 1
      \<and> length (resources_of_type ''Claim'' b) = 1
      \<and> length (resources_of_type ''Condition'' b) = length icd10
      \<and> length (bundle_resources b) = 3 + length icd10
      \<and> set (bundle_references b) \<subseteq> set (map resource_key (bundle_resources b))
      \<and> list_all is_str (bundle_references b)
      \<and> length (bundle_references b) = 3 + 3 * length icd10 + length procedures + length hcpcs"
    by (intro conjI) (rule f(1) f(2) f(3) f(4) f(5) f(6) f(7) f(8))+
qed

text \<open>
  Claim C2. For an envelope of the input contract the run returns a bundle. Whenever
  \<open>build_fhir_bundle\<close> returns a bundle for an envelope and the detection result of that
  envelope, \<open>Claim.item\<close> is the line of the visit code 99213, then one line per procedure
  in detection order, then one line per supply in detection order; its length is
  1 + the number of procedures + the number of supplies; its sequence numbers are
  1, 2, ..., n; and \<open>Claim.procedure\<close> has one entry per procedure, in order, numbered
  from 1 on its own.
\<close>

theorem claim_items_and_sequences:
  "(envelope_shape env \<longrightarrow> (\<exists>b. run_coding_agent rt env = Inr b))
   \<and> (tiny_rules env = Inr (icd10, cpt_em, procedures, hcpcs)
      \<and> build_fhir_bundle rt env icd10 cpt_em procedures hcpcs = Inr b \<longrightarrow>
        map item_code (elems (field ''item'' (the_resource ''Claim'' b)))
          = JStr ''99213'' # map (field ''code'') procedures @ map (field ''code'') hcpcs
      \<and> length (elems (field ''item'' (the_resource ''Claim'' b)))
          = 1 + length procedures + length hcpcs
      \<and> map (field ''sequence'') (elems (field ''item'' (the_resource ''Claim'' b)))
          = sequence_run (length (elems (field ''item'' (the_resource ''Claim'' b))))
      \<and> map procedure_code (elems (field ''procedure'' (the_resource ''Claim'' b)))
          = map (field ''code'') procedures
      \<and> map (field ''sequence'') (elems (field ''procedure'' (the_resource ''Claim'' b)))
          = sequence_run (length procedures))"
proof (rule conjI; rule impI)
  assume "envelope_shape env"
  from run_returns[OF this, of rt] obtain b' where "run_coding_agent rt env = Inr b'"
    by (elim exE conjE)
  then show "\<exists>b. run_coding_agent rt env = Inr b" ..
next
  assume a: "tiny_rules env = Inr (icd10, cpt_em, procedures, hcpcs)
      \<and> build_fhir_bundle rt env icd10 cpt_em procedures hcpcs = Inr b"
  then have em: "cpt_em = cpt_em_99213"
    using tiny_rules_visit_code by blast
  from a have b: "build_fhir_bundle rt env icd10 cpt_em_99213 procedures hcpcs = Inr b"
    unfolding em by simp
  note f = bundle_facts[OF b cpt_em_entry(2,3)]
  define items where "items = elems (field ''item'' (the_resource ''Claim'' b))"
  have c: "map item_code items
          = JStr ''99213'' # map (field ''code'') procedures @ map (field ''code'') hcpcs"
    using f(9) by (simp add: items_def cpt_em_fields(1))
  have "length (map item_code items) = 1 + length procedures + length hcpcs"
    unfolding c by simp
  then have l: "length items = 1 + length procedures + length hcpcs"
    by simp
  have s: "map (field ''sequence'') items = sequence_run (length items)"
    using f(10) l by (simp only: items_def)
  show "map item_code (elems (field ''item'' (the_resource ''Claim'' b)))
          = JStr ''99213'' # map (field ''code'') procedures @ map (field ''code'') hcpcs
      \<and> length (elems (field ''item'' (the_resource ''Claim'' b)))
          = 1 + length procedures + length hcpcs
      \<and> map (field ''sequence'') (elems (field ''item'' (the_resource ''Claim'' b)))
          = sequence_run (length (elems (field ''item'' (the_resource ''Claim'' b))))
      \<and> map procedure_code (elems (field ''procedure'' (the_resource ''Claim'' b)))
          = map (field ''code'') procedures
      \<and> map (field ''sequence'') (elems (field ''procedure'' (the_resource ''Claim'' b)))
          = sequence_run (length procedures)"
    unfolding items_def[symmetric] by (intro conjI) (rule c l s f(11) f(12))+
qed

theorem bundle_resources_and_references_witness:
  "envelope_shape sample_envelope
   \<and> tiny_rules sample_envelope
       = Inr ([dx_R06_2, dx_R05_9], cpt_em_99213, [cpt_71046, cpt_96372], [hcpcs_J0696])
   \<and> (\<exists>b. run_coding_agent sample_runtime sample_envelope = Inr b
        \<and> length (resources_of_type ''Patient'' b) = 1
        \<and> length (resources_of_type ''Encounter'' b) = 1
        \<and> length (resources_of_type ''Claim'' b) = 1
        \<and> length (resources_of_type ''Condition'' b) = 2
        \<and> length (bundle_resources b) = 5
        \<and> set (bundle_references b) \<subseteq> set (map resource_key (bundle_resources b))
        \<and> list_all is_str (bundle_references b)
        \<and> length (bundle_references b) = 12)"
proof -
  have s: "envelope_shape sample_envelope"
    by (simp add: sample_envelope_def absent_or_def)
  have t: "tiny_rules sample_envelope
       = Inr ([dx_R06_2, dx_R05_9], cpt_em_99213, [cpt_71046, cpt_96372], [hcpcs_J0696])"
    by code_simp
  from bundle_resources_and_references[of sample_envelope sample_runtime] s
  obtain b where r: "run_coding_agent sample_runtime sample_envelope = Inr b"
    by blast
  then have b: "build_fhir_bundle sample_runtime sample_envelope [dx_R06_2, dx_R05_9] cpt_em_99213
      [cpt_71046, cpt_96372] [hcpcs_J0696] = Inr b"
    by (simp add: run_coding_agent_def t)
  from bundle_resources_and_references[of sample_envelope sample_runtime "[dx_R06_2, dx_R05_9]" cpt_em_99213
      "[cpt_71046, cpt_96372]" "[hcpcs_J0696]" b] t b
  have "length (resources_of_type ''Patient'' b) = 1
        \<and> length (resources_of_type ''Encounter'' b) = 1
        \<and> length (resources_of_type ''Claim'' b) = 1
        \<and> length (resources_of_type ''Condition'' b) = 2
        \<and> length (bundle_resources b) = 5
        \<and> set (bundle_references b) \<subseteq> set (map resource_key (bundle_resources b))
        \<and> list_all is_str (bundle_references b)
        \<and> length (bundle_references b) = 12"
    by simp
  with s t r show ?thesis
    by (intro conjI exI[of _ b]) simp_all
qed

theorem claim_items_and_sequences_witness:
  "envelope_shape sample_envelope
   \<and> tiny_rules sample_envelope
       = Inr ([dx_R06_2, dx_R05_9], cpt_em_99213, [cpt_71046, cpt_96372], [hcpcs_J0696])
   \<and> (\<exists>b. run_coding_agent sample_runtime sample_envelope = Inr b
        \<and> map item_code (elems (field ''item'' (the_resource ''Claim'' b)))
            = [JStr ''99213'', JStr ''71046'', JStr ''96372'', JStr ''J0696'']
        \<and> length (elems (field ''item'' (the_resource ''Claim'' b))) = 4
        \<and> map (field ''sequence'') (elems (field ''item'' (the_resource ''Claim'' b)))
            = [JInt 1, JInt 2, JInt 3, JInt 4]
        \<and> map procedure_code (elems (field ''procedure'' (the_resource ''Claim'' b)))
            = [JStr ''71046'', JStr ''96372'']
        \<and> map (field ''sequence'') (elems (field ''procedure'' (the_resource ''Claim'' b)))
            = [JInt 1, JInt 2])"
proof -
  have s: "envelope_shape sample_envelope"
    by (simp add: sample_envelope_def absent_or_def)
  have t: "tiny_rules sample_envelope
       = Inr ([dx_R06_2, dx_R05_9], cpt_em_99213, [cpt_71046, cpt_96372], [hcpcs_J0696])"
    by code_simp
  from claim_items_and_sequences[of sample_envelope sample_runtime] s
  obtain b where r: "run_coding_agent sample_runtime sample_envelope = Inr b"
    by blast
  then have b: "build_fhir_bundle sample_runtime sample_envelope [dx_R06_2, dx_R05_9] cpt_em_99213
      [cpt_71046, cpt_96372] [hcpcs_J0696] = Inr b"
    by (simp add: run_coding_agent_def t)
  define items where "items = elems (field ''item'' (the_resource ''Claim'' b))"
  define prs where "prs = elems (field ''procedure'' (the_resource ''Claim'' b))"
  note c = claim_items_and_sequences[of sample_envelope sample_runtime "[dx_R06_2, dx_R05_9]"
      cpt_em_99213 "[cpt_71046, cpt_96372]" "[hcpcs_J0696]" b, THEN conjunct2, THEN mp,
      OF conjI[OF t b], folded items_def prs_def]
  have q: "sequence_run 4 = [JInt 1, JInt 2, JInt 3, JInt 4]" "sequence_run 2 = [JInt 1, JInt 2]"
    by (simp_all add: sequence_run_def upt_rec)
  have 1: "map item_code items = [JStr ''99213'', JStr ''71046'', JStr ''96372'', JStr ''J0696'']"
    using c[THEN conjunct1] by (simp add: code_fields)
  have 2: "length items = 4"
    using c[THEN conjunct2, THEN conjunct1] by simp
  have 3: "map (field ''sequence'') items = [JInt 1, JInt 2, JInt 3, JInt 4]"
    using c[THEN conjunct2, THEN conjunct2, THEN conjunct1] by (simp only: 2 q)
  have 4: "map procedure_code prs = [JStr ''71046'', JStr ''96372'']"
    using c[THEN conjunct2, THEN conjunct2, THEN conjunct2, THEN conjunct1]
    by (simp add: code_fields)
  have "length [cpt_71046, cpt_96372] = 2"
    by simp
  with c[THEN conjunct2, THEN conjunct2, THEN conjunct2, THEN conjunct2]
  have 5: "map (field ''sequence'') prs = [JInt 1, JInt 2]"
    by (simp only: q)
  show ?thesis
    by (intro conjI exI[of _ b]) (rule s t r 1[unfolded items_def] 2[unfolded items_def]
        3[unfolded items_def] 4[unfolded prs_def] 5[unfolded prs_def])+
qed

section \<open>Envelopes outside the input contract\<close>

text \<open>
  The claims C1, C2 and C8 as they were stated, for every input envelope, fail: nothing in
  the program checks the type of a field, and a section or a note text of another type
  makes it raise \<open>AttributeError\<close>. A \<open>patient\<close> that is a str, or null, stops
  \<open>build_fhir_bundle\<close> at \<open>patient.get\<close>, after \<open>tiny_rules\<close> has returned.
\<close>

theorem bundle_returned_counterexample:
  "tiny_rules (JObj [(''patient'', JStr ''Asha Rao'')]) = Inr ([], cpt_em_99213, [], [])
   \<and> build_fhir_bundle sample_runtime (JObj [(''patient'', JStr ''Asha Rao'')]) [] cpt_em_99213 [] []
       = Inl AttributeError
   \<and> run_coding_agent sample_runtime (JObj [(''patient'', JStr ''Asha Rao'')]) = Inl AttributeError
   \<and> run_coding_agent sample_runtime (JObj [(''patient'', JNull)]) = Inl AttributeError"
  by code_simp

text \<open>An \<open>encounter\<close> that is a str, or null, stops \<open>build_fhir_bundle\<close> at
  \<open>encounter.get\<close>: no \<open>Claim.item\<close> list is assembled.\<close>

theorem claim_items_counterexample:
  "tiny_rules (JObj [(''encounter'', JStr ''2024-05-01'')]) = Inr ([], cpt_em_99213, [], [])
   \<and> build_fhir_bundle sample_runtime (JObj [(''encounter'', JStr ''2024-05-01'')]) [] cpt_em_99213 [] []
       = Inl AttributeError
   \<and> run_coding_agent sample_runtime (JObj [(''encounter'', JStr ''2024-05-01'')]) = Inl AttributeError
   \<and> run_coding_agent sample_runtime (JObj [(''encounter'', JNull)]) = Inl AttributeError"
  by code_simp

text \<open>A \<open>text_preview\<close> that is not a str, or a \<open>clinical_note\<close> that is a str, stops
  \<open>tiny_rules\<close> at its first two lines, before the visit code is built.\<close>

theorem visit_code_counterexample:
  "tiny_rules (JObj [(''clinical_note'', JObj [(''text_preview'', JInt 5)])]) = Inl AttributeError
   \<and> tiny_rules (JObj [(''clinical_note'', JStr ''Cough and fever.'')]) = Inl AttributeError
   \<and> tiny_rules (JObj [(''clinical_note'', JObj [(''text_preview'', JNull)])]) = Inl AttributeError"
  by code_simp

section \<open>The gender of the Patient\<close>

lemma upper_char_nonempty: "upper_char c \<noteq> []"
  by (simp add: upper_char_def Let_def)

lemma upper_char_single:
  "upper_char c = [k] \<longleftrightarrow>
     (let n = (of_char c :: nat)
      in if (97 \<le> n \<and> n \<le> 122) \<or> (224 \<le> n \<and> n \<le> 254 \<and> n \<noteq> 247) then k = n - 32
         else if n = 181 then k = 924 else if n = 223 then False
         else if n = 255 then k = 376 else k = n)"
  by (auto simp: upper_char_def Let_def)

lemma concat_single:
  assumes "\<And>c. f c \<noteq> []"
  shows "concat (map f s) = [k] \<longleftrightarrow> (\<exists>c. s = [c] \<and> f c = [k])"
proof (cases s)
  case Nil
  then show ?thesis by simp
next
  case (Cons c cs)
  show ?thesis
  proof (cases cs)
    case Nil
    then show ?thesis using Cons by simp
  next
    case (Cons d ds)
    obtain x xs where x: "f c = x # xs"
      using assms[of c] by (cases "f c") simp_all
    obtain y ys where y: "f d = y # ys"
      using assms[of d] by (cases "f d") simp_all
    show ?thesis
      using \<open>s = c # cs\<close> Cons x y by simp
  qed
qed

lemma of_char_eq_iff: "(of_char c :: nat) = of_char d \<longleftrightarrow> c = d"
  by (metis char_of_char)

lemma upper_M: "upper s = [77] \<longleftrightarrow> s = ''M'' \<or> s = ''m''"
proof -
  have "upper_char c = [77] \<longleftrightarrow> c = CHR ''M'' \<or> c = CHR ''m''" for c
  proof -
    have "upper_char c = [77] \<longleftrightarrow> (of_char c :: nat) = 77 \<or> (of_char c :: nat) = 109"
      unfolding upper_char_single by (auto simp: Let_def)
    also have "\<dots> \<longleftrightarrow> (of_char c :: nat) = of_char CHR ''M'' \<or> (of_char c :: nat) = of_char CHR ''m''"
      by simp
    finally show ?thesis
      unfolding of_char_eq_iff .
  qed
  then show ?thesis
    unfolding upper_def concat_single[of upper_char, OF upper_char_nonempty] by auto
qed

lemma upper_F: "upper s = [70] \<longleftrightarrow> s = ''F'' \<or> s = ''f''"
proof -
  have "upper_char c = [70] \<longleftrightarrow> c = CHR ''F'' \<or> c = CHR ''f''" for c
  proof -
    have "upper_char c = [70] \<longleftrightarrow> (of_char c :: nat) = 70 \<or> (of_char c :: nat) = 102"
      unfolding upper_char_single by (auto simp: Let_def)
    also have "\<dots> \<longleftrightarrow> (of_char c :: nat) = of_char CHR ''F'' \<or> (of_char c :: nat) = of_char CHR ''f''"
      by simp
    finally show ?thesis
      unfolding of_char_eq_iff .
  qed
  then show ?thesis
    unfolding upper_def concat_single[of upper_char, OF upper_char_nonempty] by auto
qed

lemma gender_lookup:
  "lookup_points [(''M'', JStr ''male''), (''F'', JStr ''female'')] k (JStr ''unknown'')
     = (if k = [77] then JStr ''male'' else if k = [70] then JStr ''female'' else JStr ''unknown'')"
  by (simp add: lookup_points_def code_points_def)

lemma fhir_patient_gender:
  assumes "fhir_patient pid (JObj psub) = Inr P"
    and "(case map_of psub ''sex'' of None \<Rightarrow> JStr [] | Some v \<Rightarrow> v) = JStr s"
  shows "field ''gender'' P =
     (if s = ''M'' \<or> s = ''m'' then JStr ''male''
      else if s = ''F'' \<or> s = ''f'' then JStr ''female'' else JStr ''unknown'')"
proof -
  have "P = JObj [
       (''resourceType'', JStr ''Patient''),
       (''id'', JStr pid),
       (''identifier'', JArr [JObj [(''system'', JStr ''urn:mrn''),
          (''value'', case map_of psub ''mrn'' of None \<Rightarrow> JStr [] | Some v \<Rightarrow> v)]]),
       (''name'', JArr [JObj [(''family'', case map_of psub ''last_name'' of None \<Rightarrow> JStr [] | Some v \<Rightarrow> v),
          (''given'', JArr [case map_of psub ''first_name'' of None \<Rightarrow> JStr [] | Some v \<Rightarrow> v])]]),
       (''gender'', lookup_points [(''M'', JStr ''male''), (''F'', JStr ''female'')] (upper s)
              (JStr ''unknown'')),
       (''birthDate'', case map_of psub ''dob'' of None \<Rightarrow> JStr [] | Some v \<Rightarrow> v)]"
    using assms(1) unfolding fhir_patient_def by (simp add: assms(2))
  then have "field ''gender'' P
      = lookup_points [(''M'', JStr ''male''), (''F'', JStr ''female'')] (upper s) (JStr ''unknown'')"
    by simp
  then show ?thesis
    unfolding gender_lookup upper_M upper_F by (simp only:)
qed

lemma section_field:
  assumes "dict_get env section (JObj []) = Inr (JObj sub)"
  shows "envelope_field env section k = map_of sub k"
proof (cases env)
  case (JObj kvs)
  show ?thesis
  proof (cases "map_of kvs section")
    case None
    with assms JObj show ?thesis by (simp add: envelope_field_def)
  next
    case (Some v)
    with assms JObj show ?thesis by (simp add: envelope_field_def)
  qed
qed (use assms in simp_all)

lemma bundle_parts_typed:
  assumes b: "build_fhir_bundle rt env icd10 em procs hc = Inr b"
    and t: "truthy em" "truthy (field ''code'' em)"
  obtains patient encounter cid P E ces dgs claim0 claim1 claim2 claim where
    "dict_get env ''patient'' (JObj []) = Inr patient"
    "dict_get env ''encounter'' (JObj []) = Inr encounter"
    "dict_get env ''claim_id'' JNull = Inr cid"
    "fhir_patient (''pat-'' @ uuid_hex8 rt 0) patient = Inr P"
    "fhir_encounter (''pat-'' @ uuid_hex8 rt 0) (''enc-'' @ uuid_hex8 rt 1) encounter = Inr E"
    "conditions_loop rt (''pat-'' @ uuid_hex8 rt 0) (''enc-'' @ uuid_hex8 rt 1) 1 icd10 ([], [])
       = Inr (ces, dgs)"
    "claim_literal rt (''clm-'' @ uuid_hex8 rt 2) (''pat-'' @ uuid_hex8 rt 0) env patient encounter
       (py_or cid (JStr (''clm-'' @ uuid_hex8 rt 2))) dgs = Inr claim0"
    "add_em_item rt em encounter (''enc-'' @ uuid_hex8 rt 1) claim0 = Inr claim1"
    "procedures_loop encounter (''enc-'' @ uuid_hex8 rt 1) 1 procs claim1 = Inr claim2"
    "hcpcs_loop encounter (''enc-'' @ uuid_hex8 rt 1) hc claim2 = Inr claim"
    "the_resource ''Patient'' b = P"
    "the_resource ''Encounter'' b = E"
    "the_resource ''Claim'' b = claim"
proof -
  obtain patient encounter cid P E ces dgs claim0 claim1 claim2 claim where
    p: "dict_get env ''patient'' (JObj []) = Inr patient"
      "dict_get env ''encounter'' (JObj []) = Inr encounter"
      "dict_get env ''claim_id'' JNull = Inr cid"
      "fhir_patient (''pat-'' @ uuid_hex8 rt 0) patient = Inr P"
      "fhir_encounter (''pat-'' @ uuid_hex8 rt 0) (''enc-'' @ uuid_hex8 rt 1) encounter = Inr E"
      "conditions_loop rt (''pat-'' @ uuid_hex8 rt 0) (''enc-'' @ uuid_hex8 rt 1) 1 icd10 ([], [])
         = Inr (ces, dgs)"
      "claim_literal rt (''clm-'' @ uuid_hex8 rt 2) (''pat-'' @ uuid_hex8 rt 0) env patient encounter
         (py_or cid (JStr (''clm-'' @ uuid_hex8 rt 2))) dgs = Inr claim0"
      "add_em_item rt em encounter (''enc-'' @ uuid_hex8 rt 1) claim0 = Inr claim1"
      "procedures_loop encounter (''enc-'' @ uuid_hex8 rt 1) 1 procs claim1 = Inr claim2"
      "hcpcs_loop encounter (''enc-'' @ uuid_hex8 rt 1) hc claim2 = Inr claim"
    and r: "bundle_resources b = P # E # claim # map (field ''resource'') ces"
    by (rule build_fhir_bundle_parts[OF b])
  obtain P' E' claim' ncs where
    r': "bundle_resources b = P' # E' # claim' # ncs"
    and ty: "field ''resourceType'' P' = JStr ''Patient''"
      "field ''resourceType'' E' = JStr ''Encounter''"
      "field ''resourceType'' claim' = JStr ''Claim''"
    and tn: "map (field ''resourceType'') ncs = replicate (length icd10) (JStr ''Condition'')"
    by (rule bundle_layout[OF b t])
  have eq: "P' = P" "E' = E" "claim' = claim"
    using r r' by simp_all
  have fP: "resources_of_type ''Patient'' b = [P]"
    unfolding resources_of_type_def r' eq[symmetric]
    by (simp add: ty filter_map_replicate_other[OF tn type_neq(1)])
  have fE: "resources_of_type ''Encounter'' b = [E]"
    unfolding resources_of_type_def r' eq[symmetric]
    by (simp add: ty filter_map_replicate_other[OF tn type_neq(2)])
  have fC: "resources_of_type ''Claim'' b = [claim]"
    unfolding resources_of_type_def r' eq[symmetric]
    by (simp add: ty filter_map_replicate_other[OF tn type_neq(3)])
  show ?thesis
    by (rule that[OF p]) (simp_all add: the_resource_def fP fE fC)
qed

lemma run_parts:
  assumes "run_coding_agent rt env = Inr b"
  obtains icd10 procs hc where
    "tiny_rules env = Inr (icd10, cpt_em_99213, procs, hc)"
    "build_fhir_bundle rt env icd10 cpt_em_99213 procs hc = Inr b"
proof -
  from assms obtain r where t: "tiny_rules env = Inr r"
    and b: "(case r of (icd10, cpt_em, procedures, hcpcs) \<Rightarrow>
        build_fhir_bundle rt env icd10 cpt_em procedures hcpcs) = Inr b"
    unfolding run_coding_agent_def by (rule bindE_InrE)
  obtain icd10 em procs hc where r: "r = (icd10, em, procs, hc)"
    by (cases r)
  have em: "em = cpt_em_99213"
    using t unfolding r by (rule tiny_rules_visit_code)
  show ?thesis
    using t b unfolding r em by (intro that) simp_all
qed

text \<open>
  Claim C9. Whenever the run returns a bundle (it does for every envelope of the input
  contract), the gender of its Patient is \<open>male\<close> when the sex of the envelope's patient
  is \<open>M\<close> or \<open>m\<close>, \<open>female\<close> when it is \<open>F\<close> or \<open>f\<close>, and \<open>unknown\<close> for every other
  value and when the patient or its sex is absent: the sex is upper-cased before it is
  looked up. Strings are read over the code points below 256.
\<close>

theorem patient_gender:
  "(envelope_shape env \<longrightarrow> (\<exists>b. run_coding_agent rt env = Inr b))
   \<and> (run_coding_agent rt env = Inr b \<longrightarrow>
        field ''gender'' (the_resource ''Patient'' b) =
          (case envelope_field env ''patient'' ''sex'' of
             None \<Rightarrow> JStr ''unknown''
           | Some v \<Rightarrow>
               if v = JStr ''M'' \<or> v = JStr ''m'' then JStr ''male''
               else if v = JStr ''F'' \<or> v = JStr ''f'' then JStr ''female''
               else JStr ''unknown''))"
proof (rule conjI; rule impI)
  assume "envelope_shape env"
  from run_returns[OF this, of rt] obtain b' where "run_coding_agent rt env = Inr b'"
    by (elim exE conjE)
  then show "\<exists>b. run_coding_agent rt env = Inr b" ..
next
  assume "run_coding_agent rt env = Inr b"
  then obtain icd10 procs hc where
    bd: "build_fhir_bundle rt env icd10 cpt_em_99213 procs hc = Inr b"
    by (rule run_parts)
  from bd cpt_em_entry(2,3) obtain patient P where
    g: "dict_get env ''patient'' (JObj []) = Inr patient"
    and p: "fhir_patient (''pat-'' @ uuid_hex8 rt 0) patient = Inr P"
    and r: "the_resource ''Patient'' b = P"
    by (rule bundle_parts_typed)
  obtain psub where ps: "patient = JObj psub"
    using p by (cases patient) (simp_all add: fhir_patient_def)
  define sex where "sex = (case map_of psub ''sex'' of None \<Rightarrow> JStr [] | Some v \<Rightarrow> v)"
  obtain s where s: "sex = JStr s"
    using p unfolding ps fhir_patient_def by (cases sex) (simp_all add: sex_def)
  note f = fhir_patient_gender[OF p[unfolded ps] s[unfolded sex_def]]
  note e = section_field[OF g[unfolded ps], of "''sex''"]
  show "field ''gender'' (the_resource ''Patient'' b) =
          (case envelope_field env ''patient'' ''sex'' of
             None \<Rightarrow> JStr ''unknown''
           | Some v \<Rightarrow>
               if v = JStr ''M'' \<or> v = JStr ''m'' then JStr ''male''
               else if v = JStr ''F'' \<or> v = JStr ''f'' then JStr ''female''
               else JStr ''unknown'')"
  proof (cases "map_of psub ''sex''")
    case None
    then have "s = []"
      using s by (simp add: sex_def)
    then show ?thesis
      unfolding r f e None by simp
  next
    case (Some v)
    then have "v = JStr s"
      using s by (simp add: sex_def)
    then show ?thesis
      unfolding r f e Some by simp
  qed
qed

text \<open>The claim as it was stated, with \<open>unknown\<close> for every sex other than \<open>M\<close> and \<open>F\<close>,
  fails at the sex \<open>m\<close>: \<open>"m".upper()\<close> is \<open>"M"\<close>, and the gender is \<open>male\<close>.\<close>

theorem patient_gender_counterexample:
  "field ''gender'' (the_resource ''Patient'' (result_bundle (run_coding_agent sample_runtime
      (JObj [(''patient'', JObj [(''sex'', JStr ''m'')])])))) = JStr ''male''"
  by code_simp

theorem patient_gender_witness:
  "envelope_shape sample_envelope
   \<and> envelope_field sample_envelope ''patient'' ''sex'' = Some (JStr ''F'')
   \<and> (\<exists>b. run_coding_agent sample_runtime sample_envelope = Inr b
        \<and> field ''gender'' (the_resource ''Patient'' b) = JStr ''female'')"
proof -
  have s: "envelope_shape sample_envelope"
    by (simp add: sample_envelope_def absent_or_def)
  have e: "envelope_field sample_envelope ''patient'' ''sex'' = Some (JStr ''F'')"
    by (simp add: sample_envelope_def envelope_field_def)
  from patient_gender[of sample_envelope sample_runtime] s
  obtain b where r: "run_coding_agent sample_runtime sample_envelope = Inr b"
    by blast
  from patient_gender[of sample_envelope sample_runtime b] r
  have "field ''gender'' (the_resource ''Patient'' b) = JStr ''female''"
    unfolding e by simp
  with s e r show ?thesis
    by (intro conjI exI[of _ b])
qed

end
